theory Spec2Isabelle
  imports Complex_Main
begin

section \<open>Course catalogue\<close>

text \<open>
  The program is a single script, \<^verbatim>\<open>js/main.js\<close>, of which the repository holds two
  revisions. The later one has the cumulative selection, the category filter that works
  together with it, and the table of program-specific categories; it is the one modelled
  here. The closure resolver and the graph builder are the same text in both revisions,
  which differ, as far as the builder goes, only in \<^verbatim>\<open>extractGroup\<close>, that is, in the
  group a course node is given.

  A parsed requirement is a JSON object tagged by its \<^verbatim>\<open>type\<close> field, with the four
  tags below; an entry with another tag has no branch in either consumer and leaves no
  trace. A missing \<^verbatim>\<open>conditions\<close> array is treated by every consumer exactly as an
  empty one (each loop over it is guarded by a truthiness test), so it is modelled as the
  empty list; the same holds for \<^verbatim>\<open>prerequisites_parsed\<close> and
  \<^verbatim>\<open>corequisites_parsed\<close>. The \<^verbatim>\<open>count\<close> of an N-of-list is an integer.
\<close>

datatype requirement =
    COURSE string
  | LOGICAL_OPERATOR string "requirement list"
  | TEXTUAL string
  | N_OF_LIST int "requirement list"

record course =
  code :: string
  title :: string
  description :: string
  credits :: string
  prerequisites_raw :: string
  corequisites_raw :: string
  prerequisites_parsed :: "requirement list"
  corequisites_parsed :: "requirement list"

record programRecord =
  program :: string
  courses :: "string list"

text \<open>\<^verbatim>\<open>coursesData.find((c) => c.code === k)\<close>: the first record with that code.\<close>

definition findCourse :: "course list \<Rightarrow> string \<Rightarrow> course option" where
  "findCourse coursesData k = find (\<lambda>c. code c = k) coursesData"

text \<open>
  A JavaScript \<^verbatim>\<open>Set\<close> iterates in insertion order; it is modelled as a duplicate-free
  list, \<^verbatim>\<open>add\<close> appending an element that is not yet present.
\<close>

definition setAdd :: "'a \<Rightarrow> 'a list \<Rightarrow> 'a list" where
  "setAdd x s = (if x \<in> set s then s else s @ [x])"

definition newSet :: "'a list \<Rightarrow> 'a list" where
  "newSet xs = fold setAdd xs []"

section \<open>Closure resolver\<close>

text \<open>
  The body of the \<^verbatim>\<open>forEach\<close> inside \<^verbatim>\<open>addDependencies\<close>, on the pair
  (\<^verbatim>\<open>relevantCodes\<close>, \<^verbatim>\<open>queue\<close>) both of which it mutates. Only the tags
  \<^verbatim>\<open>COURSE\<close> and \<^verbatim>\<open>LOGICAL_OPERATOR\<close> have a branch.
\<close>

fun addDependency ::
  "course list \<Rightarrow> requirement \<Rightarrow> string list \<times> string list \<Rightarrow> string list \<times> string list"
where
  "addDependency coursesData (COURSE c) (relevantCodes, queue) =
     (if findCourse coursesData c \<noteq> None \<and> c \<notin> set relevantCodes
      then (setAdd c relevantCodes, queue @ [c])
      else (relevantCodes, queue))"
| "addDependency coursesData (LOGICAL_OPERATOR opr conditions) s =
     fold (addDependency coursesData) conditions s"
| "addDependency coursesData (TEXTUAL t) s = s"
| "addDependency coursesData (N_OF_LIST n conditions) s = s"

definition addDependencies ::
  "course list \<Rightarrow> requirement list \<Rightarrow> string list \<times> string list \<Rightarrow> string list \<times> string list"
where
  "addDependencies coursesData requirements s = fold (addDependency coursesData) requirements s"

text \<open>
  What one pass of \<^verbatim>\<open>addDependencies\<close> may do to the pair: append the same fresh codes,
  all taken from a set \<open>A\<close>, to both components.
\<close>

definition grows ::
  "string set \<Rightarrow> string list \<times> string list \<Rightarrow> string list \<times> string list \<Rightarrow> bool"
where
  "grows A s s' =
     (\<exists>new. s' = (fst s @ new, snd s @ new) \<and> set new \<subseteq> A
        \<and> set new \<inter> set (fst s) = {} \<and> distinct new)"

text \<open>The codes a requirement refers to through course references and logical operators only.\<close>

fun viaOperators :: "requirement \<Rightarrow> string set" where
  "viaOperators (COURSE c) = {c}"
| "viaOperators (LOGICAL_OPERATOR opr conditions) = (\<Union>r \<in> set conditions. viaOperators r)"
| "viaOperators (TEXTUAL t) = {}"
| "viaOperators (N_OF_LIST n conditions) = {}"

definition catalogCodes :: "course list \<Rightarrow> string set" where
  "catalogCodes coursesData = set (map code coursesData)"

lemma findCourse_None: "findCourse cd k = None \<longleftrightarrow> k \<notin> catalogCodes cd"
  by (auto simp: findCourse_def find_None_iff catalogCodes_def)

lemma findCourse_Some_code: "findCourse cd k = Some c \<Longrightarrow> code c = k"
  by (auto simp: findCourse_def find_Some_iff)

lemma grows_refl: "grows A s s"
  by (auto simp: grows_def intro: exI[of _ "[]"])

lemma grows_trans: "grows A s s' \<Longrightarrow> grows B s' s'' \<Longrightarrow> grows (A \<union> B) s s''"
  unfolding grows_def
  apply (elim exE conjE)
  subgoal for n1 n2
    by (rule exI[of _ "n1 @ n2"]) auto
  done

lemma grows_mono: "grows A s s' \<Longrightarrow> A \<subseteq> B \<Longrightarrow> grows B s s'"
  unfolding grows_def by blast

lemma fold_grows:
  assumes "\<And>x s. x \<in> set xs \<Longrightarrow> grows (F x) s (f x s)"
  shows "grows (\<Union>x \<in> set xs. F x) s (fold f xs s)"
  using assms
proof (induction xs arbitrary: s)
  case Nil
  then show ?case by (simp add: grows_refl)
next
  case (Cons a xs)
  have "grows (F a) s (f a s)" using Cons.prems by simp
  moreover have "grows (\<Union>x \<in> set xs. F x) (f a s) (fold f xs (f a s))"
    using Cons.IH Cons.prems by simp
  ultimately have "grows (F a \<union> (\<Union>x \<in> set xs. F x)) s (fold f xs (f a s))"
    by (rule grows_trans)
  then show ?case by simp
qed

lemma addDependency_grows:
  "grows (viaOperators r \<inter> catalogCodes cd) s (addDependency cd r s)"
proof (induction r arbitrary: s)
  case (COURSE c)
  obtain rel q where s: "s = (rel, q)" by (cases s)
  show ?case unfolding s
    by (auto simp: grows_def setAdd_def findCourse_None)
next
  case (LOGICAL_OPERATOR opr conds)
  have "grows (\<Union>x \<in> set conds. viaOperators x \<inter> catalogCodes cd) s
          (fold (addDependency cd) conds s)"
    by (rule fold_grows) (rule LOGICAL_OPERATOR)
  then show ?case by (auto elim: grows_mono)
qed (simp_all add: grows_refl)

lemma addDependencies_grows:
  "grows ((\<Union>r \<in> set rs. viaOperators r) \<inter> catalogCodes cd) s (addDependencies cd rs s)"
proof -
  have "grows (\<Union>x \<in> set rs. viaOperators x \<inter> catalogCodes cd) s (addDependencies cd rs s)"
    unfolding addDependencies_def by (rule fold_grows) (rule addDependency_grows)
  then show ?thesis by (auto elim: grows_mono)
qed

lemma course_step_grows:
  "grows ((\<Union>r \<in> set (prerequisites_parsed c) \<union> set (corequisites_parsed c). viaOperators r)
            \<inter> catalogCodes cd) s
     (addDependencies cd (corequisites_parsed c) (addDependencies cd (prerequisites_parsed c) s))"
  by (rule grows_mono[OF grows_trans[OF addDependencies_grows addDependencies_grows]]) auto

definition loopMeasure :: "course list \<times> nat \<times> string list \<times> string list \<Rightarrow> nat \<times> nat" where
  "loopMeasure = (\<lambda>(cd, h, rel, q). (card (catalogCodes cd - set rel), length q - h))"

lemma grows_measure:
  assumes "grows (catalogCodes cd) (rel, q) s'" "h < length q"
  shows "((cd, Suc h, s'), (cd, h, rel, q)) \<in> inv_image (less_than <*lex*> less_than) loopMeasure"
proof -
  from assms obtain new where n: "s' = (rel @ new, q @ new)" "set new \<subseteq> catalogCodes cd"
     "set new \<inter> set rel = {}" by (auto simp: grows_def)
  show ?thesis
  proof (cases "new = []")
    case True
    with n assms show ?thesis by (auto simp: loopMeasure_def)
  next
    case False
    then obtain x where x: "x \<in> set new" by (cases new) auto
    have "catalogCodes cd - set (rel @ new) \<subset> catalogCodes cd - set rel"
      using n x by auto
    then have "card (catalogCodes cd - set (rel @ new)) < card (catalogCodes cd - set rel)"
      by (intro psubset_card_mono) (auto simp: catalogCodes_def)
    then show ?thesis by (simp add: loopMeasure_def n)
  qed
qed

text \<open>
  The \<^verbatim>\<open>while (head < queue.length)\<close> loop of \<^verbatim>\<open>getRelevantCoursesForProgram\<close>. The
  queue is never shortened: \<^verbatim>\<open>head\<close> walks over it while \<^verbatim>\<open>addDependencies\<close>
  appends. The loop returns the final \<^verbatim>\<open>relevantCodes\<close> and \<^verbatim>\<open>queue\<close>.
\<close>

function relevantLoop ::
  "course list \<Rightarrow> nat \<Rightarrow> string list \<times> string list \<Rightarrow> string list \<times> string list"
where
  "relevantLoop coursesData head (relevantCodes, queue) =
     (if head < length queue then
        (case findCourse coursesData (queue ! head) of
           None \<Rightarrow> relevantLoop coursesData (Suc head) (relevantCodes, queue)
         | Some course \<Rightarrow>
             relevantLoop coursesData (Suc head)
               (addDependencies coursesData (corequisites_parsed course)
                 (addDependencies coursesData (prerequisites_parsed course)
                   (relevantCodes, queue))))
      else (relevantCodes, queue))"
  by pat_completeness auto
termination
proof (relation "inv_image (less_than <*lex*> less_than) loopMeasure")
  show "wf (inv_image (less_than <*lex*> less_than) loopMeasure)"
    by (intro wf_inv_image wf_lex_prod wf_less_than)
next
  fix cd :: "course list" and head relevantCodes and queue :: "string list"
  assume "head < length queue"
  then show "((cd, Suc head, relevantCodes, queue), (cd, head, relevantCodes, queue))
        \<in> inv_image (less_than <*lex*> less_than) loopMeasure"
    using grows_measure[OF grows_refl] by blast
next
  fix cd :: "course list" and head relevantCodes and queue :: "string list" and x2
  assume h: "head < length queue"
  have "grows (catalogCodes cd) (relevantCodes, queue)
          (addDependencies cd (corequisites_parsed x2)
            (addDependencies cd (prerequisites_parsed x2) (relevantCodes, queue)))"
    by (rule grows_mono[OF course_step_grows]) simp
  then show "((cd, Suc head,
         addDependencies cd (corequisites_parsed x2)
          (addDependencies cd (prerequisites_parsed x2) (relevantCodes, queue))),
        cd, head, relevantCodes, queue)
       \<in> inv_image (less_than <*lex*> less_than) loopMeasure"
    using grows_measure[OF _ h] by blast
qed

declare relevantLoop.simps [simp del]

text \<open>
  The state of the traversal when the loop ends, and the function itself, which returns
  \<^verbatim>\<open>Array.from(relevantCodes)\<close>.
\<close>

definition relevantTraversal :: "course list \<Rightarrow> string list \<Rightarrow> string list \<times> string list" where
  "relevantTraversal coursesData programCourseCodes =
     (let queue = filter (\<lambda>k. findCourse coursesData k \<noteq> None) programCourseCodes;
          relevantCodes = fold setAdd queue []
      in relevantLoop coursesData 0 (relevantCodes, queue))"

definition getRelevantCoursesForProgram :: "course list \<Rightarrow> string list \<Rightarrow> string list" where
  "getRelevantCoursesForProgram coursesData programCourseCodes =
     fst (relevantTraversal coursesData programCourseCodes)"

text \<open>
  The closure the resolver is meant to compute, stated on its own: the seeds found in the
  catalogue, closed under the references a course makes through course references and
  logical operators to courses of the catalogue.
\<close>

inductive_set closure :: "course list \<Rightarrow> string list \<Rightarrow> string set"
  for coursesData :: "course list" and seeds :: "string list"
where
  seed: "k \<in> set seeds \<Longrightarrow> findCourse coursesData k \<noteq> None \<Longrightarrow> k \<in> closure coursesData seeds"
| dep: "k \<in> closure coursesData seeds \<Longrightarrow> findCourse coursesData k = Some c \<Longrightarrow>
        r \<in> set (prerequisites_parsed c) \<union> set (corequisites_parsed c) \<Longrightarrow>
        d \<in> viaOperators r \<Longrightarrow> findCourse coursesData d \<noteq> None \<Longrightarrow>
        d \<in> closure coursesData seeds"

section \<open>Course categories\<close>

text \<open>
  The group of a course is its entry in the table of the Cognitive Science program, or
  else its subject prefix. \<^verbatim>\<open>String.prototype.replace\<close> with a string pattern
  replaces the first occurrence only; \<^verbatim>\<open>split("-")[0]\<close> is the text before the
  first hyphen.
\<close>

fun replaceFirst :: "char \<Rightarrow> char \<Rightarrow> string \<Rightarrow> string" where
  "replaceFirst a b [] = []"
| "replaceFirst a b (c # cs) = (if c = a then b # cs else c # replaceFirst a b cs)"

text \<open>
  \<^verbatim>\<open>addCogSciCourse\<close> keeps the category a code was given first. The table is an
  association list in insertion order; every category name of the script is a non-empty
  string, so the test \<^verbatim>\<open>!cognitiveScienceProgramMap[code]\<close> is the test for absence.
\<close>

definition addCogSciCourse ::
  "string \<Rightarrow> string \<Rightarrow> (string \<times> string) list \<Rightarrow> (string \<times> string) list"
where
  "addCogSciCourse courseCodeWithSpace categoryName m =
     (let courseCodeWithHyphen = replaceFirst CHR '' '' CHR ''-'' courseCodeWithSpace
      in if map_of m courseCodeWithHyphen = None
         then m @ [(courseCodeWithHyphen, categoryName)] else m)"

definition addAll ::
  "string list \<Rightarrow> string \<Rightarrow> (string \<times> string) list \<Rightarrow> (string \<times> string) list"
where
  "addAll cs categoryName m = fold (\<lambda>c. addCogSciCourse c categoryName) cs m"

definition complementaryCompSci :: "string list" where
  "complementaryCompSci =
    [''COMP 206'', ''COMP 250'', ''COMP 251'', ''COMP 280'', ''COMP 302'', ''COMP 330'',
     ''COMP 345'', ''COMP 360'', ''COMP 400'', ''COMP 409'', ''COMP 417'', ''COMP 421'',
     ''COMP 424'', ''COMP 445'', ''COMP 451'', ''COMP 523'', ''COMP 527'', ''COMP 531'',
     ''COMP 545'', ''COMP 546'', ''COMP 549'', ''COMP 550'', ''COMP 551'', ''COMP 558'',
     ''COMP 562'', ''COMP 579'', ''MATH 222'', ''MATH 223'', ''MATH 240'']"

definition complementaryLinguistics :: "string list" where
  "complementaryLinguistics =
    [''LING 201'', ''LING 210'', ''LING 260'']"

definition complementaryPhilosophy :: "string list" where
  "complementaryPhilosophy =
    [''NSCI 300'', ''PHIL 306'', ''PHIL 310'', ''PHIL 311'', ''PHIL 341'', ''PHIL 354'',
     ''PHIL 355'', ''PHIL 360'', ''PHIL 361'', ''PHIL 367'', ''PHIL 411'', ''PHIL 415'',
     ''PHIL 419'', ''PHIL 421'', ''PHIL 441'', ''PHIL 470'', ''PHIL 474'']"

definition complementaryPsychology :: "string list" where
  "complementaryPsychology =
    [''ANTH 440'', ''MUMT 250'', ''PSYC 204'', ''PSYC 211'', ''PSYC 212'', ''PSYC 213'',
     ''PSYC 301'', ''PSYC 302'', ''PSYC 303'', ''PSYC 304'', ''PSYC 305'', ''PSYC 306'',
     ''PSYC 310'', ''PSYC 311'', ''PSYC 315'', ''PSYC 317'', ''PSYC 318'', ''PSYC 319'',
     ''PSYC 340'', ''PSYC 341'', ''PSYC 342'', ''PSYC 352'', ''PSYC 403'', ''PSYC 406'',
     ''PSYC 410'', ''PSYC 413'', ''PSYC 415'', ''PSYC 427'', ''PSYC 433'', ''PSYC 439'',
     ''PSYC 443'', ''PSYC 470'', ''PSYC 506'', ''PSYC 513'', ''PSYC 514'', ''PSYC 522'',
     ''PSYC 526'', ''PSYC 529'', ''PSYC 531'', ''PSYC 537'', ''PSYC 538'', ''PSYC 541'',
     ''PSYC 545'', ''PSYC 560'']"

definition complementaryNeuroscience :: "string list" where
  "complementaryNeuroscience =
    [''ANAT 321'', ''BIOL 200'', ''BIOL 201'', ''BIOL 216'', ''BIOL 306'', ''BIOL 307'',
     ''BIOL 320'', ''BIOL 389'', ''BIOL 414'', ''BIOL 506'', ''BIOL 507'', ''BIOL 517'',
     ''BIOL 530'', ''BIOL 532'', ''BIOL 580'', ''BIOL 588'', ''CHEM 212'', ''NEUR 310'',
     ''NEUR 503'', ''NEUR 507'', ''NSCI 200'', ''NSCI 300'', ''PHGY 209'', ''PHGY 311'',
     ''PHGY 314'', ''PHGY 556'', ''PSYC 211'', ''PSYC 302'', ''PSYC 303'', ''PSYC 306'',
     ''PSYC 311'', ''PSYC 317'', ''PSYC 318'', ''PSYC 342'', ''PSYC 410'', ''PSYC 415'',
     ''PSYC 427'', ''PSYC 433'', ''PSYC 443'', ''PSYC 444'', ''PSYC 502'', ''PSYC 506'',
     ''PSYC 514'', ''PSYC 522'', ''PSYC 526'', ''PSYC 529'', ''PSYT 301'', ''PSYT 500'',
     ''PSYT 515'']"

definition cognitiveScienceProgramMap :: "(string \<times> string) list" where
  "cognitiveScienceProgramMap =
     fold (\<lambda>(cs, categoryName). addAll cs categoryName)
       [([''NSCI 201''], ''CogSci Program: Required''),
        ([''COMP 230'', ''MATH 318'', ''PHIL 210''], ''CogSci Program: Core Logic''),
        ([''MATH 203'', ''MATH 323'', ''PSYC 204''], ''CogSci Program: Core Statistics''),
        ([''COMP 202'', ''COMP 204'', ''COMP 250''], ''CogSci Program: Core CompSci''),
        ([''LING 201'', ''LING 210'', ''LING 260''], ''CogSci Program: Core Linguistics''),
        ([''PHIL 200'', ''PHIL 201'', ''PHIL 221''], ''CogSci Program: Core Philosophy''),
        ([''NSCI 200'', ''PSYC 211''], ''CogSci Program: Core Neuroscience''),
        ([''PSYC 212'', ''PSYC 213''], ''CogSci Program: Core Psychology''),
        (complementaryCompSci, ''CogSci Program: Comp CompSci''),
        (complementaryLinguistics, ''CogSci Program: Comp Linguistics''),
        (complementaryPhilosophy, ''CogSci Program: Comp Philosophy''),
        (complementaryPsychology, ''CogSci Program: Comp Psychology''),
        (complementaryNeuroscience, ''CogSci Program: Comp Neuroscience''),
        ([''COGS 401''], ''CogSci Program: Research Course'')]
       []"

definition extractGroup :: "string \<Rightarrow> string" where
  "extractGroup courseCode =
     (case map_of cognitiveScienceProgramMap courseCode of
        Some category \<Rightarrow> category
      | None \<Rightarrow> takeWhile (\<lambda>c. c \<noteq> CHR ''-'') courseCode)"

section \<open>Graph elements\<close>

text \<open>
  Nodes and edges are the objects handed to the rendering library. The fields
  \<open>node_opacity\<close>, \<open>node_font\<close>, \<open>node_borderWidth\<close> and \<open>edge_width\<close> are absent on a
  freshly built element and are set by the interaction handlers.
\<close>

record fontProperties =
  font_size :: nat
  font_face :: string
  font_bold :: bool
  font_strokeWidth :: nat
  font_strokeColor :: string
  font_color :: string
  font_multi :: "bool option"
  font_align :: "string option"

datatype details = CourseDetails course | RequirementDetails requirement

record node =
  node_id :: string
  node_label :: string
  node_title :: string
  node_group :: string
  node_size :: "nat option"
  node_details :: "details option"
  node_opacity :: "rat option"
  node_font :: "fontProperties option"
  node_borderWidth :: "nat option"

record edgeColor =
  ec_color :: string
  ec_highlight :: "string option"
  ec_opacity :: "rat option"

record edge =
  edge_from :: string
  edge_to :: string
  edge_arrows :: string
  edge_color :: "edgeColor option"
  edge_dashes :: bool
  edge_title :: string
  edge_baseColorType :: string
  edge_id :: string
  edge_width :: "nat option"

definition DIM_PREREQ_COLOR :: edgeColor where
  "DIM_PREREQ_COLOR = \<lparr>ec_color = ''rgba(41, 128, 185, 0.15)'',
     ec_highlight = Some ''rgba(52, 152, 219, 0.25)'', ec_opacity = None\<rparr>"

definition DIM_COREQ_COLOR :: edgeColor where
  "DIM_COREQ_COLOR = \<lparr>ec_color = ''rgba(39, 174, 96, 0.15)'',
     ec_highlight = Some ''rgba(46, 204, 113, 0.25)'', ec_opacity = None\<rparr>"

definition HIGHLIGHT_PREREQ_COLOR :: edgeColor where
  "HIGHLIGHT_PREREQ_COLOR = \<lparr>ec_color = ''#2980b9'', ec_highlight = Some ''#3498db'',
     ec_opacity = None\<rparr>"

definition HIGHLIGHT_COREQ_COLOR :: edgeColor where
  "HIGHLIGHT_COREQ_COLOR = \<lparr>ec_color = ''#27ae60'', ec_highlight = Some ''#2ecc71'',
     ec_opacity = None\<rparr>"

definition newNode :: "string \<Rightarrow> string \<Rightarrow> string \<Rightarrow> string \<Rightarrow> nat option \<Rightarrow> details option \<Rightarrow> node"
where
  "newNode i l t g sz d = \<lparr>node_id = i, node_label = l, node_title = t, node_group = g,
     node_size = sz, node_details = d, node_opacity = None, node_font = None,
     node_borderWidth = None\<rparr>"

text \<open>
  Every edge the builder makes has \<^verbatim>\<open>arrows: "to"\<close>, the dim colour of its requirement
  kind, that kind as \<^verbatim>\<open>baseColorType\<close>, and the identifier
  \<^verbatim>\<open>`${from}_${to}_${type}`\<close>.
\<close>

definition newEdge :: "string \<Rightarrow> string \<Rightarrow> string \<Rightarrow> bool \<Rightarrow> string \<Rightarrow> edge" where
  "newEdge fromId toId rtype dashes t =
     \<lparr>edge_from = fromId, edge_to = toId, edge_arrows = ''to'',
      edge_color = Some (if rtype = ''prereq'' then DIM_PREREQ_COLOR else DIM_COREQ_COLOR),
      edge_dashes = dashes, edge_title = t, edge_baseColorType = rtype,
      edge_id = fromId @ ''_'' @ toId @ ''_'' @ rtype, edge_width = None\<rparr>"

text \<open>
  \<^verbatim>\<open>if (!nodesArray.some((n) => n.id === id)) nodesArray.push(node)\<close> and the same test
  on \<^verbatim>\<open>edgesArray\<close>.
\<close>

definition pushNodeIfAbsent :: "node \<Rightarrow> node list \<Rightarrow> node list" where
  "pushNodeIfAbsent n nodesArray =
     (if list_ex (\<lambda>m. node_id m = node_id n) nodesArray then nodesArray
      else nodesArray @ [n])"

definition pushEdgeIfAbsent :: "edge \<Rightarrow> edge list \<Rightarrow> edge list" where
  "pushEdgeIfAbsent e edgesArray =
     (if list_ex (\<lambda>d. edge_id d = edge_id e) edgesArray then edgesArray
      else edgesArray @ [e])"

subsection \<open>Strings\<close>

text \<open>
  Decimal rendering of a counter and of a requirement's \<^verbatim>\<open>count\<close> in a template
  literal. Counts are integers; the script prints an integer of magnitude below \<open>10\<^sup>2\<^sup>1\<close> in
  plain decimal, which is what \<open>intToString\<close> gives, and a larger one in exponent notation,
  which is outside of the model.
\<close>

fun numberToString :: "nat \<Rightarrow> string" where
  "numberToString n =
     (if n < 10 then [''0123456789'' ! n]
      else numberToString (n div 10) @ [''0123456789'' ! (n mod 10)])"

declare numberToString.simps [simp del]

definition intToString :: "int \<Rightarrow> string" where
  "intToString i = (if i < 0 then ''-'' @ numberToString (nat (- i)) else numberToString (nat i))"

text \<open>\<^verbatim>\<open>toUpperCase\<close> on the ASCII letters; other characters are left as they are.\<close>

definition toUpperCase :: "string \<Rightarrow> string" where
  "toUpperCase s =
     map (\<lambda>c. case map_of (zip ''abcdefghijklmnopqrstuvwxyz'' ''ABCDEFGHIJKLMNOPQRSTUVWXYZ'') c of
                 Some u \<Rightarrow> u | None \<Rightarrow> c) s"

definition startsWith :: "string \<Rightarrow> string \<Rightarrow> bool" where
  "startsWith s p = (take (length p) s = p)"

section \<open>Graph builder\<close>

record idCounter =
  logic :: nat
  textual :: nat
  nOfList :: nat

record buildState =
  nodesArray :: "node list"
  edgesArray :: "edge list"
  idCounter :: idCounter

text \<open>
  \<^verbatim>\<open>addRequirementGraphElements(requirement, targetNodeId, type, displaySet, nodesArray,
  edgesArray, idCounter, originalCourseCode)\<close>. The three mutated arguments are the build
  state; \<^verbatim>\<open>displaySet\<close> is passed along but never read, and is left out. For a course
  reference that is not in the catalogue the function only logs a warning.
\<close>

fun addRequirementGraphElements ::
  "course list \<Rightarrow> requirement \<Rightarrow> string \<Rightarrow> string \<Rightarrow> string \<Rightarrow> buildState \<Rightarrow> buildState"
where
  "addRequirementGraphElements coursesData (COURSE courseCode) targetNodeId rtype
       originalCourseCode s =
     (case findCourse coursesData courseCode of
        Some courseData \<Rightarrow>
          s\<lparr>nodesArray :=
              pushNodeIfAbsent
                (newNode courseCode courseCode
                   (if title courseData \<noteq> [] then title courseData else courseCode)
                   (extractGroup courseCode) None (Some (CourseDetails courseData)))
                (nodesArray s),
            edgesArray :=
              pushEdgeIfAbsent
                (newEdge courseCode targetNodeId rtype (rtype = ''coreq'')
                   (courseCode @ '' ''
                    @ (if rtype = ''prereq'' then ''is a prerequisite for''
                       else ''is a corequisite with'')
                    @ '' ''
                    @ (if startsWith targetNodeId ''logic_'' then ''a condition group for''
                       else [])
                    @ '' '' @ originalCourseCode))
                (edgesArray s)\<rparr>
      | None \<Rightarrow> s)"
| "addRequirementGraphElements coursesData (LOGICAL_OPERATOR opr conditions) targetNodeId rtype
       originalCourseCode s =
     (let counter = (idCounter s)\<lparr>logic := logic (idCounter s) + 1\<rparr>;
          operator = toUpperCase opr;
          logicNodeGroup = (if operator = ''AND'' then ''AndNode'' else ''OrNode'');
          logicNodeId = ''logic_'' @ originalCourseCode @ ''_'' @ rtype @ ''_'' @ operator
                        @ ''_'' @ numberToString (logic counter)
      in fold (\<lambda>condition. addRequirementGraphElements coursesData condition logicNodeId rtype
                  originalCourseCode)
           conditions
           (s\<lparr>nodesArray :=
                pushNodeIfAbsent
                  (newNode logicNodeId operator
                     (operator @ '' condition for '' @ originalCourseCode)
                     logicNodeGroup (Some 12) None)
                  (nodesArray s),
              edgesArray :=
                pushEdgeIfAbsent
                  (newEdge logicNodeId targetNodeId rtype False
                     (''This '' @ operator @ '' group is a '' @ rtype @ '' for ''
                      @ (if startsWith targetNodeId ''logic_''
                         then ''another condition group for'' else [])
                      @ '' '' @ originalCourseCode))
                  (edgesArray s),
              idCounter := counter\<rparr>))"
| "addRequirementGraphElements coursesData (TEXTUAL text) targetNodeId rtype
       originalCourseCode s =
     (let counter = (idCounter s)\<lparr>textual := textual (idCounter s) + 1\<rparr>;
          textualNodeId = ''textual_'' @ originalCourseCode @ ''_'' @ rtype @ ''_''
                          @ numberToString (textual counter);
          nodeLabel = (if text \<noteq> [] then text else ''Textual requirement'')
      in s\<lparr>nodesArray :=
              pushNodeIfAbsent
                (newNode textualNodeId nodeLabel
                   (''Textual: '' @ nodeLabel @ '' (for '' @ originalCourseCode @ '')'')
                   ''TextualNode'' None None)
                (nodesArray s),
            edgesArray :=
              pushEdgeIfAbsent
                (newEdge textualNodeId targetNodeId rtype False
                   (''This textual condition is a '' @ rtype @ '' for ''
                    @ (if startsWith targetNodeId ''logic_'' then ''a condition group for''
                       else [])
                    @ '' '' @ originalCourseCode))
                (edgesArray s),
            idCounter := counter\<rparr>)"
| "addRequirementGraphElements coursesData (N_OF_LIST count conditions) targetNodeId rtype
       originalCourseCode s =
     (if count = 1 then
        (let counter = (idCounter s)\<lparr>logic := logic (idCounter s) + 1\<rparr>;
             orNodeId = ''logic_'' @ originalCourseCode @ ''_'' @ rtype @ ''_OR_N_OF_1_''
                        @ numberToString (logic counter)
         in fold (\<lambda>itemInList. addRequirementGraphElements coursesData itemInList orNodeId rtype
                     originalCourseCode)
              conditions
              (s\<lparr>nodesArray :=
                   pushNodeIfAbsent
                     (newNode orNodeId ''OR''
                        (''OR condition (1 of list) for '' @ originalCourseCode)
                        ''OrNode'' (Some 12)
                        (Some (RequirementDetails (N_OF_LIST count conditions))))
                     (nodesArray s),
                 edgesArray :=
                   pushEdgeIfAbsent
                     (newEdge orNodeId targetNodeId rtype False
                        (''This OR group (1 of list) is a '' @ rtype @ '' for ''
                         @ (if startsWith targetNodeId ''logic_''
                            then ''another condition for'' else [])
                         @ '' '' @ originalCourseCode))
                     (edgesArray s),
                 idCounter := counter\<rparr>))
      else
        (let counter = (idCounter s)\<lparr>nOfList := nOfList (idCounter s) + 1\<rparr>;
             nOfListNodeId = ''n_of_list_'' @ originalCourseCode @ ''_'' @ rtype @ ''_''
                             @ intToString count @ ''_'' @ numberToString (nOfList counter);
             nodeLabel = intToString count @ '' of:''
         in fold (\<lambda>itemInList. addRequirementGraphElements coursesData itemInList nOfListNodeId
                     rtype originalCourseCode)
              conditions
              (s\<lparr>nodesArray :=
                   pushNodeIfAbsent
                     (newNode nOfListNodeId nodeLabel
                        (nodeLabel @ '' (for '' @ originalCourseCode @ '')'')
                        ''NOfListNode'' None
                        (Some (RequirementDetails (N_OF_LIST count conditions))))
                     (nodesArray s),
                 edgesArray :=
                   pushEdgeIfAbsent
                     (newEdge nOfListNodeId targetNodeId rtype False
                        (''This '' @ [CHR 0x27] @ nodeLabel @ [CHR 0x27] @ '' group is a ''
                         @ rtype @ '' for ''
                         @ (if startsWith targetNodeId ''logic_''
                            then ''another condition group for'' else [])
                         @ '' '' @ originalCourseCode))
                     (edgesArray s),
                 idCounter := counter\<rparr>)))"

text \<open>
  The body of \<^verbatim>\<open>displaySet.forEach\<close> in \<^verbatim>\<open>generateGraphElements\<close>: a code without a
  catalogue entry is skipped; otherwise the course node is pushed without a test for its
  presence, and the prerequisite and corequisite trees are walked with the course as target.
\<close>

definition addCourseElements :: "course list \<Rightarrow> string \<Rightarrow> buildState \<Rightarrow> buildState" where
  "addCourseElements coursesData courseCode s =
     (case findCourse coursesData courseCode of
        None \<Rightarrow> s
      | Some course \<Rightarrow>
          fold (\<lambda>reqDetail. addRequirementGraphElements coursesData reqDetail (code course)
                  ''coreq'' (code course))
            (corequisites_parsed course)
            (fold (\<lambda>reqDetail. addRequirementGraphElements coursesData reqDetail (code course)
                     ''prereq'' (code course))
               (prerequisites_parsed course)
               (s\<lparr>nodesArray := nodesArray s
                    @ [newNode (code course) (code course)
                         (code course @ '': '' @ title course)
                         (extractGroup (code course)) None None]\<rparr>)))"

definition initialBuildState :: buildState where
  "initialBuildState =
     \<lparr>nodesArray = [], edgesArray = [], idCounter = \<lparr>logic = 0, textual = 0, nOfList = 0\<rparr>\<rparr>"

definition generateGraphElements :: "course list \<Rightarrow> string list \<Rightarrow> node list \<times> edge list" where
  "generateGraphElements coursesData courseCodesToDisplay =
     (let displaySet = newSet courseCodesToDisplay;
          s = fold (addCourseElements coursesData) displaySet initialBuildState
      in (nodesArray s, edgesArray s))"

section \<open>View state\<close>

text \<open>
  The mutable state the handlers share: the two data sets given to the rendering library,
  the cumulative selection, the values of the two drop-downs, and the sidebar. A data set
  is the list of its elements in the order they were added; the sidebar is represented by
  the course it was last filled with and by its visibility.
\<close>

record viewState =
  allNodesDataSet :: "node list"
  allEdgesDataSet :: "edge list"
  selectedForHighlighting_NodeIds :: "string list"
  categoryFilterSelect_value :: string
  programSelect_value :: string
  sidebarContent :: "course option"
  sidebarVisible :: bool
  loadingIndicatorShown :: bool

definition showLoadingIndicator :: "viewState \<Rightarrow> viewState" where
  "showLoadingIndicator st = st\<lparr>loadingIndicatorShown := True\<rparr>"

definition hideLoadingIndicator :: "viewState \<Rightarrow> viewState" where
  "hideLoadingIndicator st = st\<lparr>loadingIndicatorShown := False\<rparr>"

definition updateSidebar :: "course \<Rightarrow> viewState \<Rightarrow> viewState" where
  "updateSidebar course st = st\<lparr>sidebarContent := Some course, sidebarVisible := True\<rparr>"

definition hideSidebar :: "viewState \<Rightarrow> viewState" where
  "hideSidebar st = st\<lparr>sidebarVisible := False\<rparr>"

text \<open>
  \<^verbatim>\<open>displayGraphForCourses\<close> is declared twice in the script; the later declaration is
  the one in effect. It empties both data sets, returns at once for an empty list, and
  otherwise passes the nodes through a \<^verbatim>\<open>Map\<close> keyed by identifier that keeps the first
  node stored under each key, and adds the edges as they are.
\<close>

definition uniqueNodesById :: "node list \<Rightarrow> node list" where
  "uniqueNodesById nodes = fold pushNodeIfAbsent nodes []"

definition displayGraphForCourses :: "course list \<Rightarrow> string list \<Rightarrow> viewState \<Rightarrow> viewState" where
  "displayGraphForCourses coursesData courseCodesToDisplay st =
     (if courseCodesToDisplay = [] then st\<lparr>allNodesDataSet := [], allEdgesDataSet := []\<rparr>
      else
        (let (nodes, edges) = generateGraphElements coursesData courseCodesToDisplay
         in st\<lparr>allNodesDataSet := uniqueNodesById nodes, allEdgesDataSet := edges\<rparr>))"

text \<open>
  \<^verbatim>\<open>handleProgramChange\<close> reads the program drop-down. The option with the empty value
  clears the graph, \<^verbatim>\<open>"all"\<close> shows every course of the catalogue, and any other value
  is looked up among the programs.
\<close>

definition handleProgramChange ::
  "course list \<Rightarrow> programRecord list \<Rightarrow> viewState \<Rightarrow> viewState"
where
  "handleProgramChange coursesData programsData st =
     (let selectedProgramName = programSelect_value st;
          st1 = hideSidebar (showLoadingIndicator st)
      in if selectedProgramName = [] then
           hideLoadingIndicator (displayGraphForCourses coursesData [] st1)
         else if selectedProgramName = ''all'' then
           hideLoadingIndicator (displayGraphForCourses coursesData (map code coursesData) st1)
         else
           (case find (\<lambda>p. program p = selectedProgramName) programsData of
              Some p \<Rightarrow> hideLoadingIndicator (displayGraphForCourses coursesData (courses p) st1)
            | None \<Rightarrow> hideLoadingIndicator (displayGraphForCourses coursesData [] st1)))"

subsection \<open>The rendering library's network\<close>

text \<open>
  The handlers read the node options, the edge options and the group table of the network
  object and ask it for the neighbours of a node. The options are a parameter of the model.
  \<^verbatim>\<open>options_edges\<close> is \<open>None\<close> when \<^verbatim>\<open>network.options.edges\<close> is undefined, and
  \<^verbatim>\<open>eo_color\<close> holds its \<^verbatim>\<open>color\<close> when that is a non-empty string.
\<close>

record groupFont =
  gf_size :: "nat option"
  gf_face :: "string option"
  gf_bold :: "bool option"
  gf_strokeWidth :: "nat option"
  gf_strokeColor :: "string option"
  gf_color :: "string option"
  gf_multi :: "bool option"
  gf_align :: "string option"

record groupConfig =
  gc_font :: "groupFont option"
  gc_borderWidth :: "nat option"

record edgesOptions =
  eo_color :: "string option"

record network =
  options_nodes_font :: "groupFont option"
  options_nodes_borderWidth :: "nat option"
  options_edges :: "edgesOptions option"
  groups :: "string \<Rightarrow> groupConfig option"

text \<open>
  Modelled from the spec: \<^verbatim>\<open>getConnectedNodes\<close> and \<^verbatim>\<open>getConnectedEdges\<close> belong to
  the rendering library. The neighbours of a node are the nodes directly adjacent to it by
  an incoming or an outgoing edge; its connected edges are the edges incident to it.
\<close>

definition getConnectedNodes :: "edge list \<Rightarrow> string \<Rightarrow> string list" where
  "getConnectedNodes edges nodeId =
     concat (map (\<lambda>e. if edge_to e = nodeId then [edge_from e]
                       else if edge_from e = nodeId then [edge_to e] else []) edges)"

definition getConnectedEdges :: "edge list \<Rightarrow> string \<Rightarrow> string list" where
  "getConnectedEdges edges nodeId =
     map edge_id (filter (\<lambda>e. edge_from e = nodeId \<or> edge_to e = nodeId) edges)"

subsection \<open>Render derivation\<close>

definition VERY_DIMMED_OPACITY :: rat where "VERY_DIMMED_OPACITY = 5 / 100"
definition VERY_DIMMED_TEXT_COLOR :: string where "VERY_DIMMED_TEXT_COLOR = ''#d9d9d9''"
definition VERY_DIMMED_EDGE_OPACITY :: rat where "VERY_DIMMED_EDGE_OPACITY = 5 / 100"
definition DEFAULT_NODE_TEXT_COLOR :: string where "DEFAULT_NODE_TEXT_COLOR = ''#333333''"

text \<open>
  The block both handlers open with: the font and border width a node has when it is not
  dimmed, from the defaults of the network and the configuration of the node's group.
\<close>

definition truthyNat :: "nat option \<Rightarrow> bool" where
  "truthyNat v = (case v of Some n \<Rightarrow> n \<noteq> 0 | None \<Rightarrow> False)"

definition truthyString :: "string option \<Rightarrow> bool" where
  "truthyString v = (case v of Some s \<Rightarrow> s \<noteq> [] | None \<Rightarrow> False)"

definition emptyGroupFont :: groupFont where
  "emptyGroupFont = \<lparr>gf_size = None, gf_face = None, gf_bold = None, gf_strokeWidth = None,
     gf_strokeColor = None, gf_color = None, gf_multi = None, gf_align = None\<rparr>"

definition defaultFontProperties :: "network \<Rightarrow> fontProperties" where
  "defaultFontProperties net =
     (let defaultFontOptions =
            (case options_nodes_font net of Some f \<Rightarrow> f | None \<Rightarrow> emptyGroupFont)
      in \<lparr>font_size = (if truthyNat (gf_size defaultFontOptions)
                        then the (gf_size defaultFontOptions) else 12),
          font_face = (if truthyString (gf_face defaultFontOptions)
                        then the (gf_face defaultFontOptions) else ''Arial''),
          font_bold = (case gf_bold defaultFontOptions of Some b \<Rightarrow> b | None \<Rightarrow> True),
          font_strokeWidth =
            (case gf_strokeWidth defaultFontOptions of Some w \<Rightarrow> w | None \<Rightarrow> 1),
          font_strokeColor = (if truthyString (gf_strokeColor defaultFontOptions)
                               then the (gf_strokeColor defaultFontOptions)
                               else DEFAULT_NODE_TEXT_COLOR),
          font_color = DEFAULT_NODE_TEXT_COLOR,
          font_multi = None, font_align = None\<rparr>)"

definition applyGroupFont :: "groupFont \<Rightarrow> fontProperties \<Rightarrow> fontProperties" where
  "applyGroupFont gf fp =
     fp\<lparr>font_size := (if truthyNat (gf_size gf) then the (gf_size gf) else font_size fp),
        font_face := (if truthyString (gf_face gf) then the (gf_face gf) else font_face fp),
        font_bold := (case gf_bold gf of Some b \<Rightarrow> b | None \<Rightarrow> font_bold fp),
        font_strokeWidth :=
          (case gf_strokeWidth gf of Some w \<Rightarrow> w | None \<Rightarrow> font_strokeWidth fp),
        font_strokeColor := (if truthyString (gf_strokeColor gf) then the (gf_strokeColor gf)
                             else font_strokeColor fp),
        font_color := (if truthyString (gf_color gf) then the (gf_color gf) else font_color fp),
        font_multi := (case gf_multi gf of Some b \<Rightarrow> Some b | None \<Rightarrow> font_multi fp),
        font_align := (case gf_align gf of Some a \<Rightarrow> Some a | None \<Rightarrow> font_align fp)\<rparr>"

definition nodeGroupConfig :: "network \<Rightarrow> node \<Rightarrow> groupConfig option" where
  "nodeGroupConfig net n = (if node_group n \<noteq> [] then groups net (node_group n) else None)"

definition normalFont :: "network \<Rightarrow> node \<Rightarrow> fontProperties" where
  "normalFont net n =
     (case nodeGroupConfig net n of
        Some cfg \<Rightarrow>
          (case gc_font cfg of
             Some gf \<Rightarrow> applyGroupFont gf (defaultFontProperties net)
           | None \<Rightarrow> defaultFontProperties net)
      | None \<Rightarrow> defaultFontProperties net)"

definition normalBorderWidth :: "network \<Rightarrow> node \<Rightarrow> nat" where
  "normalBorderWidth net n =
     (let nodeBorderWidthProperty =
            (case options_nodes_borderWidth net of Some w \<Rightarrow> w | None \<Rightarrow> 1)
      in case nodeGroupConfig net n of
           Some cfg \<Rightarrow>
             (case gc_borderWidth cfg of Some w \<Rightarrow> w | None \<Rightarrow> nodeBorderWidthProperty)
         | None \<Rightarrow> nodeBorderWidthProperty)"

text \<open>The two appearances a node is given, written back to the node by \<^verbatim>\<open>update\<close>.\<close>

definition renderNormal :: "network \<Rightarrow> node \<Rightarrow> node" where
  "renderNormal net n =
     n\<lparr>node_opacity := Some 1, node_font := Some (normalFont net n),
       node_borderWidth := Some (normalBorderWidth net n)\<rparr>"

definition renderDimmed :: "network \<Rightarrow> node \<Rightarrow> node" where
  "renderDimmed net n =
     n\<lparr>node_opacity := Some VERY_DIMMED_OPACITY,
       node_font := Some ((normalFont net n)\<lparr>font_color := VERY_DIMMED_TEXT_COLOR,
                                              font_strokeWidth := 0\<rparr>),
       node_borderWidth := Some 0\<rparr>"

text \<open>
  Step 2 of \<^verbatim>\<open>handleNetworkClick\<close>: every selected identifier, its neighbours and its
  connected edges.
\<close>

definition nodesToFullyHighlight :: "edge list \<Rightarrow> string list \<Rightarrow> string list" where
  "nodesToFullyHighlight edges selected =
     fold (\<lambda>selectedNodeId acc.
             fold setAdd (getConnectedNodes edges selectedNodeId) (setAdd selectedNodeId acc))
       selected []"

definition edgesToFullyHighlight_Ids :: "edge list \<Rightarrow> string list \<Rightarrow> string list" where
  "edgesToFullyHighlight_Ids edges selected =
     fold (\<lambda>selectedNodeId acc. fold setAdd (getConnectedEdges edges selectedNodeId) acc)
       selected []"

text \<open>Step 3, the callback of \<^verbatim>\<open>allNodes.map\<close>, and step 4, that of the edges.\<close>

definition clickRenderNode :: "network \<Rightarrow> string \<Rightarrow> string list \<Rightarrow> string list \<Rightarrow> node \<Rightarrow> node"
where
  "clickRenderNode net selectedCategory selected highlight n =
     (let isNodeInSelectedCategory =
            (selectedCategory = ''all'' \<or> node_group n = selectedCategory);
          isAnyNodeClickSelected = (selected \<noteq> []);
          isNodePartOfClickHighlight = (isAnyNodeClickSelected \<and> node_id n \<in> set highlight)
      in if \<not> isNodeInSelectedCategory then renderDimmed net n
         else if isAnyNodeClickSelected then
           (if isNodePartOfClickHighlight then renderNormal net n else renderDimmed net n)
         else renderNormal net n)"

definition baseType :: "edge \<Rightarrow> string" where
  "baseType e =
     (if edge_baseColorType e \<noteq> [] then edge_baseColorType e
      else if edge_dashes e then ''coreq'' else ''prereq'')"

definition clickRenderEdge :: "string list \<Rightarrow> string list \<Rightarrow> edge \<Rightarrow> edge" where
  "clickRenderEdge selected highlightedEdges e =
     e\<lparr>edge_color :=
         Some (if selected \<noteq> [] \<and> edge_id e \<in> set highlightedEdges
               then (if baseType e = ''prereq'' then HIGHLIGHT_PREREQ_COLOR
                     else HIGHLIGHT_COREQ_COLOR)
               else (if baseType e = ''prereq'' then DIM_PREREQ_COLOR
                     else DIM_COREQ_COLOR))\<rparr>"

text \<open>
  \<^verbatim>\<open>handleNetworkClick(params)\<close>, given \<^verbatim>\<open>params.nodes\<close>. A clicked identifier counts
  only if it is truthy, that is, a non-empty string. Every element of a data set is
  \<^verbatim>\<open>update\<close>d with the object computed from it, which carries its own identifier.
\<close>

definition handleNetworkClick ::
  "course list \<Rightarrow> network \<Rightarrow> string list \<Rightarrow> viewState \<Rightarrow> viewState"
where
  "handleNetworkClick coursesData net params_nodes st =
     (let clickedNodeId = (case params_nodes of [] \<Rightarrow> None | n # _ \<Rightarrow> Some n);
          st1 = (if truthyString clickedNodeId then
                   (let st' = (case findCourse coursesData (the clickedNodeId) of
                                 Some course \<Rightarrow> updateSidebar course st
                               | None \<Rightarrow> st)
                    in st'\<lparr>selectedForHighlighting_NodeIds :=
                             setAdd (the clickedNodeId) (selectedForHighlighting_NodeIds st')\<rparr>)
                 else st\<lparr>selectedForHighlighting_NodeIds := []\<rparr>);
          selected = selectedForHighlighting_NodeIds st1;
          highlight = nodesToFullyHighlight (allEdgesDataSet st1) selected;
          highlightedEdges = edgesToFullyHighlight_Ids (allEdgesDataSet st1) selected;
          selectedCategory = categoryFilterSelect_value st1
      in st1\<lparr>allNodesDataSet :=
               map (clickRenderNode net selectedCategory selected highlight)
                 (allNodesDataSet st1),
             allEdgesDataSet :=
               map (clickRenderEdge selected highlightedEdges) (allEdgesDataSet st1)\<rparr>)"

text \<open>
  \<^verbatim>\<open>handleCategoryFilterChange\<close> clears the selection and renders by category alone.
  The nodes are updated first. An edge is dimmed when one of its end nodes is; for such an
  edge the callback reads \<^verbatim>\<open>network.options.edges.color\<close>, which raises a
  \<^verbatim>\<open>TypeError\<close> when \<^verbatim>\<open>network.options.edges\<close> is undefined: the handler then
  ends before any edge is updated. Otherwise the edges are updated and the last statement
  calls \<^verbatim>\<open>clearSidebar\<close>, which the script does not define: the handler ends with a
  \<^verbatim>\<open>ReferenceError\<close>, after the state has been updated.
\<close>

datatype jsError = ReferenceError string | TypeError string

definition categoryRenderNode :: "network \<Rightarrow> string \<Rightarrow> node \<Rightarrow> node" where
  "categoryRenderNode net selectedCategory n =
     (if selectedCategory = ''all'' \<or> node_group n = selectedCategory
      then renderNormal net n else renderDimmed net n)"

definition categoryRenderEdge :: "network \<Rightarrow> string list \<Rightarrow> edge \<Rightarrow> jsError + edge" where
  "categoryRenderEdge net visibleNodeIds e =
     (if edge_from e \<in> set visibleNodeIds \<and> edge_to e \<in> set visibleNodeIds
      then Inr (e\<lparr>edge_color := None, edge_width := None\<rparr>)
      else
        (case options_edges net of
           None \<Rightarrow> Inl (TypeError ''network.options.edges'')
         | Some edgesOptions \<Rightarrow>
             Inr (e\<lparr>edge_color :=
                      Some \<lparr>ec_color = (case eo_color edgesOptions of Some c \<Rightarrow> c
                                         | None \<Rightarrow> ''#848484''),
                            ec_highlight = None, ec_opacity = Some VERY_DIMMED_EDGE_OPACITY\<rparr>,
                    edge_width := None\<rparr>)))"

text \<open>\<^verbatim>\<open>Array.map\<close> with a callback that may throw: the first error ends the traversal.\<close>

fun mapResult :: "('a \<Rightarrow> 'e + 'b) \<Rightarrow> 'a list \<Rightarrow> 'e + 'b list" where
  "mapResult f [] = Inr []"
| "mapResult f (x # xs) =
     (case f x of
        Inl err \<Rightarrow> Inl err
      | Inr y \<Rightarrow> (case mapResult f xs of Inl err \<Rightarrow> Inl err | Inr ys \<Rightarrow> Inr (y # ys)))"

definition handleCategoryFilterChange :: "network \<Rightarrow> viewState \<Rightarrow> viewState \<times> jsError option"
where
  "handleCategoryFilterChange net st =
     (let selectedCategory = categoryFilterSelect_value st;
          nodes = map (categoryRenderNode net selectedCategory) (allNodesDataSet st);
          visibleNodeIds =
            newSet (map node_id
              (filter (\<lambda>n. node_opacity n \<noteq> Some VERY_DIMMED_OPACITY) nodes));
          st1 = st\<lparr>selectedForHighlighting_NodeIds := [], allNodesDataSet := nodes\<rparr>
      in case mapResult (categoryRenderEdge net visibleNodeIds) (allEdgesDataSet st) of
           Inl err \<Rightarrow> (st1, Some err)
         | Inr edges \<Rightarrow>
             (st1\<lparr>allEdgesDataSet := edges\<rparr>, Some (ReferenceError ''clearSidebar'')))"

section \<open>Example catalogues\<close>

text \<open>Small catalogues on which the theorems below are instantiated.\<close>

definition exampleCourse :: "string \<Rightarrow> requirement list \<Rightarrow> course" where
  "exampleCourse c prereqs =
     \<lparr>code = c, title = c, description = [], credits = ''3'', prerequisites_raw = [],
      corequisites_raw = [], prerequisites_parsed = prereqs, corequisites_parsed = []\<rparr>"

text \<open>\<open>A\<close> requires \<open>B\<close> and \<open>C\<close>.\<close>

definition andCatalog :: "course list" where
  "andCatalog =
     [exampleCourse ''A'' [LOGICAL_OPERATOR ''AND'' [COURSE ''B'', COURSE ''C'']],
      exampleCourse ''B'' [], exampleCourse ''C'' []]"

text \<open>\<open>X\<close> requires one of \<open>Y\<close>, \<open>Z\<close>, and \<open>W\<close> requires two of them.\<close>

definition listCatalog :: "course list" where
  "listCatalog =
     [exampleCourse ''X'' [N_OF_LIST 1 [COURSE ''Y'', COURSE ''Z'']],
      exampleCourse ''W'' [N_OF_LIST 2 [COURSE ''Y'', COURSE ''Z'']],
      exampleCourse ''Y'' [], exampleCourse ''Z'' []]"

text \<open>\<open>A\<close> requires \<open>B\<close>, which requires \<open>C\<close>; \<open>D\<close> stands alone.\<close>

definition chainCatalog :: "course list" where
  "chainCatalog =
     [exampleCourse ''A'' [COURSE ''B''], exampleCourse ''B'' [COURSE ''C''],
      exampleCourse ''C'' [], exampleCourse ''D'' []]"

definition chainPrograms :: "programRecord list" where
  "chainPrograms =
     [\<lparr>program = ''P1'', courses = [''A'']\<rparr>,
      \<lparr>program = ''P2'', courses = [''A'', ''D'']\<rparr>]"

text \<open>Two courses with a free-text requirement each.\<close>

definition textCatalog :: "course list" where
  "textCatalog =
     [exampleCourse ''P'' [TEXTUAL ''Permission of instructor''],
      exampleCourse ''Q'' [TEXTUAL ''U1 standing'']]"

text \<open>
  \<open>Y_Z\<close> requires \<open>X\<close> and \<open>Z\<close> requires \<open>X_Y\<close>: the two edges are built with the one
  identifier \<open>X_Y_Z_prereq\<close>.
\<close>

definition clashCatalog :: "course list" where
  "clashCatalog =
     [exampleCourse ''Y_Z'' [COURSE ''X''], exampleCourse ''Z'' [COURSE ''X_Y''],
      exampleCourse ''X'' [], exampleCourse ''X_Y'' []]"

text \<open>\<open>A\<close> requires \<open>B\<close> and has a free-text requirement; \<open>B\<close> has a free-text requirement.\<close>

definition mixedCatalog :: "course list" where
  "mixedCatalog =
     [exampleCourse ''A'' [COURSE ''B'', TEXTUAL ''Permission of instructor''],
      exampleCourse ''B'' [TEXTUAL ''U1 standing'']]"

text \<open>
  The node options, the edge options (which set no colour) and the groups with a font of
  their own that \<^verbatim>\<open>initializeNetworkShell\<close> configures.
\<close>

definition shellNetwork :: network where
  "shellNetwork =
     \<lparr>options_nodes_font =
        Some \<lparr>gf_size = Some 12, gf_face = Some ''Arial'', gf_bold = Some True,
              gf_strokeWidth = Some 1, gf_strokeColor = Some ''#333'', gf_color = Some ''#333'',
              gf_multi = None, gf_align = None\<rparr>,
      options_nodes_borderWidth = Some 1,
      options_edges = Some \<lparr>eo_color = None\<rparr>,
      groups = (\<lambda>g.
        if g \<in> {''AndNode'', ''OrNode'', ''NOfListNode''} then
          Some \<lparr>gc_font = Some (emptyGroupFont\<lparr>gf_size := Some 10, gf_color := Some ''#34495e''\<rparr>),
                gc_borderWidth = None\<rparr>
        else if g = ''TextualNode'' then
          Some \<lparr>gc_font = Some (emptyGroupFont\<lparr>gf_multi := Some True, gf_size := Some 10,
                                 gf_color := Some ''#555555'', gf_align := Some ''left''\<rparr>),
                gc_borderWidth = None\<rparr>
        else if g \<in> {''CogSci Program: Required'', ''CogSci Program: Core Logic'',
                       ''CogSci Program: Core Statistics'', ''CogSci Program: Core CompSci'',
                       ''CogSci Program: Core Linguistics'', ''CogSci Program: Core Philosophy'',
                       ''CogSci Program: Core Neuroscience'', ''CogSci Program: Core Psychology'',
                       ''CogSci Program: Comp CompSci'', ''CogSci Program: Comp Linguistics'',
                       ''CogSci Program: Comp Neuroscience'', ''CogSci Program: Comp Philosophy'',
                       ''CogSci Program: Comp Psychology'', ''CogSci Program: Research Course''}
        then
          Some \<lparr>gc_font = Some (emptyGroupFont\<lparr>gf_size := Some 12, gf_face := Some ''Arial'',
                                 gf_bold := Some True\<rparr>),
                gc_borderWidth = None\<rparr>
        else if g \<in> {''Engineering'', ''Science'', ''Arts'', ''Management'', ''Medicine'',
                       ''Neuroscience''} then
          Some \<lparr>gc_font = None, gc_borderWidth = None\<rparr>
        else None)\<rparr>"

definition emptyView :: viewState where
  "emptyView =
     \<lparr>allNodesDataSet = [], allEdgesDataSet = [], selectedForHighlighting_NodeIds = [],
      categoryFilterSelect_value = ''all'', programSelect_value = [], sidebarContent = None,
      sidebarVisible = False, loadingIndicatorShown = False\<rparr>"

section \<open>Auxiliary notions\<close>

text \<open>
  One build state extends another when both arrays have only been appended to and the
  edge identifiers have stayed pairwise different.
\<close>

definition extends :: "buildState \<Rightarrow> buildState \<Rightarrow> bool" where
  "extends s s' =
     ((\<exists>ns. nodesArray s' = nodesArray s @ ns) \<and> (\<exists>es. edgesArray s' = edgesArray s @ es)
      \<and> (distinct (map edge_id (edgesArray s)) \<longrightarrow> distinct (map edge_id (edgesArray s'))))"

text \<open>The first element stored under an identifier.\<close>

definition nodeById :: "string \<Rightarrow> node list \<Rightarrow> node option" where
  "nodeById i ns = find (\<lambda>n. node_id n = i) ns"

definition edgeById :: "string \<Rightarrow> edge list \<Rightarrow> edge option" where
  "edgeById i es = find (\<lambda>e. edge_id e = i) es"


text \<open>
  The references a course of the catalogue makes through course references and logical
  operators to courses of the catalogue all lie in a set \<open>R\<close>.
\<close>

definition depsIn :: "course list \<Rightarrow> string \<Rightarrow> string set \<Rightarrow> bool" where
  "depsIn cd k R =
     (\<forall>c. findCourse cd k = Some c \<longrightarrow>
        (\<Union>r \<in> set (prerequisites_parsed c) \<union> set (corequisites_parsed c). viaOperators r)
          \<inter> catalogCodes cd \<subseteq> R)"

text \<open>
  Every code a requirement refers to, whatever the node it stands under, and the shape of
  the identifiers the builder makes up for junctions and free-text nodes.
\<close>

fun allRefs :: "requirement \<Rightarrow> string set" where
  "allRefs (COURSE c) = {c}"
| "allRefs (LOGICAL_OPERATOR opr conditions) = (\<Union>r \<in> set conditions. allRefs r)"
| "allRefs (TEXTUAL t) = {}"
| "allRefs (N_OF_LIST n conditions) = (\<Union>r \<in> set conditions. allRefs r)"

definition synthetic :: "string \<Rightarrow> bool" where
  "synthetic i =
     (startsWith i ''logic_'' \<or> startsWith i ''textual_'' \<or> startsWith i ''n_of_list_'')"

definition courseNodeIds :: "course list \<Rightarrow> node list \<Rightarrow> string set" where
  "courseNodeIds cd nodes = set (map node_id nodes) \<inter> catalogCodes cd"

text \<open>The course nodes a code of the display list brings in: itself and what it refers to.\<close>

definition courseRefs :: "course list \<Rightarrow> string \<Rightarrow> string set" where
  "courseRefs cd k =
     (case findCourse cd k of
        None \<Rightarrow> {}
      | Some c \<Rightarrow>
          insert k ((\<Union>r \<in> set (prerequisites_parsed c) \<union> set (corequisites_parsed c). allRefs r)
                      \<inter> catalogCodes cd))"


text \<open>
  The elements the builder makes, in the order in which it makes them: the recursion of
  \<^verbatim>\<open>addRequirementGraphElements\<close> and the loop of \<^verbatim>\<open>generateGraphElements\<close> with
  every node and every edge appended where the builder would push it, whether or not its
  identifier is already present. The counters advance as in the builder.
\<close>

fun producedByRequirement ::
  "course list \<Rightarrow> requirement \<Rightarrow> string \<Rightarrow> string \<Rightarrow> string \<Rightarrow> buildState \<Rightarrow> buildState"
where
  "producedByRequirement coursesData (COURSE courseCode) targetNodeId rtype
       originalCourseCode s =
     (case findCourse coursesData courseCode of
        Some courseData \<Rightarrow>
          s\<lparr>nodesArray :=
              nodesArray s
                @ [newNode courseCode courseCode
                   (if title courseData \<noteq> [] then title courseData else courseCode)
                   (extractGroup courseCode) None (Some (CourseDetails courseData))],
            edgesArray :=
              edgesArray s
                @ [newEdge courseCode targetNodeId rtype (rtype = ''coreq'')
                   (courseCode @ '' ''
                    @ (if rtype = ''prereq'' then ''is a prerequisite for''
                       else ''is a corequisite with'')
                    @ '' ''
                    @ (if startsWith targetNodeId ''logic_'' then ''a condition group for''
                       else [])
                    @ '' '' @ originalCourseCode)]\<rparr>
      | None \<Rightarrow> s)"
| "producedByRequirement coursesData (LOGICAL_OPERATOR opr conditions) targetNodeId rtype
       originalCourseCode s =
     (let counter = (idCounter s)\<lparr>logic := logic (idCounter s) + 1\<rparr>;
          operator = toUpperCase opr;
          logicNodeGroup = (if operator = ''AND'' then ''AndNode'' else ''OrNode'');
          logicNodeId = ''logic_'' @ originalCourseCode @ ''_'' @ rtype @ ''_'' @ operator
                        @ ''_'' @ numberToString (logic counter)
      in fold (\<lambda>condition. producedByRequirement coursesData condition logicNodeId rtype
                  originalCourseCode)
           conditions
           (s\<lparr>nodesArray :=
                nodesArray s
                  @ [newNode logicNodeId operator
                     (operator @ '' condition for '' @ originalCourseCode)
                     logicNodeGroup (Some 12) None],
              edgesArray :=
                edgesArray s
                  @ [newEdge logicNodeId targetNodeId rtype False
                     (''This '' @ operator @ '' group is a '' @ rtype @ '' for ''
                      @ (if startsWith targetNodeId ''logic_''
                         then ''another condition group for'' else [])
                      @ '' '' @ originalCourseCode)],
              idCounter := counter\<rparr>))"
| "producedByRequirement coursesData (TEXTUAL text) targetNodeId rtype
       originalCourseCode s =
     (let counter = (idCounter s)\<lparr>textual := textual (idCounter s) + 1\<rparr>;
          textualNodeId = ''textual_'' @ originalCourseCode @ ''_'' @ rtype @ ''_''
                          @ numberToString (textual counter);
          nodeLabel = (if text \<noteq> [] then text else ''Textual requirement'')
      in s\<lparr>nodesArray :=
              nodesArray s
                @ [newNode textualNodeId nodeLabel
                   (''Textual: '' @ nodeLabel @ '' (for '' @ originalCourseCode @ '')'')
                   ''TextualNode'' None None],
            edgesArray :=
              edgesArray s
                @ [newEdge textualNodeId targetNodeId rtype False
                   (''This textual condition is a '' @ rtype @ '' for ''
                    @ (if startsWith targetNodeId ''logic_'' then ''a condition group for''
                       else [])
                    @ '' '' @ originalCourseCode)],
            idCounter := counter\<rparr>)"
| "producedByRequirement coursesData (N_OF_LIST count conditions) targetNodeId rtype
       originalCourseCode s =
     (if count = 1 then
        (let counter = (idCounter s)\<lparr>logic := logic (idCounter s) + 1\<rparr>;
             orNodeId = ''logic_'' @ originalCourseCode @ ''_'' @ rtype @ ''_OR_N_OF_1_''
                        @ numberToString (logic counter)
         in fold (\<lambda>itemInList. producedByRequirement coursesData itemInList orNodeId rtype
                     originalCourseCode)
              conditions
              (s\<lparr>nodesArray :=
                   nodesArray s
                     @ [newNode orNodeId ''OR''
                        (''OR condition (1 of list) for '' @ originalCourseCode)
                        ''OrNode'' (Some 12)
                        (Some (RequirementDetails (N_OF_LIST count conditions)))],
                 edgesArray :=
                   edgesArray s
                     @ [newEdge orNodeId targetNodeId rtype False
                        (''This OR group (1 of list) is a '' @ rtype @ '' for ''
                         @ (if startsWith targetNodeId ''logic_''
                            then ''another condition for'' else [])
                         @ '' '' @ originalCourseCode)],
                 idCounter := counter\<rparr>))
      else
        (let counter = (idCounter s)\<lparr>nOfList := nOfList (idCounter s) + 1\<rparr>;
             nOfListNodeId = ''n_of_list_'' @ originalCourseCode @ ''_'' @ rtype @ ''_''
                             @ intToString count @ ''_'' @ numberToString (nOfList counter);
             nodeLabel = intToString count @ '' of:''
         in fold (\<lambda>itemInList. producedByRequirement coursesData itemInList nOfListNodeId
                     rtype originalCourseCode)
              conditions
              (s\<lparr>nodesArray :=
                   nodesArray s
                     @ [newNode nOfListNodeId nodeLabel
                        (nodeLabel @ '' (for '' @ originalCourseCode @ '')'')
                        ''NOfListNode'' None
                        (Some (RequirementDetails (N_OF_LIST count conditions)))],
                 edgesArray :=
                   edgesArray s
                     @ [newEdge nOfListNodeId targetNodeId rtype False
                        (''This '' @ [CHR 0x27] @ nodeLabel @ [CHR 0x27] @ '' group is a ''
                         @ rtype @ '' for ''
                         @ (if startsWith targetNodeId ''logic_''
                            then ''another condition group for'' else [])
                         @ '' '' @ originalCourseCode)],
                 idCounter := counter\<rparr>)))"

definition producedByCourse :: "course list \<Rightarrow> string \<Rightarrow> buildState \<Rightarrow> buildState" where
  "producedByCourse coursesData courseCode s =
     (case findCourse coursesData courseCode of
        None \<Rightarrow> s
      | Some course \<Rightarrow>
          fold (\<lambda>reqDetail. producedByRequirement coursesData reqDetail (code course)
                  ''coreq'' (code course))
            (corequisites_parsed course)
            (fold (\<lambda>reqDetail. producedByRequirement coursesData reqDetail (code course)
                     ''prereq'' (code course))
               (prerequisites_parsed course)
               (s\<lparr>nodesArray := nodesArray s
                    @ [newNode (code course) (code course)
                         (code course @ '': '' @ title course)
                         (extractGroup (code course)) None None]\<rparr>)))"

definition producedElements :: "course list \<Rightarrow> string list \<Rightarrow> node list \<times> edge list" where
  "producedElements coursesData courseCodesToDisplay =
     (let displaySet = newSet courseCodesToDisplay;
          s = fold (producedByCourse coursesData) displaySet initialBuildState
      in (nodesArray s, edgesArray s))"

text \<open>The first edge under each identifier, as \<open>uniqueNodesById\<close> for nodes.\<close>

definition uniqueEdgesById :: "edge list \<Rightarrow> edge list" where
  "uniqueEdgesById edges = fold pushEdgeIfAbsent edges []"

text \<open>
  A state of the builder and a state of the recording above agree: the same counters, and
  the builder holds of the recorded elements the first under each identifier.
\<close>

definition sameElements :: "buildState \<Rightarrow> buildState \<Rightarrow> bool" where
  "sameElements s r =
     (idCounter s = idCounter r
      \<and> uniqueNodesById (nodesArray s) = uniqueNodesById (nodesArray r)
      \<and> edgesArray s = uniqueEdgesById (edgesArray r))"

text \<open>
  The identifiers of the edges that lead from a course of the catalogue straight to a
  course of the display list: one for every course reference at the top of its
  prerequisite and corequisite lists.
\<close>

fun directEdgeIds :: "course list \<Rightarrow> requirement \<Rightarrow> string \<Rightarrow> string \<Rightarrow> string set" where
  "directEdgeIds cd (COURSE c) t ty =
     (if c \<in> catalogCodes cd then {c @ ''_'' @ t @ ''_'' @ ty} else {})"
| "directEdgeIds cd (LOGICAL_OPERATOR opr conditions) t ty = {}"
| "directEdgeIds cd (TEXTUAL x) t ty = {}"
| "directEdgeIds cd (N_OF_LIST n conditions) t ty = {}"

definition courseEdgeIds :: "course list \<Rightarrow> string \<Rightarrow> string set" where
  "courseEdgeIds cd k =
     (case findCourse cd k of
        None \<Rightarrow> {}
      | Some c \<Rightarrow>
          (\<Union>r \<in> set (prerequisites_parsed c). directEdgeIds cd r k ''prereq'')
          \<union> (\<Union>r \<in> set (corequisites_parsed c). directEdgeIds cd r k ''coreq''))"

text \<open>An edge with a junction or a free-text node at one of its ends.\<close>

definition atSynthetic :: "edge \<Rightarrow> bool" where
  "atSynthetic e = (synthetic (edge_from e) \<or> synthetic (edge_to e))"

section \<open>Auxiliary lemmas\<close>

subsection \<open>Closure resolver\<close>

lemma set_fold_setAdd: "set (fold setAdd xs acc) = set xs \<union> set acc"
  by (induction xs arbitrary: acc) (auto simp: setAdd_def)

lemma distinct_fold_setAdd: "distinct acc \<Longrightarrow> distinct (fold setAdd xs acc)"
  by (induction xs arbitrary: acc) (auto simp: setAdd_def)

lemma set_newSet: "set (newSet xs) = set xs"
  by (simp add: newSet_def set_fold_setAdd)

lemma relevantLoop_grows: "grows (catalogCodes cd) s (relevantLoop cd h s)"
proof (induction cd h s rule: relevantLoop.induct)
  case (1 cd head rel q)
  show ?case
  proof (cases "head < length q")
    case False
    then show ?thesis by (simp add: relevantLoop.simps grows_refl)
  next
    case True
    show ?thesis
    proof (cases "findCourse cd (q ! head)")
      case None
      with True "1.IH"(1) show ?thesis by (simp add: relevantLoop.simps[of cd head])
    next
      case (Some c)
      let ?s = "addDependencies cd (corequisites_parsed c)
                  (addDependencies cd (prerequisites_parsed c) (rel, q))"
      have a: "grows (catalogCodes cd) (rel, q) ?s"
        by (rule grows_mono[OF course_step_grows]) simp
      have b: "grows (catalogCodes cd) ?s (relevantLoop cd (Suc head) ?s)"
        using "1.IH"(2)[OF True Some] .
      have "grows (catalogCodes cd \<union> catalogCodes cd) (rel, q) (relevantLoop cd (Suc head) ?s)"
        using a b by (rule grows_trans)
      with True Some show ?thesis by (simp add: relevantLoop.simps[of cd head])
    qed
  qed
qed

lemma relevantLoop_closure:
  "set rel \<subseteq> closure cd seeds \<Longrightarrow> set q \<subseteq> closure cd seeds \<Longrightarrow>
   set (fst (relevantLoop cd h (rel, q))) \<subseteq> closure cd seeds"
proof (induction cd h "(rel, q)" arbitrary: rel q rule: relevantLoop.induct)
  case (1 cd head rel q)
  show ?case
  proof (cases "head < length q")
    case False
    then show ?thesis using "1.prems" by (simp add: relevantLoop.simps)
  next
    case True
    show ?thesis
    proof (cases "findCourse cd (q ! head)")
      case None
      with True "1.hyps"(1) "1.prems" show ?thesis by (simp add: relevantLoop.simps[of cd head])
    next
      case (Some c)
      let ?A = "(\<Union>r \<in> set (prerequisites_parsed c) \<union> set (corequisites_parsed c). viaOperators r)
                  \<inter> catalogCodes cd"
      let ?s = "addDependencies cd (corequisites_parsed c)
                  (addDependencies cd (prerequisites_parsed c) (rel, q))"
      have "grows ?A (rel, q) ?s" by (rule course_step_grows)
      then obtain new where new: "?s = (rel @ new, q @ new)" "set new \<subseteq> ?A"
        by (auto simp: grows_def)
      have cur: "q ! head \<in> closure cd seeds" using True "1.prems"(2) by auto
      have "set new \<subseteq> closure cd seeds"
      proof
        fix d assume "d \<in> set new"
        with new(2) obtain r where r: "r \<in> set (prerequisites_parsed c) \<union> set (corequisites_parsed c)"
          "d \<in> viaOperators r" "d \<in> catalogCodes cd" by auto
        from r(3) have "findCourse cd d \<noteq> None" by (simp add: findCourse_None)
        with cur Some r(1,2) show "d \<in> closure cd seeds" by (rule closure.dep)
      qed
      then have "set (fst (relevantLoop cd (Suc head) (rel @ new, q @ new))) \<subseteq> closure cd seeds"
        using "1.hyps"(2)[OF True Some new(1)] "1.prems" by simp
      with True Some new(1) show ?thesis by (simp add: relevantLoop.simps[of cd head])
    qed
  qed
qed

lemma relevantTraversal_grows:
  "grows (catalogCodes cd)
     (newSet (filter (\<lambda>k. findCourse cd k \<noteq> None) seeds), filter (\<lambda>k. findCourse cd k \<noteq> None) seeds)
     (relevantTraversal cd seeds)"
  unfolding relevantTraversal_def Let_def newSet_def by (rule relevantLoop_grows)

lemma relevant_within_closure:
  "set (getRelevantCoursesForProgram cd seeds) \<subseteq> closure cd seeds"
  unfolding getRelevantCoursesForProgram_def relevantTraversal_def Let_def
  by (rule relevantLoop_closure) (auto simp: set_fold_setAdd intro: closure.seed)

lemma grows_fst_mono: "grows A s s' \<Longrightarrow> set (fst s) \<subseteq> set (fst s')"
  by (auto simp: grows_def)

lemma fold_covers:
  assumes "\<And>x s. x \<in> set xs \<Longrightarrow> F x \<subseteq> set (fst (f x s))"
    and "\<And>x s. set (fst s) \<subseteq> set (fst (f x s))"
  shows "(\<Union>x \<in> set xs. F x) \<subseteq> set (fst (fold f xs s))"
  using assms(1)
proof (induction xs arbitrary: s)
  case Nil
  then show ?case by simp
next
  case (Cons a xs)
  have mono: "set (fst t) \<subseteq> set (fst (fold f xs t))" for t
    by (induction xs arbitrary: t) (use assms(2) in fastforce)+
  have "F a \<subseteq> set (fst (f a s))" using Cons.prems by simp
  then have "F a \<subseteq> set (fst (fold f xs (f a s)))" using mono by blast
  moreover have "(\<Union>x \<in> set xs. F x) \<subseteq> set (fst (fold f xs (f a s)))"
    using Cons.IH Cons.prems by simp
  ultimately show ?case by simp
qed

lemma addDependency_mono: "set (fst s) \<subseteq> set (fst (addDependency cd r s))"
  using addDependency_grows by (rule grows_fst_mono)

lemma addDependency_covers:
  "viaOperators r \<inter> catalogCodes cd \<subseteq> set (fst (addDependency cd r s))"
proof (induction r arbitrary: s)
  case (COURSE c)
  obtain rel q where s: "s = (rel, q)" by (cases s)
  show ?case unfolding s by (auto simp: setAdd_def findCourse_None)
next
  case (LOGICAL_OPERATOR opr conds)
  have "(\<Union>x \<in> set conds. viaOperators x \<inter> catalogCodes cd)
          \<subseteq> set (fst (fold (addDependency cd) conds s))"
    by (rule fold_covers) (use LOGICAL_OPERATOR addDependency_mono in blast)+
  then show ?case by auto
qed simp_all

lemma addDependencies_covers:
  "(\<Union>r \<in> set rs. viaOperators r) \<inter> catalogCodes cd \<subseteq> set (fst (addDependencies cd rs s))"
proof -
  have "(\<Union>x \<in> set rs. viaOperators x \<inter> catalogCodes cd)
          \<subseteq> set (fst (fold (addDependency cd) rs s))"
    by (rule fold_covers) (use addDependency_covers addDependency_mono in blast)+
  then show ?thesis by (auto simp: addDependencies_def)
qed

lemma course_step_covers:
  "(\<Union>r \<in> set (prerequisites_parsed c) \<union> set (corequisites_parsed c). viaOperators r)
      \<inter> catalogCodes cd
   \<subseteq> set (fst (addDependencies cd (corequisites_parsed c)
                 (addDependencies cd (prerequisites_parsed c) s)))"
proof -
  let ?s1 = "addDependencies cd (prerequisites_parsed c) s"
  let ?s2 = "addDependencies cd (corequisites_parsed c) ?s1"
  have "set (fst ?s1) \<subseteq> set (fst ?s2)"
    using addDependencies_grows by (rule grows_fst_mono)
  moreover have "(\<Union>r \<in> set (prerequisites_parsed c). viaOperators r) \<inter> catalogCodes cd
                   \<subseteq> set (fst ?s1)"
    by (rule addDependencies_covers)
  moreover have "(\<Union>r \<in> set (corequisites_parsed c). viaOperators r) \<inter> catalogCodes cd
                   \<subseteq> set (fst ?s2)"
    by (rule addDependencies_covers)
  ultimately show ?thesis by blast
qed

lemma relevantLoop_closed:
  "set rel = set q \<Longrightarrow> \<forall>i < h. i < length q \<longrightarrow> depsIn cd (q ! i) (set rel) \<Longrightarrow>
   set (fst (relevantLoop cd h (rel, q))) = set (snd (relevantLoop cd h (rel, q)))
   \<and> (\<forall>k \<in> set (snd (relevantLoop cd h (rel, q))).
         depsIn cd k (set (fst (relevantLoop cd h (rel, q)))))"
proof (induction cd h "(rel, q)" arbitrary: rel q rule: relevantLoop.induct)
  case (1 cd head rel q)
  show ?case
  proof (cases "head < length q")
    case False
    have "depsIn cd k (set rel)" if "k \<in> set q" for k
    proof -
      from that obtain i where "i < length q" "q ! i = k" by (auto simp: in_set_conv_nth)
      with False "1.prems"(2) show ?thesis by auto
    qed
    with False "1.prems"(1) show ?thesis by (simp add: relevantLoop.simps)
  next
    case True
    show ?thesis
    proof (cases "findCourse cd (q ! head)")
      case None
      have "\<forall>i < Suc head. i < length q \<longrightarrow> depsIn cd (q ! i) (set rel)"
        using "1.prems"(2) None by (auto simp: less_Suc_eq depsIn_def)
      then have ih: "set (fst (relevantLoop cd (Suc head) (rel, q)))
                       = set (snd (relevantLoop cd (Suc head) (rel, q)))
         \<and> (\<forall>k \<in> set (snd (relevantLoop cd (Suc head) (rel, q))).
               depsIn cd k (set (fst (relevantLoop cd (Suc head) (rel, q)))))"
        using "1.hyps"(1)[OF True None "1.prems"(1)] by blast
      have eq: "relevantLoop cd head (rel, q) = relevantLoop cd (Suc head) (rel, q)"
        using True None by (simp add: relevantLoop.simps[of cd head])
      show ?thesis unfolding eq by (rule ih)
    next
      case (Some c)
      let ?A = "(\<Union>r \<in> set (prerequisites_parsed c) \<union> set (corequisites_parsed c). viaOperators r)
                  \<inter> catalogCodes cd"
      let ?s = "addDependencies cd (corequisites_parsed c)
                  (addDependencies cd (prerequisites_parsed c) (rel, q))"
      have "grows ?A (rel, q) ?s" by (rule course_step_grows)
      then obtain new where new: "?s = (rel @ new, q @ new)" by (auto simp: grows_def)
      have cov: "?A \<subseteq> set (rel @ new)"
        using course_step_covers[of c cd "(rel, q)"] new by simp
      have eq: "set (rel @ new) = set (q @ new)" using "1.prems"(1) by simp
      have inv: "\<forall>i < Suc head. i < length (q @ new) \<longrightarrow>
                   depsIn cd ((q @ new) ! i) (set (rel @ new))"
      proof (intro allI impI)
        fix i assume i: "i < Suc head" "i < length (q @ new)"
        show "depsIn cd ((q @ new) ! i) (set (rel @ new))"
        proof (cases "i = head")
          case True
          then have "(q @ new) ! i = q ! head" using \<open>head < length q\<close> by (simp add: nth_append)
          then show ?thesis using Some cov by (simp add: depsIn_def)
        next
          case False
          then have lt: "i < head" using i by simp
          then have "(q @ new) ! i = q ! i" using \<open>head < length q\<close> by (simp add: nth_append)
          moreover have "depsIn cd (q ! i) (set rel)"
            using "1.prems"(2) lt \<open>head < length q\<close> by simp
          ultimately show ?thesis by (auto simp: depsIn_def)
        qed
      qed
      have step: "relevantLoop cd head (rel, q) = relevantLoop cd (Suc head) (rel @ new, q @ new)"
        using True Some new by (simp add: relevantLoop.simps[of cd head])
      show ?thesis unfolding step by (rule "1.hyps"(2)[OF True Some new eq inv])
    qed
  qed
qed

lemma closure_within_relevant_set:
  "closure cd seeds \<subseteq> set (getRelevantCoursesForProgram cd seeds)"
proof -
  let ?q = "filter (\<lambda>k. findCourse cd k \<noteq> None) seeds"
  let ?r = "relevantLoop cd 0 (fold setAdd ?q [], ?q)"
  have inv: "set (fst ?r) = set (snd ?r) \<and> (\<forall>k \<in> set (snd ?r). depsIn cd k (set (fst ?r)))"
    by (rule relevantLoop_closed) (simp_all add: set_fold_setAdd)
  have seeds: "set ?q \<subseteq> set (fst ?r)"
    using grows_fst_mono[OF relevantLoop_grows[of cd "(fold setAdd ?q [], ?q)" 0]]
    by (simp add: set_fold_setAdd)
  have "k \<in> set (fst ?r)" if "k \<in> closure cd seeds" for k
    using that
  proof (induction rule: closure.induct)
    case (seed k)
    then show ?case using seeds by auto
  next
    case (dep k c r d)
    from dep.IH inv have "depsIn cd k (set (fst ?r))" by blast
    moreover have "d \<in> catalogCodes cd" using dep.hyps(5) by (simp add: findCourse_None)
    ultimately show ?case using dep.hyps(2,3,4) unfolding depsIn_def by blast
  qed
  then show ?thesis
    by (auto simp: getRelevantCoursesForProgram_def relevantTraversal_def Let_def)
qed

subsection \<open>Graph builder\<close>

lemma extends_refl: "extends s s"
  by (simp add: extends_def)

lemma extends_trans: "extends s s' \<Longrightarrow> extends s' s'' \<Longrightarrow> extends s s''"
  unfolding extends_def by (elim conjE exE) auto

lemma fold_extends:
  assumes "\<And>x s. x \<in> set xs \<Longrightarrow> extends s (f x s)"
  shows "extends s (fold f xs s)"
  using assms
proof (induction xs arbitrary: s)
  case Nil
  then show ?case by (simp add: extends_refl)
next
  case (Cons a xs)
  have "extends s (f a s)" using Cons.prems by simp
  moreover have "extends (f a s) (fold f xs (f a s))" using Cons.IH Cons.prems by simp
  ultimately show ?case using extends_trans by fastforce
qed

lemma some_node_id: "list_ex (\<lambda>m. node_id m = i) ns \<longleftrightarrow> i \<in> set (map node_id ns)"
  by (induction ns) auto

lemma some_edge_id: "list_ex (\<lambda>d. edge_id d = i) es \<longleftrightarrow> i \<in> set (map edge_id es)"
  by (induction es) auto

lemma pushNodeIfAbsent_eq:
  "pushNodeIfAbsent n nodes =
     (if node_id n \<in> set (map node_id nodes) then nodes else nodes @ [n])"
  by (simp only: pushNodeIfAbsent_def some_node_id)

lemma pushEdgeIfAbsent_eq:
  "pushEdgeIfAbsent e edges =
     (if edge_id e \<in> set (map edge_id edges) then edges else edges @ [e])"
  by (simp only: pushEdgeIfAbsent_def some_edge_id)

lemma pushNodeIfAbsent_append: "\<exists>ns. pushNodeIfAbsent n nodes = nodes @ ns"
  by (simp add: pushNodeIfAbsent_eq)

lemma pushEdgeIfAbsent_append: "\<exists>es. pushEdgeIfAbsent e edges = edges @ es"
  by (simp add: pushEdgeIfAbsent_eq)

lemma pushEdgeIfAbsent_distinct:
  "distinct (map edge_id edges) \<Longrightarrow> distinct (map edge_id (pushEdgeIfAbsent e edges))"
  by (auto simp: pushEdgeIfAbsent_eq)

lemma push_extends:
  "extends s (s\<lparr>nodesArray := pushNodeIfAbsent n (nodesArray s),
                edgesArray := pushEdgeIfAbsent e (edgesArray s)\<rparr>)"
  "extends s (s\<lparr>nodesArray := pushNodeIfAbsent n (nodesArray s),
                edgesArray := pushEdgeIfAbsent e (edgesArray s), idCounter := c\<rparr>)"
  using pushNodeIfAbsent_append[of n "nodesArray s"] pushEdgeIfAbsent_append[of e "edgesArray s"]
    pushEdgeIfAbsent_distinct[of "edgesArray s" e]
  by (auto simp: extends_def)

lemma addRequirementGraphElements_extends:
  "extends s (addRequirementGraphElements cd r t ty orig s)"
proof (induction r arbitrary: t s)
  case (COURSE c)
  show ?case
    by (cases "findCourse cd c") (simp_all add: extends_refl push_extends)
next
  case (LOGICAL_OPERATOR opr conds)
  show ?case
    unfolding addRequirementGraphElements.simps Let_def
    by (rule extends_trans[OF push_extends(2) fold_extends]) (rule LOGICAL_OPERATOR)
next
  case (TEXTUAL x)
  show ?case
    unfolding addRequirementGraphElements.simps Let_def by (rule push_extends(2))
next
  case (N_OF_LIST n conds)
  show ?case
  proof (cases "n = 1")
    case True
    show ?thesis
      unfolding addRequirementGraphElements.simps Let_def if_P[OF True]
      by (rule extends_trans[OF push_extends(2) fold_extends]) (rule N_OF_LIST)
  next
    case False
    show ?thesis
      unfolding addRequirementGraphElements.simps Let_def if_not_P[OF False]
      by (rule extends_trans[OF push_extends(2) fold_extends]) (rule N_OF_LIST)
  qed
qed

lemma addCourseElements_extends: "extends s (addCourseElements cd k s)"
proof (cases "findCourse cd k")
  case None
  then show ?thesis by (simp add: addCourseElements_def extends_refl)
next
  case (Some c)
  have a: "extends s (s\<lparr>nodesArray := nodesArray s @ [n]\<rparr>)" for n
    by (simp add: extends_def)
  show ?thesis
    unfolding addCourseElements_def Some option.case
    by (rule extends_trans[OF extends_trans[OF a fold_extends] fold_extends])
       (rule addRequirementGraphElements_extends)+
qed

lemma generateGraphElements_edges_distinct:
  "distinct (map edge_id (snd (generateGraphElements cd codes)))"
proof -
  have "extends initialBuildState (fold (addCourseElements cd) (newSet codes) initialBuildState)"
    by (rule fold_extends) (rule addCourseElements_extends)
  then show ?thesis
    by (simp add: generateGraphElements_def Let_def extends_def initialBuildState_def)
qed

lemma pushNodeIfAbsent_distinct:
  "distinct (map node_id acc) \<Longrightarrow> distinct (map node_id (pushNodeIfAbsent a acc))"
  by (auto simp: pushNodeIfAbsent_eq)

lemma pushNodeIfAbsent_ids:
  "set (map node_id (pushNodeIfAbsent a acc)) = insert (node_id a) (set (map node_id acc))"
  by (auto simp: pushNodeIfAbsent_eq)

lemma fold_pushNode_distinct:
  "distinct (map node_id acc) \<Longrightarrow> distinct (map node_id (fold pushNodeIfAbsent ns acc))"
  by (induction ns arbitrary: acc) (simp_all add: pushNodeIfAbsent_distinct)

lemma fold_pushNode_ids:
  "set (map node_id (fold pushNodeIfAbsent ns acc)) = set (map node_id ns) \<union> set (map node_id acc)"
proof (induction ns arbitrary: acc)
  case Nil
  then show ?case by simp
next
  case (Cons a ns)
  show ?case using Cons.IH[of "pushNodeIfAbsent a acc"] pushNodeIfAbsent_ids[of a acc]
    by auto
qed

lemma nodeById_Nil: "nodeById i [] = None"
  by (simp add: nodeById_def)

lemma nodeById_append:
  "nodeById i (xs @ ys) = (case nodeById i xs of Some n \<Rightarrow> Some n | None \<Rightarrow> nodeById i ys)"
  by (induction xs) (auto simp: nodeById_def)

lemma nodeById_None: "nodeById i ns = None \<longleftrightarrow> i \<notin> set (map node_id ns)"
  by (induction ns) (auto simp: nodeById_def)

lemma nodeById_Cons:
  "nodeById i (a # ns) = (if node_id a = i then Some a else nodeById i ns)"
  by (simp add: nodeById_def)

lemma fold_pushNode_first:
  "nodeById i (fold pushNodeIfAbsent ns acc) =
     (case nodeById i acc of Some n \<Rightarrow> Some n | None \<Rightarrow> nodeById i ns)"
proof (induction ns arbitrary: acc)
  case Nil
  then show ?case by (simp add: nodeById_Nil split: option.split)
next
  case (Cons a ns)
  show ?case
  proof (cases "node_id a \<in> set (map node_id acc)")
    case True
    then have p: "pushNodeIfAbsent a acc = acc" by (simp add: pushNodeIfAbsent_eq)
    from True have "node_id a = i \<Longrightarrow> nodeById i acc \<noteq> None"
      by (simp add: nodeById_None)
    then show ?thesis using Cons.IH[of acc] p
      by (auto simp: nodeById_Cons split: option.split)
  next
    case False
    then have p: "pushNodeIfAbsent a acc = acc @ [a]" by (simp add: pushNodeIfAbsent_eq)
    show ?thesis using Cons.IH[of "acc @ [a]"] p
      by (auto simp: nodeById_append nodeById_Cons nodeById_Nil split: option.split)
  qed
qed

subsection \<open>Category table and evaluation\<close>

lemma replaceFirst_length: "length (replaceFirst a b s) = length s"
  by (induction s) auto

lemma addCogSciCourse_keys:
  "fst ` set (addCogSciCourse c cat m) \<subseteq> insert (replaceFirst CHR '' '' CHR ''-'' c) (fst ` set m)"
  by (auto simp: addCogSciCourse_def Let_def)

lemma addAll_keys:
  "fst ` set (addAll cs cat m) \<subseteq> replaceFirst CHR '' '' CHR ''-'' ` set cs \<union> fst ` set m"
  unfolding addAll_def
proof (induction cs arbitrary: m)
  case Nil
  then show ?case by simp
next
  case (Cons c cs)
  show ?case using Cons.IH[of "addCogSciCourse c cat m"] addCogSciCourse_keys[of c cat m]
    by auto
qed

lemma addAll_length8:
  assumes "\<forall>k \<in> fst ` set m. length k = 8" "\<forall>c \<in> set cs. length c = 8"
  shows "\<forall>k \<in> fst ` set (addAll cs cat m). length k = 8"
proof
  fix k assume "k \<in> fst ` set (addAll cs cat m)"
  then have "k \<in> replaceFirst CHR '' '' CHR ''-'' ` set cs \<union> fst ` set m"
    using addAll_keys by blast
  then show "length k = 8" using assms by (auto simp: replaceFirst_length)
qed

lemma cognitiveScienceProgramMap_length8:
  "\<forall>k \<in> fst ` set cognitiveScienceProgramMap. length k = 8"
  unfolding cognitiveScienceProgramMap_def fold_simps prod.case comp_apply id_apply
  apply (intro addAll_length8)
  apply (simp_all add: complementaryCompSci_def complementaryLinguistics_def
      complementaryPhilosophy_def complementaryPsychology_def complementaryNeuroscience_def)
  done

lemma extractGroup_other:
  "length k \<noteq> 8 \<Longrightarrow> extractGroup k = takeWhile (\<lambda>c. c \<noteq> CHR ''-'') k"
proof -
  assume "length k \<noteq> 8"
  then have "k \<notin> fst ` set cognitiveScienceProgramMap"
    using cognitiveScienceProgramMap_length8 by blast
  then have "map_of cognitiveScienceProgramMap k = None" by (simp add: map_of_eq_None_iff)
  then show ?thesis by (simp add: extractGroup_def)
qed

lemmas build_eval =
  generateGraphElements_def newSet_def setAdd_def addCourseElements_def findCourse_def
  initialBuildState_def pushNodeIfAbsent_def pushEdgeIfAbsent_def newNode_def newEdge_def
  numberToString.simps intToString_def toUpperCase_def startsWith_def extractGroup_other Let_def
  exampleCourse_def displayGraphForCourses_def uniqueNodesById_def

lemma andCatalog_relevant:
  "getRelevantCoursesForProgram andCatalog [''A'', ''FAKE-999''] = [''A'', ''B'', ''C'']"
  by code_simp

lemma listCatalog_relevant: "getRelevantCoursesForProgram listCatalog [''X''] = [''X'']"
  by code_simp

lemma andCatalog_nodes:
  "map node_id (fst (generateGraphElements andCatalog [''A'', ''B'', ''C'']))
     = [''A'', ''logic_A_prereq_AND_1'', ''B'', ''C'', ''B'', ''C'']"
  by (simp add: build_eval andCatalog_def cong: let_weak_cong)

subsection \<open>Junctions\<close>

lemma edgeById_append:
  "edgeById i (xs @ ys) = (case edgeById i xs of Some e \<Rightarrow> Some e | None \<Rightarrow> edgeById i ys)"
  by (induction xs) (auto simp: edgeById_def)

lemma edgeById_None: "edgeById i es = None \<longleftrightarrow> i \<notin> set (map edge_id es)"
  by (induction es) (auto simp: edgeById_def)



lemma extends_node_ids:
  "extends s s' \<Longrightarrow> set (map node_id (nodesArray s)) \<subseteq> set (map node_id (nodesArray s'))"
  by (auto simp: extends_def)

lemma extends_edge_ids:
  "extends s s' \<Longrightarrow> set (map edge_id (edgesArray s)) \<subseteq> set (map edge_id (edgesArray s'))"
  by (auto simp: extends_def)








subsection \<open>Course nodes of a build\<close>



lemma newSet_empty: "newSet xs = [] \<longleftrightarrow> xs = []"
proof -
  have "set (newSet xs) = set xs" by (rule set_newSet)
  then show ?thesis by (metis set_empty)
qed

lemma synthetic_prefix:
  "synthetic (''logic_'' @ x)" "synthetic (''textual_'' @ x)" "synthetic (''n_of_list_'' @ x)"
  by (simp_all add: synthetic_def startsWith_def)

lemma courseNodeIds_push:
  "courseNodeIds cd (pushNodeIfAbsent n nodes)
     = courseNodeIds cd nodes \<union> ({node_id n} \<inter> catalogCodes cd)"
  by (auto simp: courseNodeIds_def pushNodeIfAbsent_eq)

lemma courseNodeIds_push_synthetic:
  "\<forall>k \<in> catalogCodes cd. \<not> synthetic k \<Longrightarrow> synthetic (node_id n) \<Longrightarrow>
   courseNodeIds cd (pushNodeIfAbsent n nodes) = courseNodeIds cd nodes"
  by (auto simp: courseNodeIds_push)

lemma fold_courseNodeIds:
  assumes "\<And>x s. x \<in> set xs \<Longrightarrow>
             courseNodeIds cd (nodesArray (f x s)) = courseNodeIds cd (nodesArray s) \<union> F x"
  shows "courseNodeIds cd (nodesArray (fold f xs s))
           = courseNodeIds cd (nodesArray s) \<union> (\<Union>x \<in> set xs. F x)"
  using assms
proof (induction xs arbitrary: s)
  case Nil
  then show ?case by simp
next
  case (Cons a xs)
  have "courseNodeIds cd (nodesArray (fold f xs (f a s)))
          = courseNodeIds cd (nodesArray (f a s)) \<union> (\<Union>x \<in> set xs. F x)"
    using Cons.IH Cons.prems by simp
  also have "courseNodeIds cd (nodesArray (f a s)) = courseNodeIds cd (nodesArray s) \<union> F a"
    using Cons.prems by simp
  finally show ?case by auto
qed

lemma newNode_id: "node_id (newNode i l t g sz d) = i"
  by (simp add: newNode_def)

lemma junction_courseNodeIds:
  assumes H: "\<forall>k \<in> catalogCodes cd. \<not> synthetic k" and j: "synthetic j"
    and IH: "\<And>x t s. x \<in> set conds \<Longrightarrow>
         courseNodeIds cd (nodesArray (addRequirementGraphElements cd x t ty orig s))
           = courseNodeIds cd (nodesArray s) \<union> (allRefs x \<inter> catalogCodes cd)"
  shows "courseNodeIds cd (nodesArray
           (fold (\<lambda>c. addRequirementGraphElements cd c j ty orig) conds
              (s\<lparr>nodesArray := pushNodeIfAbsent (newNode j l tt g sz d) (nodesArray s),
                 edgesArray := E, idCounter := K\<rparr>)))
         = courseNodeIds cd (nodesArray s) \<union> ((\<Union>x \<in> set conds. allRefs x) \<inter> catalogCodes cd)"
proof -
  have "courseNodeIds cd (nodesArray
           (fold (\<lambda>c. addRequirementGraphElements cd c j ty orig) conds
              (s\<lparr>nodesArray := pushNodeIfAbsent (newNode j l tt g sz d) (nodesArray s),
                 edgesArray := E, idCounter := K\<rparr>)))
         = courseNodeIds cd (nodesArray
              (s\<lparr>nodesArray := pushNodeIfAbsent (newNode j l tt g sz d) (nodesArray s),
                 edgesArray := E, idCounter := K\<rparr>))
           \<union> (\<Union>x \<in> set conds. allRefs x \<inter> catalogCodes cd)"
    by (rule fold_courseNodeIds) (rule IH)
  moreover have "courseNodeIds cd (pushNodeIfAbsent (newNode j l tt g sz d) (nodesArray s))
         = courseNodeIds cd (nodesArray s)"
    by (rule courseNodeIds_push_synthetic[OF H]) (simp add: newNode_id j)
  ultimately show ?thesis by auto
qed

lemma addRequirementGraphElements_courseNodeIds:
  assumes H: "\<forall>k \<in> catalogCodes cd. \<not> synthetic k"
  shows "courseNodeIds cd (nodesArray (addRequirementGraphElements cd r t ty orig s))
           = courseNodeIds cd (nodesArray s) \<union> (allRefs r \<inter> catalogCodes cd)"
proof (induction r arbitrary: t s)
  case (COURSE c)
  show ?case
  proof (cases "findCourse cd c")
    case None
    then have "c \<notin> catalogCodes cd" using findCourse_None[of cd c] by blast
    with None show ?thesis by simp
  next
    case (Some a)
    then have "c \<in> catalogCodes cd" using findCourse_None[of cd c] by auto
    with Some show ?thesis by (simp add: courseNodeIds_push newNode_id)
  qed
next
  case (LOGICAL_OPERATOR opr conds)
  show ?case
    unfolding addRequirementGraphElements.simps Let_def allRefs.simps
    by (rule junction_courseNodeIds[OF H synthetic_prefix(1)]) (rule LOGICAL_OPERATOR)
next
  case (TEXTUAL x)
  have "courseNodeIds cd (pushNodeIfAbsent (newNode (''textual_'' @ y) l tt g sz d) (nodesArray s))
         = courseNodeIds cd (nodesArray s)" for y l tt g sz d
    by (rule courseNodeIds_push_synthetic[OF H]) (simp only: newNode_id synthetic_prefix)
  then show ?case
    unfolding addRequirementGraphElements.simps Let_def by simp
next
  case (N_OF_LIST n conds)
  show ?case
  proof (cases "n = 1")
    case True
    show ?thesis
      unfolding addRequirementGraphElements.simps Let_def if_P[OF True] allRefs.simps
      by (rule junction_courseNodeIds[OF H synthetic_prefix(1)]) (rule N_OF_LIST)
  next
    case False
    show ?thesis
      unfolding addRequirementGraphElements.simps Let_def if_not_P[OF False] allRefs.simps
      by (rule junction_courseNodeIds[OF H synthetic_prefix(3)]) (rule N_OF_LIST)
  qed
qed

lemma addCourseElements_courseNodeIds:
  assumes H: "\<forall>k \<in> catalogCodes cd. \<not> synthetic k"
  shows "courseNodeIds cd (nodesArray (addCourseElements cd k s))
           = courseNodeIds cd (nodesArray s) \<union> courseRefs cd k"
proof (cases "findCourse cd k")
  case None
  then show ?thesis by (simp add: addCourseElements_def courseRefs_def)
next
  case (Some c)
  have k: "code c = k" "k \<in> catalogCodes cd"
    using Some findCourse_Some_code findCourse_None[of cd k] by auto
  have step: "\<And>ty x s. courseNodeIds cd (nodesArray (addRequirementGraphElements cd x k ty k s))
           = courseNodeIds cd (nodesArray s) \<union> (allRefs x \<inter> catalogCodes cd)"
    by (rule addRequirementGraphElements_courseNodeIds[OF H])
  let ?s0 = "s\<lparr>nodesArray := nodesArray s
               @ [newNode k k (k @ '': '' @ title c) (extractGroup k) None None]\<rparr>"
  let ?s1 = "fold (\<lambda>x. addRequirementGraphElements cd x k ''prereq'' k)
               (prerequisites_parsed c) ?s0"
  let ?s2 = "fold (\<lambda>x. addRequirementGraphElements cd x k ''coreq'' k)
               (corequisites_parsed c) ?s1"
  have b: "courseNodeIds cd (nodesArray ?s0) = courseNodeIds cd (nodesArray s) \<union> {k}"
    using k(2) by (auto simp: courseNodeIds_def newNode_id)
  have p1: "courseNodeIds cd (nodesArray ?s1) = courseNodeIds cd (nodesArray ?s0)
              \<union> (\<Union>x \<in> set (prerequisites_parsed c). allRefs x \<inter> catalogCodes cd)"
    by (rule fold_courseNodeIds) (rule step)
  have p2: "courseNodeIds cd (nodesArray ?s2) = courseNodeIds cd (nodesArray ?s1)
              \<union> (\<Union>x \<in> set (corequisites_parsed c). allRefs x \<inter> catalogCodes cd)"
    by (rule fold_courseNodeIds) (rule step)
  have "addCourseElements cd k s = ?s2"
    by (simp add: addCourseElements_def Some k(1))
  then show ?thesis
    unfolding p2 p1 b courseRefs_def Some option.case by (simp only: p2 p1 b) auto
qed

lemma generateGraphElements_courseNodeIds:
  assumes H: "\<forall>k \<in> catalogCodes cd. \<not> synthetic k"
  shows "courseNodeIds cd (fst (generateGraphElements cd codes)) = (\<Union>k \<in> set codes. courseRefs cd k)"
proof -
  have "courseNodeIds cd (nodesArray (fold (addCourseElements cd) (newSet codes) initialBuildState))
          = courseNodeIds cd (nodesArray initialBuildState) \<union> (\<Union>k \<in> set (newSet codes). courseRefs cd k)"
    by (rule fold_courseNodeIds) (rule addCourseElements_courseNodeIds[OF H])
  then show ?thesis
    by (simp add: generateGraphElements_def Let_def set_newSet initialBuildState_def
        courseNodeIds_def)
qed

lemma displayGraphForCourses_courseNodeIds:
  assumes H: "\<forall>k \<in> catalogCodes cd. \<not> synthetic k"
  shows "courseNodeIds cd (allNodesDataSet (displayGraphForCourses cd codes st))
           = (\<Union>k \<in> set codes. courseRefs cd k)"
proof -
  have "allNodesDataSet (displayGraphForCourses cd codes st)
          = uniqueNodesById (fst (generateGraphElements cd codes))"
    by (cases "codes = []")
       (simp_all add: displayGraphForCourses_def generateGraphElements_def newSet_def
          initialBuildState_def uniqueNodesById_def split: prod.split)
  moreover have "set (map node_id (uniqueNodesById ns)) = set (map node_id ns)" for ns
    unfolding uniqueNodesById_def fold_pushNode_ids by simp
  ultimately have "courseNodeIds cd (allNodesDataSet (displayGraphForCourses cd codes st))
          = courseNodeIds cd (fst (generateGraphElements cd codes))"
    unfolding courseNodeIds_def by (simp only:)
  then show ?thesis using generateGraphElements_courseNodeIds[OF H] by simp
qed

lemma textCatalog_graphs:
  "map node_id (allNodesDataSet (displayGraphForCourses textCatalog [''P'', ''Q''] emptyView))
     = [''P'', ''textual_P_prereq_1'', ''Q'', ''textual_Q_prereq_2'']"
  "map node_id (allNodesDataSet (displayGraphForCourses textCatalog [''Q'', ''P''] emptyView))
     = [''Q'', ''textual_Q_prereq_1'', ''P'', ''textual_P_prereq_2'']"
  "map edge_id (allEdgesDataSet (displayGraphForCourses textCatalog [''P'', ''Q''] emptyView))
     = [''textual_P_prereq_1_P_prereq'', ''textual_Q_prereq_2_Q_prereq'']"
  "map edge_id (allEdgesDataSet (displayGraphForCourses textCatalog [''Q'', ''P''] emptyView))
     = [''textual_Q_prereq_1_Q_prereq'', ''textual_P_prereq_2_P_prereq'']"
  by (simp_all add: build_eval textCatalog_def cong: let_weak_cong)

subsection \<open>Elements in the order of construction\<close>

lemma uniqueNodesById_snoc:
  "uniqueNodesById (ns @ [n]) = pushNodeIfAbsent n (uniqueNodesById ns)"
  by (simp add: uniqueNodesById_def)

lemma uniqueNodesById_ids: "set (map node_id (uniqueNodesById ns)) = set (map node_id ns)"
  unfolding uniqueNodesById_def fold_pushNode_ids by simp

lemma uniqueNodesById_push:
  "uniqueNodesById (pushNodeIfAbsent n ns) = pushNodeIfAbsent n (uniqueNodesById ns)"
proof (cases "node_id n \<in> set (map node_id ns)")
  case True
  then have "node_id n \<in> set (map node_id (uniqueNodesById ns))"
    by (simp only: uniqueNodesById_ids)
  with True show ?thesis by (simp only: pushNodeIfAbsent_eq if_True)
next
  case False
  then show ?thesis by (simp only: pushNodeIfAbsent_eq if_False uniqueNodesById_snoc)
qed

lemma uniqueEdgesById_snoc:
  "uniqueEdgesById (es @ [e]) = pushEdgeIfAbsent e (uniqueEdgesById es)"
  by (simp add: uniqueEdgesById_def)

lemma sameElements_push:
  assumes "sameElements s r"
  shows "sameElements
           (s\<lparr>nodesArray := pushNodeIfAbsent n (nodesArray s),
              edgesArray := pushEdgeIfAbsent e (edgesArray s)\<rparr>)
           (r\<lparr>nodesArray := nodesArray r @ [n], edgesArray := edgesArray r @ [e]\<rparr>)"
    and "sameElements
           (s\<lparr>nodesArray := pushNodeIfAbsent n (nodesArray s),
              edgesArray := pushEdgeIfAbsent e (edgesArray s), idCounter := c\<rparr>)
           (r\<lparr>nodesArray := nodesArray r @ [n], edgesArray := edgesArray r @ [e],
              idCounter := c\<rparr>)"
    and "sameElements (s\<lparr>nodesArray := nodesArray s @ [n]\<rparr>) (r\<lparr>nodesArray := nodesArray r @ [n]\<rparr>)"
  using assms
  by (simp_all add: sameElements_def uniqueNodesById_push uniqueNodesById_snoc uniqueEdgesById_snoc)

lemma fold_sameElements:
  assumes "\<And>x s r. x \<in> set xs \<Longrightarrow> sameElements s r \<Longrightarrow> sameElements (f x s) (g x r)"
    and "sameElements s r"
  shows "sameElements (fold f xs s) (fold g xs r)"
  using assms
proof (induction xs arbitrary: s r)
  case Nil
  then show ?case by simp
next
  case (Cons a xs)
  have "sameElements (f a s) (g a r)" using Cons.prems by simp
  then show ?case using Cons.IH[of "f a s" "g a r"] Cons.prems(1) by simp
qed

lemma addRequirementGraphElements_produced:
  "sameElements s r \<Longrightarrow>
   sameElements (addRequirementGraphElements cd q t ty orig s)
     (producedByRequirement cd q t ty orig r)"
proof (induction q arbitrary: t s r)
  case (COURSE c)
  then show ?case
    by (cases "findCourse cd c") (simp_all add: sameElements_push(1))
next
  case (LOGICAL_OPERATOR opr conds)
  from LOGICAL_OPERATOR.prems have c: "idCounter s = idCounter r"
    by (simp add: sameElements_def)
  show ?case
    unfolding addRequirementGraphElements.simps producedByRequirement.simps Let_def c
    by (rule fold_sameElements[OF LOGICAL_OPERATOR.IH sameElements_push(2)[OF LOGICAL_OPERATOR.prems]])
next
  case (TEXTUAL x)
  from TEXTUAL have c: "idCounter s = idCounter r"
    by (simp add: sameElements_def)
  show ?case
    unfolding addRequirementGraphElements.simps producedByRequirement.simps Let_def c
    by (rule sameElements_push(2)[OF TEXTUAL])
next
  case (N_OF_LIST n conds)
  from N_OF_LIST.prems have c: "idCounter s = idCounter r"
    by (simp add: sameElements_def)
  show ?case
  proof (cases "n = 1")
    case True
    show ?thesis
      unfolding addRequirementGraphElements.simps producedByRequirement.simps Let_def c
        if_P[OF True]
      by (rule fold_sameElements[OF N_OF_LIST.IH sameElements_push(2)[OF N_OF_LIST.prems]])
  next
    case False
    show ?thesis
      unfolding addRequirementGraphElements.simps producedByRequirement.simps Let_def c
        if_not_P[OF False]
      by (rule fold_sameElements[OF N_OF_LIST.IH sameElements_push(2)[OF N_OF_LIST.prems]])
  qed
qed

lemma addCourseElements_produced:
  assumes "sameElements s r"
  shows "sameElements (addCourseElements cd k s) (producedByCourse cd k r)"
proof (cases "findCourse cd k")
  case None
  then show ?thesis using assms by (simp add: addCourseElements_def producedByCourse_def)
next
  case (Some c)
  show ?thesis
    unfolding addCourseElements_def producedByCourse_def Some option.case
    by (rule fold_sameElements[OF addRequirementGraphElements_produced
          fold_sameElements[OF addRequirementGraphElements_produced
            sameElements_push(3)[OF assms]]])
qed

lemma generateGraphElements_produced:
  "uniqueNodesById (fst (generateGraphElements cd codes))
     = uniqueNodesById (fst (producedElements cd codes))"
  "snd (generateGraphElements cd codes) = uniqueEdgesById (snd (producedElements cd codes))"
proof -
  have "sameElements initialBuildState initialBuildState"
    by (simp add: sameElements_def uniqueEdgesById_def initialBuildState_def)
  then have "sameElements (fold (addCourseElements cd) (newSet codes) initialBuildState)
     (fold (producedByCourse cd) (newSet codes) initialBuildState)"
    by (intro fold_sameElements addCourseElements_produced)
  then show "uniqueNodesById (fst (generateGraphElements cd codes))
     = uniqueNodesById (fst (producedElements cd codes))"
    and "snd (generateGraphElements cd codes) = uniqueEdgesById (snd (producedElements cd codes))"
    by (simp_all add: generateGraphElements_def producedElements_def Let_def sameElements_def)
qed

lemma edgeById_Nil: "edgeById i [] = None"
  by (simp add: edgeById_def)

lemma edgeById_Cons:
  "edgeById i (a # es) = (if edge_id a = i then Some a else edgeById i es)"
  by (simp add: edgeById_def)

lemma fold_pushEdge_first:
  "edgeById i (fold pushEdgeIfAbsent es acc) =
     (case edgeById i acc of Some e \<Rightarrow> Some e | None \<Rightarrow> edgeById i es)"
proof (induction es arbitrary: acc)
  case Nil
  then show ?case by (simp add: edgeById_Nil split: option.split)
next
  case (Cons a es)
  show ?case
  proof (cases "edge_id a \<in> set (map edge_id acc)")
    case True
    then have p: "pushEdgeIfAbsent a acc = acc" by (simp add: pushEdgeIfAbsent_eq)
    from True have "edge_id a = i \<Longrightarrow> edgeById i acc \<noteq> None"
      by (simp add: edgeById_None)
    then show ?thesis using Cons.IH[of acc] p
      by (auto simp: edgeById_Cons split: option.split)
  next
    case False
    then have p: "pushEdgeIfAbsent a acc = acc @ [a]" by (simp add: pushEdgeIfAbsent_eq)
    show ?thesis using Cons.IH[of "acc @ [a]"] p
      by (auto simp: edgeById_append edgeById_Cons edgeById_Nil split: option.split)
  qed
qed

lemma displayGraphForCourses_produced:
  "allNodesDataSet (displayGraphForCourses cd codes st)
     = uniqueNodesById (fst (producedElements cd codes))"
  "allEdgesDataSet (displayGraphForCourses cd codes st)
     = uniqueEdgesById (snd (producedElements cd codes))"
proof -
  have e: "producedElements cd [] = ([], [])"
    by (simp add: producedElements_def newSet_def initialBuildState_def)
  show "allNodesDataSet (displayGraphForCourses cd codes st)
     = uniqueNodesById (fst (producedElements cd codes))"
    using generateGraphElements_produced(1)[of cd codes]
    by (cases "codes = []")
       (simp_all add: displayGraphForCourses_def e uniqueNodesById_def split_beta)
  show "allEdgesDataSet (displayGraphForCourses cd codes st)
     = uniqueEdgesById (snd (producedElements cd codes))"
    using generateGraphElements_produced(2)[of cd codes]
    by (cases "codes = []")
       (simp_all add: displayGraphForCourses_def e uniqueEdgesById_def split_beta)
qed

lemma clashCatalog_produced:
  "map (\<lambda>e. (edge_from e, edge_to e, edge_id e))
     (snd (producedElements clashCatalog [''Y_Z'', ''Z'']))
     = [(''X'', ''Y_Z'', ''X_Y_Z_prereq''), (''X_Y'', ''Z'', ''X_Y_Z_prereq'')]"
  "map_option (\<lambda>e. (edge_from e, edge_to e))
     (edgeById ''X_Y_Z_prereq'' (snd (producedElements clashCatalog [''Y_Z'', ''Z''])))
     = Some (''X'', ''Y_Z'')"
  by (simp_all add: build_eval producedElements_def producedByCourse_def clashCatalog_def
      edgeById_def cong: let_weak_cong)

subsection \<open>Identifiers without a counter\<close>

lemma fold_subset:
  assumes "\<And>x s. x \<in> set xs \<Longrightarrow> m (f x s) \<subseteq> m s \<union> G x \<union> C"
  shows "m (fold f xs s) \<subseteq> m s \<union> (\<Union>x \<in> set xs. G x) \<union> C"
  using assms
proof (induction xs arbitrary: s)
  case Nil
  then show ?case by simp
next
  case (Cons a xs)
  have "m (fold f xs (f a s)) \<subseteq> m (f a s) \<union> (\<Union>x \<in> set xs. G x) \<union> C"
    using Cons.IH Cons.prems by simp
  moreover have "m (f a s) \<subseteq> m s \<union> G a \<union> C" using Cons.prems by simp
  ultimately show ?case by auto
qed

lemma fold_superset:
  assumes "\<And>x s. x \<in> set xs \<Longrightarrow> m s \<union> G x \<subseteq> m (f x s)"
  shows "m s \<union> (\<Union>x \<in> set xs. G x) \<subseteq> m (fold f xs s)"
  using assms
proof (induction xs arbitrary: s)
  case Nil
  then show ?case by simp
next
  case (Cons a xs)
  have "m (f a s) \<union> (\<Union>x \<in> set xs. G x) \<subseteq> m (fold f xs (f a s))"
    using Cons.IH Cons.prems by simp
  moreover have "m s \<union> G a \<subseteq> m (f a s)" using Cons.prems by simp
  ultimately show ?case by auto
qed

lemma pushNodeIfAbsent_junction:
  "set (map node_id (nodesArray
      (s\<lparr>nodesArray := pushNodeIfAbsent (newNode j l tt g sz d) (nodesArray s),
         edgesArray := E, idCounter := K\<rparr>)))
     = insert j (set (map node_id (nodesArray s)))"
  using pushNodeIfAbsent_ids[of "newNode j l tt g sz d" "nodesArray s"]
  by (simp add: newNode_id)

lemma junction_node_ids_subset:
  assumes j: "synthetic j"
    and IH: "\<And>x t s. x \<in> set conds \<Longrightarrow>
         set (map node_id (nodesArray (addRequirementGraphElements cd x t ty orig s)))
           \<subseteq> set (map node_id (nodesArray s)) \<union> allRefs x \<inter> catalogCodes cd
             \<union> Collect synthetic"
  shows "set (map node_id (nodesArray
           (fold (\<lambda>c. addRequirementGraphElements cd c j ty orig) conds
              (s\<lparr>nodesArray := pushNodeIfAbsent (newNode j l tt g sz d) (nodesArray s),
                 edgesArray := E, idCounter := K\<rparr>))))
         \<subseteq> set (map node_id (nodesArray s)) \<union> (\<Union>x \<in> set conds. allRefs x) \<inter> catalogCodes cd
           \<union> Collect synthetic"
proof -
  let ?s0 = "s\<lparr>nodesArray := pushNodeIfAbsent (newNode j l tt g sz d) (nodesArray s),
                 edgesArray := E, idCounter := K\<rparr>"
  have "set (map node_id (nodesArray
           (fold (\<lambda>c. addRequirementGraphElements cd c j ty orig) conds ?s0)))
         \<subseteq> set (map node_id (nodesArray ?s0))
           \<union> (\<Union>x \<in> set conds. allRefs x \<inter> catalogCodes cd) \<union> Collect synthetic"
    by (rule fold_subset[where m = "\<lambda>s. set (map node_id (nodesArray s))"]) (rule IH)
  moreover have "j \<in> Collect synthetic" using j by simp
  ultimately show ?thesis unfolding pushNodeIfAbsent_junction by blast
qed

lemma junction_node_ids_superset:
  assumes IH: "\<And>x t s. x \<in> set conds \<Longrightarrow>
         set (map node_id (nodesArray s)) \<union> allRefs x \<inter> catalogCodes cd
           \<subseteq> set (map node_id (nodesArray (addRequirementGraphElements cd x t ty orig s)))"
  shows "set (map node_id (nodesArray s)) \<union> (\<Union>x \<in> set conds. allRefs x) \<inter> catalogCodes cd
         \<subseteq> set (map node_id (nodesArray
           (fold (\<lambda>c. addRequirementGraphElements cd c j ty orig) conds
              (s\<lparr>nodesArray := pushNodeIfAbsent (newNode j l tt g sz d) (nodesArray s),
                 edgesArray := E, idCounter := K\<rparr>))))"
proof -
  let ?s0 = "s\<lparr>nodesArray := pushNodeIfAbsent (newNode j l tt g sz d) (nodesArray s),
                 edgesArray := E, idCounter := K\<rparr>"
  have "set (map node_id (nodesArray ?s0)) \<union> (\<Union>x \<in> set conds. allRefs x \<inter> catalogCodes cd)
         \<subseteq> set (map node_id (nodesArray
           (fold (\<lambda>c. addRequirementGraphElements cd c j ty orig) conds ?s0)))"
    by (rule fold_superset[where m = "\<lambda>s. set (map node_id (nodesArray s))"]) (rule IH)
  then show ?thesis unfolding pushNodeIfAbsent_junction by blast
qed

lemma addRequirementGraphElements_node_ids_subset:
  "set (map node_id (nodesArray (addRequirementGraphElements cd r t ty orig s)))
     \<subseteq> set (map node_id (nodesArray s)) \<union> allRefs r \<inter> catalogCodes cd \<union> Collect synthetic"
proof (induction r arbitrary: t s)
  case (COURSE c)
  show ?case
  proof (cases "findCourse cd c")
    case None
    then have e: "addRequirementGraphElements cd (COURSE c) t ty orig s = s" by simp
    show ?thesis unfolding e by blast
  next
    case (Some a)
    then have k: "c \<in> catalogCodes cd" using findCourse_None[of cd c] by auto
    have e: "set (map node_id (nodesArray (addRequirementGraphElements cd (COURSE c) t ty orig s)))
        = insert c (set (map node_id (nodesArray s)))"
      using pushNodeIfAbsent_ids[of _ "nodesArray s"] by (simp add: Some newNode_id)
    show ?thesis unfolding allRefs.simps e using k by blast
  qed
next
  case (LOGICAL_OPERATOR opr conds)
  show ?case
    unfolding addRequirementGraphElements.simps Let_def allRefs.simps
    by (rule junction_node_ids_subset[OF synthetic_prefix(1)]) (rule LOGICAL_OPERATOR)
next
  case (TEXTUAL x)
  show ?case
    unfolding addRequirementGraphElements.simps Let_def pushNodeIfAbsent_junction
    using synthetic_prefix(2) by blast
next
  case (N_OF_LIST n conds)
  show ?case
  proof (cases "n = 1")
    case True
    show ?thesis
      unfolding addRequirementGraphElements.simps Let_def if_P[OF True] allRefs.simps
      by (rule junction_node_ids_subset[OF synthetic_prefix(1)]) (rule N_OF_LIST)
  next
    case False
    show ?thesis
      unfolding addRequirementGraphElements.simps Let_def if_not_P[OF False] allRefs.simps
      by (rule junction_node_ids_subset[OF synthetic_prefix(3)]) (rule N_OF_LIST)
  qed
qed

lemma addRequirementGraphElements_node_ids_superset:
  "set (map node_id (nodesArray s)) \<union> allRefs r \<inter> catalogCodes cd
     \<subseteq> set (map node_id (nodesArray (addRequirementGraphElements cd r t ty orig s)))"
proof (induction r arbitrary: t s)
  case (COURSE c)
  show ?case
  proof (cases "findCourse cd c")
    case None
    then have "c \<notin> catalogCodes cd" using findCourse_None[of cd c] by blast
    with None show ?thesis by simp
  next
    case (Some a)
    have "set (map node_id (nodesArray (addRequirementGraphElements cd (COURSE c) t ty orig s)))
        = insert c (set (map node_id (nodesArray s)))"
      using pushNodeIfAbsent_ids[of _ "nodesArray s"] by (simp add: Some newNode_id)
    then show ?thesis unfolding allRefs.simps by blast
  qed
next
  case (LOGICAL_OPERATOR opr conds)
  show ?case
    unfolding addRequirementGraphElements.simps Let_def allRefs.simps
    by (rule junction_node_ids_superset) (rule LOGICAL_OPERATOR)
next
  case (TEXTUAL x)
  have "set (map node_id (nodesArray s))
        \<subseteq> set (map node_id (nodesArray (addRequirementGraphElements cd (TEXTUAL x) t ty orig s)))"
    by (rule extends_node_ids) (rule addRequirementGraphElements_extends)
  then show ?case unfolding allRefs.simps by blast
next
  case (N_OF_LIST n conds)
  show ?case
  proof (cases "n = 1")
    case True
    show ?thesis
      unfolding addRequirementGraphElements.simps Let_def if_P[OF True] allRefs.simps
      by (rule junction_node_ids_superset) (rule N_OF_LIST)
  next
    case False
    show ?thesis
      unfolding addRequirementGraphElements.simps Let_def if_not_P[OF False] allRefs.simps
      by (rule junction_node_ids_superset) (rule N_OF_LIST)
  qed
qed

lemma addCourseElements_unfold:
  assumes "findCourse cd k = Some c"
  shows "addCourseElements cd k s =
           fold (\<lambda>x. addRequirementGraphElements cd x k ''coreq'' k) (corequisites_parsed c)
             (fold (\<lambda>x. addRequirementGraphElements cd x k ''prereq'' k) (prerequisites_parsed c)
                (s\<lparr>nodesArray := nodesArray s
                     @ [newNode k k (k @ '': '' @ title c) (extractGroup k) None None]\<rparr>))"
proof -
  have "code c = k" using assms findCourse_Some_code by auto
  then show ?thesis by (simp add: addCourseElements_def assms)
qed

lemma courseRefs_unfold:
  assumes "findCourse cd k = Some c"
  shows "courseRefs cd k
           = insert k ((\<Union>x \<in> set (prerequisites_parsed c). allRefs x \<inter> catalogCodes cd)
               \<union> (\<Union>x \<in> set (corequisites_parsed c). allRefs x \<inter> catalogCodes cd))"
  by (auto simp: courseRefs_def assms)

lemma addCourseElements_node_ids_subset:
  "set (map node_id (nodesArray (addCourseElements cd k s)))
     \<subseteq> set (map node_id (nodesArray s)) \<union> courseRefs cd k \<union> Collect synthetic"
proof (cases "findCourse cd k")
  case None
  then show ?thesis by (simp add: addCourseElements_def courseRefs_def)
next
  case (Some c)
  let ?s0 = "s\<lparr>nodesArray := nodesArray s
               @ [newNode k k (k @ '': '' @ title c) (extractGroup k) None None]\<rparr>"
  let ?s1 = "fold (\<lambda>x. addRequirementGraphElements cd x k ''prereq'' k)
               (prerequisites_parsed c) ?s0"
  let ?s2 = "fold (\<lambda>x. addRequirementGraphElements cd x k ''coreq'' k)
               (corequisites_parsed c) ?s1"
  have b: "set (map node_id (nodesArray ?s0)) = insert k (set (map node_id (nodesArray s)))"
    by (simp add: newNode_id)
  have p1: "set (map node_id (nodesArray ?s1)) \<subseteq> set (map node_id (nodesArray ?s0))
              \<union> (\<Union>x \<in> set (prerequisites_parsed c). allRefs x \<inter> catalogCodes cd)
              \<union> Collect synthetic"
    by (rule fold_subset[where m = "\<lambda>s. set (map node_id (nodesArray s))"])
       (rule addRequirementGraphElements_node_ids_subset)
  have p2: "set (map node_id (nodesArray ?s2)) \<subseteq> set (map node_id (nodesArray ?s1))
              \<union> (\<Union>x \<in> set (corequisites_parsed c). allRefs x \<inter> catalogCodes cd)
              \<union> Collect synthetic"
    by (rule fold_subset[where m = "\<lambda>s. set (map node_id (nodesArray s))"])
       (rule addRequirementGraphElements_node_ids_subset)
  from p1 p2 show ?thesis
    unfolding addCourseElements_unfold[OF Some] courseRefs_unfold[OF Some] b by blast
qed

lemma addCourseElements_node_ids_superset:
  "set (map node_id (nodesArray s)) \<union> courseRefs cd k
     \<subseteq> set (map node_id (nodesArray (addCourseElements cd k s)))"
proof (cases "findCourse cd k")
  case None
  then show ?thesis by (simp add: addCourseElements_def courseRefs_def)
next
  case (Some c)
  let ?s0 = "s\<lparr>nodesArray := nodesArray s
               @ [newNode k k (k @ '': '' @ title c) (extractGroup k) None None]\<rparr>"
  let ?s1 = "fold (\<lambda>x. addRequirementGraphElements cd x k ''prereq'' k)
               (prerequisites_parsed c) ?s0"
  let ?s2 = "fold (\<lambda>x. addRequirementGraphElements cd x k ''coreq'' k)
               (corequisites_parsed c) ?s1"
  have b: "set (map node_id (nodesArray ?s0)) = insert k (set (map node_id (nodesArray s)))"
    by (simp add: newNode_id)
  have q1: "set (map node_id (nodesArray ?s0))
              \<union> (\<Union>x \<in> set (prerequisites_parsed c). allRefs x \<inter> catalogCodes cd)
            \<subseteq> set (map node_id (nodesArray ?s1))"
    by (rule fold_superset[where m = "\<lambda>s. set (map node_id (nodesArray s))"])
       (rule addRequirementGraphElements_node_ids_superset)
  have q2: "set (map node_id (nodesArray ?s1))
              \<union> (\<Union>x \<in> set (corequisites_parsed c). allRefs x \<inter> catalogCodes cd)
            \<subseteq> set (map node_id (nodesArray ?s2))"
    by (rule fold_superset[where m = "\<lambda>s. set (map node_id (nodesArray s))"])
       (rule addRequirementGraphElements_node_ids_superset)
  from q1 q2 show ?thesis
    unfolding addCourseElements_unfold[OF Some] courseRefs_unfold[OF Some] b by blast
qed

lemma displayGraphForCourses_generated:
  "allNodesDataSet (displayGraphForCourses cd codes st)
     = uniqueNodesById (nodesArray (fold (addCourseElements cd) (newSet codes) initialBuildState))"
  "allEdgesDataSet (displayGraphForCourses cd codes st)
     = edgesArray (fold (addCourseElements cd) (newSet codes) initialBuildState)"
  by (cases "codes = []";
      simp add: displayGraphForCourses_def generateGraphElements_def newSet_def
        initialBuildState_def uniqueNodesById_def split_beta Let_def)+

lemma displayGraphForCourses_node_ids_subset:
  "set (map node_id (allNodesDataSet (displayGraphForCourses cd codes st)))
     \<subseteq> (\<Union>k \<in> set codes. courseRefs cd k) \<union> Collect synthetic"
proof -
  let ?s = "fold (addCourseElements cd) (newSet codes) initialBuildState"
  have i: "set (map node_id (allNodesDataSet (displayGraphForCourses cd codes st)))
             = set (map node_id (nodesArray ?s))"
    unfolding displayGraphForCourses_generated uniqueNodesById_def fold_pushNode_ids by simp
  have z: "set (map node_id (nodesArray initialBuildState)) = {}"
    by (simp add: initialBuildState_def)
  have "set (map node_id (nodesArray ?s)) \<subseteq> set (map node_id (nodesArray initialBuildState))
          \<union> (\<Union>k \<in> set (newSet codes). courseRefs cd k) \<union> Collect synthetic"
    by (rule fold_subset[where m = "\<lambda>s. set (map node_id (nodesArray s))"])
       (rule addCourseElements_node_ids_subset)
  then show ?thesis unfolding i z set_newSet by blast
qed

lemma displayGraphForCourses_node_ids_superset:
  "(\<Union>k \<in> set codes. courseRefs cd k)
     \<subseteq> set (map node_id (allNodesDataSet (displayGraphForCourses cd codes st)))"
proof -
  let ?s = "fold (addCourseElements cd) (newSet codes) initialBuildState"
  have i: "set (map node_id (allNodesDataSet (displayGraphForCourses cd codes st)))
             = set (map node_id (nodesArray ?s))"
    unfolding displayGraphForCourses_generated uniqueNodesById_def fold_pushNode_ids by simp
  have "set (map node_id (nodesArray initialBuildState))
          \<union> (\<Union>k \<in> set (newSet codes). courseRefs cd k) \<subseteq> set (map node_id (nodesArray ?s))"
    by (rule fold_superset[where m = "\<lambda>s. set (map node_id (nodesArray s))"])
       (rule addCourseElements_node_ids_superset)
  then show ?thesis unfolding i set_newSet by blast
qed

lemma pushEdgeIfAbsent_set: "set (pushEdgeIfAbsent e es) \<subseteq> insert e (set es)"
  by (auto simp: pushEdgeIfAbsent_eq)

lemma pushEdgeIfAbsent_ids:
  "set (map edge_id (pushEdgeIfAbsent e es)) = insert (edge_id e) (set (map edge_id es))"
  by (auto simp: pushEdgeIfAbsent_eq)

lemma newEdge_ends:
  "edge_from (newEdge f t ty dsh tt) = f" "edge_to (newEdge f t ty dsh tt) = t"
  "edge_id (newEdge f t ty dsh tt) = f @ ''_'' @ t @ ''_'' @ ty"
  by (simp_all add: newEdge_def)

lemma junction_edges_subset:
  assumes j: "synthetic j"
    and IH: "\<And>x t s. x \<in> set conds \<Longrightarrow>
         set (edgesArray (addRequirementGraphElements cd x t ty orig s))
           \<subseteq> set (edgesArray s) \<union> {e. edge_to e = t \<and> edge_id e \<in> directEdgeIds cd x t ty}
             \<union> Collect atSynthetic"
  shows "set (edgesArray
           (fold (\<lambda>c. addRequirementGraphElements cd c j ty orig) conds
              (s\<lparr>nodesArray := N,
                 edgesArray := pushEdgeIfAbsent (newEdge j t ty dsh tt) (edgesArray s),
                 idCounter := K\<rparr>)))
         \<subseteq> set (edgesArray s) \<union> X \<union> Collect atSynthetic"
proof -
  let ?s0 = "s\<lparr>nodesArray := N,
                 edgesArray := pushEdgeIfAbsent (newEdge j t ty dsh tt) (edgesArray s),
                 idCounter := K\<rparr>"
  have a: "set (edgesArray
           (fold (\<lambda>c. addRequirementGraphElements cd c j ty orig) conds ?s0))
         \<subseteq> set (edgesArray ?s0)
           \<union> (\<Union>x \<in> set conds. {e. edge_to e = j \<and> edge_id e \<in> directEdgeIds cd x j ty})
           \<union> Collect atSynthetic"
    by (rule fold_subset[where m = "\<lambda>s. set (edgesArray s)"]) (rule IH)
  have b: "set (edgesArray ?s0) \<subseteq> insert (newEdge j t ty dsh tt) (set (edgesArray s))"
    using pushEdgeIfAbsent_set[of "newEdge j t ty dsh tt" "edgesArray s"] by simp
  have c: "newEdge j t ty dsh tt \<in> Collect atSynthetic"
    using j by (simp add: atSynthetic_def newEdge_ends)
  have d: "(\<Union>x \<in> set conds. {e. edge_to e = j \<and> edge_id e \<in> directEdgeIds cd x j ty})
             \<subseteq> Collect atSynthetic"
    using j by (auto simp: atSynthetic_def)
  from a b c d show ?thesis by blast
qed

lemma addRequirementGraphElements_edges_subset:
  "set (edgesArray (addRequirementGraphElements cd r t ty orig s))
     \<subseteq> set (edgesArray s) \<union> {e. edge_to e = t \<and> edge_id e \<in> directEdgeIds cd r t ty}
       \<union> Collect atSynthetic"
proof (induction r arbitrary: t s)
  case (COURSE c)
  show ?case
  proof (cases "findCourse cd c")
    case None
    then have e: "addRequirementGraphElements cd (COURSE c) t ty orig s = s" by simp
    show ?thesis unfolding e by blast
  next
    case (Some a)
    then have k: "c \<in> catalogCodes cd" using findCourse_None[of cd c] by auto
    obtain tt where e: "edgesArray (addRequirementGraphElements cd (COURSE c) t ty orig s)
        = pushEdgeIfAbsent (newEdge c t ty (ty = ''coreq'') tt) (edgesArray s)"
      by (simp add: Some)
    have "newEdge c t ty (ty = ''coreq'') tt
            \<in> {e. edge_to e = t \<and> edge_id e \<in> directEdgeIds cd (COURSE c) t ty}"
      using k by (simp add: newEdge_ends)
    then show ?thesis
      unfolding e using pushEdgeIfAbsent_set[of "newEdge c t ty (ty = ''coreq'') tt" "edgesArray s"]
      by blast
  qed
next
  case (LOGICAL_OPERATOR opr conds)
  show ?case
    unfolding addRequirementGraphElements.simps Let_def
    by (rule junction_edges_subset[OF synthetic_prefix(1)]) (rule LOGICAL_OPERATOR)
next
  case (TEXTUAL x)
  obtain j tt where e: "edgesArray (addRequirementGraphElements cd (TEXTUAL x) t ty orig s)
        = pushEdgeIfAbsent (newEdge (''textual_'' @ j) t ty False tt) (edgesArray s)"
    by (simp add: Let_def)
  have "synthetic (edge_from (newEdge (''textual_'' @ j) t ty False tt))"
    by (simp only: newEdge_ends synthetic_prefix)
  then have "newEdge (''textual_'' @ j) t ty False tt \<in> Collect atSynthetic"
    by (simp only: atSynthetic_def mem_Collect_eq) blast
  then show ?case
    unfolding e using pushEdgeIfAbsent_set[of "newEdge (''textual_'' @ j) t ty False tt" "edgesArray s"]
    by blast
next
  case (N_OF_LIST n conds)
  show ?case
  proof (cases "n = 1")
    case True
    show ?thesis
      unfolding addRequirementGraphElements.simps Let_def if_P[OF True]
      by (rule junction_edges_subset[OF synthetic_prefix(1)]) (rule N_OF_LIST)
  next
    case False
    show ?thesis
      unfolding addRequirementGraphElements.simps Let_def if_not_P[OF False]
      by (rule junction_edges_subset[OF synthetic_prefix(3)]) (rule N_OF_LIST)
  qed
qed

lemma addRequirementGraphElements_edge_ids_superset:
  "set (map edge_id (edgesArray s)) \<union> directEdgeIds cd r t ty
     \<subseteq> set (map edge_id (edgesArray (addRequirementGraphElements cd r t ty orig s)))"
proof -
  have ext: "set (map edge_id (edgesArray s))
        \<subseteq> set (map edge_id (edgesArray (addRequirementGraphElements cd r t ty orig s)))"
    by (rule extends_edge_ids) (rule addRequirementGraphElements_extends)
  show ?thesis
  proof (cases r)
    case (COURSE c)
    show ?thesis
    proof (cases "findCourse cd c")
      case None
      then have "c \<notin> catalogCodes cd" using findCourse_None[of cd c] by blast
      then have "directEdgeIds cd r t ty = {}" by (simp add: COURSE)
      with ext show ?thesis by blast
    next
      case (Some a)
      obtain tt where e: "edgesArray (addRequirementGraphElements cd r t ty orig s)
          = pushEdgeIfAbsent (newEdge c t ty (ty = ''coreq'') tt) (edgesArray s)"
        by (simp add: Some COURSE)
      have "directEdgeIds cd r t ty \<subseteq> {c @ ''_'' @ t @ ''_'' @ ty}" by (simp add: COURSE)
      then show ?thesis unfolding e pushEdgeIfAbsent_ids newEdge_ends by blast
    qed
  next
    case (LOGICAL_OPERATOR opr conds)
    then have "directEdgeIds cd r t ty = {}" by simp
    with ext show ?thesis by blast
  next
    case (TEXTUAL x)
    then have "directEdgeIds cd r t ty = {}" by simp
    with ext show ?thesis by blast
  next
    case (N_OF_LIST n conds)
    then have "directEdgeIds cd r t ty = {}" by simp
    with ext show ?thesis by blast
  qed
qed

lemma courseEdgeIds_unfold:
  assumes "findCourse cd k = Some c"
  shows "courseEdgeIds cd k
           = (\<Union>r \<in> set (prerequisites_parsed c). directEdgeIds cd r k ''prereq'')
             \<union> (\<Union>r \<in> set (corequisites_parsed c). directEdgeIds cd r k ''coreq'')"
  by (simp add: courseEdgeIds_def assms)

lemma addCourseElements_edges_subset:
  "set (edgesArray (addCourseElements cd k s))
     \<subseteq> set (edgesArray s) \<union> {e. edge_id e \<in> courseEdgeIds cd k} \<union> Collect atSynthetic"
proof (cases "findCourse cd k")
  case None
  then have e: "addCourseElements cd k s = s" by (simp add: addCourseElements_def)
  show ?thesis unfolding e by blast
next
  case (Some c)
  let ?s0 = "s\<lparr>nodesArray := nodesArray s
               @ [newNode k k (k @ '': '' @ title c) (extractGroup k) None None]\<rparr>"
  let ?s1 = "fold (\<lambda>x. addRequirementGraphElements cd x k ''prereq'' k)
               (prerequisites_parsed c) ?s0"
  let ?s2 = "fold (\<lambda>x. addRequirementGraphElements cd x k ''coreq'' k)
               (corequisites_parsed c) ?s1"
  have b: "set (edgesArray ?s0) = set (edgesArray s)" by simp
  have p1: "set (edgesArray ?s1) \<subseteq> set (edgesArray ?s0)
              \<union> (\<Union>x \<in> set (prerequisites_parsed c).
                    {e. edge_to e = k \<and> edge_id e \<in> directEdgeIds cd x k ''prereq''})
              \<union> Collect atSynthetic"
    by (rule fold_subset[where m = "\<lambda>s. set (edgesArray s)"])
       (rule addRequirementGraphElements_edges_subset)
  have p2: "set (edgesArray ?s2) \<subseteq> set (edgesArray ?s1)
              \<union> (\<Union>x \<in> set (corequisites_parsed c).
                    {e. edge_to e = k \<and> edge_id e \<in> directEdgeIds cd x k ''coreq''})
              \<union> Collect atSynthetic"
    by (rule fold_subset[where m = "\<lambda>s. set (edgesArray s)"])
       (rule addRequirementGraphElements_edges_subset)
  from p1 p2 show ?thesis
    unfolding addCourseElements_unfold[OF Some] courseEdgeIds_unfold[OF Some] b by blast
qed

lemma addCourseElements_edge_ids_superset:
  "set (map edge_id (edgesArray s)) \<union> courseEdgeIds cd k
     \<subseteq> set (map edge_id (edgesArray (addCourseElements cd k s)))"
proof (cases "findCourse cd k")
  case None
  then show ?thesis by (simp add: addCourseElements_def courseEdgeIds_def)
next
  case (Some c)
  let ?s0 = "s\<lparr>nodesArray := nodesArray s
               @ [newNode k k (k @ '': '' @ title c) (extractGroup k) None None]\<rparr>"
  let ?s1 = "fold (\<lambda>x. addRequirementGraphElements cd x k ''prereq'' k)
               (prerequisites_parsed c) ?s0"
  let ?s2 = "fold (\<lambda>x. addRequirementGraphElements cd x k ''coreq'' k)
               (corequisites_parsed c) ?s1"
  have b: "set (map edge_id (edgesArray ?s0)) = set (map edge_id (edgesArray s))" by simp
  have q1: "set (map edge_id (edgesArray ?s0))
              \<union> (\<Union>x \<in> set (prerequisites_parsed c). directEdgeIds cd x k ''prereq'')
            \<subseteq> set (map edge_id (edgesArray ?s1))"
    by (rule fold_superset[where m = "\<lambda>s. set (map edge_id (edgesArray s))"])
       (rule addRequirementGraphElements_edge_ids_superset)
  have q2: "set (map edge_id (edgesArray ?s1))
              \<union> (\<Union>x \<in> set (corequisites_parsed c). directEdgeIds cd x k ''coreq'')
            \<subseteq> set (map edge_id (edgesArray ?s2))"
    by (rule fold_superset[where m = "\<lambda>s. set (map edge_id (edgesArray s))"])
       (rule addRequirementGraphElements_edge_ids_superset)
  from q1 q2 show ?thesis
    unfolding addCourseElements_unfold[OF Some] courseEdgeIds_unfold[OF Some] b by blast
qed

lemma displayGraphForCourses_edges_subset:
  "set (allEdgesDataSet (displayGraphForCourses cd codes st))
     \<subseteq> {e. edge_id e \<in> (\<Union>k \<in> set codes. courseEdgeIds cd k)} \<union> Collect atSynthetic"
proof -
  let ?s = "fold (addCourseElements cd) (newSet codes) initialBuildState"
  have z: "set (edgesArray initialBuildState) = {}"
    by (simp add: initialBuildState_def)
  have "set (edgesArray ?s) \<subseteq> set (edgesArray initialBuildState)
          \<union> (\<Union>k \<in> set (newSet codes). {e. edge_id e \<in> courseEdgeIds cd k})
          \<union> Collect atSynthetic"
    by (rule fold_subset[where m = "\<lambda>s. set (edgesArray s)"])
       (rule addCourseElements_edges_subset)
  then show ?thesis unfolding displayGraphForCourses_generated z set_newSet by blast
qed

lemma displayGraphForCourses_edge_ids_superset:
  "(\<Union>k \<in> set codes. courseEdgeIds cd k)
     \<subseteq> set (map edge_id (allEdgesDataSet (displayGraphForCourses cd codes st)))"
proof -
  let ?s = "fold (addCourseElements cd) (newSet codes) initialBuildState"
  have "set (map edge_id (edgesArray initialBuildState))
          \<union> (\<Union>k \<in> set (newSet codes). courseEdgeIds cd k) \<subseteq> set (map edge_id (edgesArray ?s))"
    by (rule fold_superset[where m = "\<lambda>s. set (map edge_id (edgesArray s))"])
       (rule addCourseElements_edge_ids_superset)
  then show ?thesis unfolding displayGraphForCourses_generated set_newSet by blast
qed

lemma mixedCatalog_graphs:
  "map node_id (allNodesDataSet (displayGraphForCourses mixedCatalog [''A'', ''B''] emptyView))
     = [''A'', ''B'', ''textual_A_prereq_1'', ''textual_B_prereq_2'']"
  "map node_id (allNodesDataSet (displayGraphForCourses mixedCatalog [''B'', ''A''] emptyView))
     = [''B'', ''textual_B_prereq_1'', ''A'', ''textual_A_prereq_2'']"
  "map (\<lambda>e. (edge_from e, edge_to e, edge_id e))
     (allEdgesDataSet (displayGraphForCourses mixedCatalog [''A'', ''B''] emptyView))
     = [(''B'', ''A'', ''B_A_prereq''),
        (''textual_A_prereq_1'', ''A'', ''textual_A_prereq_1_A_prereq''),
        (''textual_B_prereq_2'', ''B'', ''textual_B_prereq_2_B_prereq'')]"
  "map edge_id (allEdgesDataSet (displayGraphForCourses mixedCatalog [''B'', ''A''] emptyView))
     = [''textual_B_prereq_1_B_prereq'', ''B_A_prereq'', ''textual_A_prereq_2_A_prereq'']"
  by (simp_all add: build_eval mixedCatalog_def cong: let_weak_cong)

lemma in_map_obtain:
  assumes "y \<in> set (map f xs)"
  shows "\<exists>x \<in> set xs. f x = y"
  using assms by auto

subsection \<open>Program change\<close>

lemma displayGraphForCourses_graph:
  "allNodesDataSet (displayGraphForCourses cd codes st)
     = uniqueNodesById (fst (generateGraphElements cd codes))"
  "allEdgesDataSet (displayGraphForCourses cd codes st) = snd (generateGraphElements cd codes)"
  by (cases "codes = []";
      simp add: displayGraphForCourses_def generateGraphElements_def newSet_def
        initialBuildState_def uniqueNodesById_def split: prod.split)+

lemma displayGraphForCourses_frame:
  "selectedForHighlighting_NodeIds (displayGraphForCourses cd codes st)
     = selectedForHighlighting_NodeIds st"
  "categoryFilterSelect_value (displayGraphForCourses cd codes st) = categoryFilterSelect_value st"
  by (simp_all add: displayGraphForCourses_def split: prod.split)

lemma handleProgramChange_frame:
  "selectedForHighlighting_NodeIds (handleProgramChange cd ps st)
     = selectedForHighlighting_NodeIds st"
  "categoryFilterSelect_value (handleProgramChange cd ps st) = categoryFilterSelect_value st"
  by (simp_all add: handleProgramChange_def Let_def hideLoadingIndicator_def
      displayGraphForCourses_frame hideSidebar_def showLoadingIndicator_def split: option.split)

lemma chainCatalog_relevant:
  "getRelevantCoursesForProgram chainCatalog [''A''] = [''A'', ''B'', ''C'']"
  by code_simp

lemma chainCatalog_graphs:
  "map node_id (uniqueNodesById (fst (generateGraphElements chainCatalog [''A''])))
     = [''A'', ''B'']"
  "map node_id (uniqueNodesById (fst (generateGraphElements chainCatalog [''A'', ''B'', ''C''])))
     = [''A'', ''B'', ''C'']"
  "map edge_id (snd (generateGraphElements chainCatalog [''A''])) = [''B_A_prereq'']"
  "map edge_id (snd (generateGraphElements chainCatalog [''A'', ''B'', ''C'']))
     = [''B_A_prereq'', ''C_B_prereq'']"
  by (simp_all add: build_eval chainCatalog_def cong: let_weak_cong)

lemma chainPrograms_find:
  "find (\<lambda>p. program p = ''P1'') chainPrograms = Some \<lparr>program = ''P1'', courses = [''A'']\<rparr>"
  "find (\<lambda>p. program p = ''P2'') chainPrograms
     = Some \<lparr>program = ''P2'', courses = [''A'', ''D'']\<rparr>"
  by (simp_all add: chainPrograms_def)

subsection \<open>Clicks and the category filter\<close>

lemma set_setAdd: "set (setAdd x s) = insert x (set s)"
  by (auto simp: setAdd_def)

lemma set_highlight_fold:
  "set (fold (\<lambda>x acc. fold setAdd (getConnectedNodes es x) (setAdd x acc)) sel acc)
     = set acc \<union> set sel \<union> (\<Union>x \<in> set sel. set (getConnectedNodes es x))"
  by (induction sel arbitrary: acc) (auto simp: set_fold_setAdd set_setAdd)

lemma set_nodesToFullyHighlight:
  "set (nodesToFullyHighlight es sel) = set sel \<union> (\<Union>x \<in> set sel. set (getConnectedNodes es x))"
  by (simp add: nodesToFullyHighlight_def set_highlight_fold)

lemma render_attributes:
  "node_id (renderNormal net n) = node_id n" "node_id (renderDimmed net n) = node_id n"
  "node_group (renderNormal net n) = node_group n" "node_group (renderDimmed net n) = node_group n"
  "node_opacity (renderNormal net n) = Some 1"
  "node_opacity (renderDimmed net n) = Some (5 / 100)"
  "\<exists>f. node_font (renderDimmed net n) = Some f \<and> font_color f = ''#d9d9d9''
         \<and> font_strokeWidth f = 0"
  "node_borderWidth (renderDimmed net n) = Some 0"
  by (simp_all add: renderNormal_def renderDimmed_def VERY_DIMMED_OPACITY_def
      VERY_DIMMED_TEXT_COLOR_def)

lemma clickRenderNode_cases:
  "clickRenderNode net cat sel hl n =
     (if (cat = ''all'' \<or> node_group n = cat) \<and> (sel = [] \<or> node_id n \<in> set hl)
      then renderNormal net n else renderDimmed net n)"
  by (auto simp: clickRenderNode_def Let_def)

lemma clickRenderNode_id: "node_id (clickRenderNode net cat sel hl n) = node_id n"
  by (simp add: clickRenderNode_cases render_attributes)

lemma clickRenderNode_group: "node_group (clickRenderNode net cat sel hl n) = node_group n"
  by (simp add: clickRenderNode_cases render_attributes)

lemma clickRenderNode_opacity:
  "node_opacity (clickRenderNode net cat sel hl n) =
     (if (cat = ''all'' \<or> node_group n = cat) \<and> (sel = [] \<or> node_id n \<in> set hl)
      then Some 1 else Some (5 / 100))"
  by (simp add: clickRenderNode_cases render_attributes)

lemma clickRenderEdge_ends:
  "edge_from (clickRenderEdge sel hl e) = edge_from e"
  "edge_to (clickRenderEdge sel hl e) = edge_to e"
  "edge_id (clickRenderEdge sel hl e) = edge_id e"
  by (simp_all add: clickRenderEdge_def)

lemma getConnectedNodes_rendered:
  "getConnectedNodes (map (clickRenderEdge sel hl) es) x = getConnectedNodes es x"
  by (induction es) (simp_all add: getConnectedNodes_def clickRenderEdge_ends)

lemma click_node:
  assumes "cid \<noteq> []"
  shows "selectedForHighlighting_NodeIds (handleNetworkClick cd net (cid # ps) st)
           = setAdd cid (selectedForHighlighting_NodeIds st)"
    and "categoryFilterSelect_value (handleNetworkClick cd net (cid # ps) st)
           = categoryFilterSelect_value st"
    and "programSelect_value (handleNetworkClick cd net (cid # ps) st) = programSelect_value st"
    and "allNodesDataSet (handleNetworkClick cd net (cid # ps) st)
           = map (clickRenderNode net (categoryFilterSelect_value st)
                    (setAdd cid (selectedForHighlighting_NodeIds st))
                    (nodesToFullyHighlight (allEdgesDataSet st)
                       (setAdd cid (selectedForHighlighting_NodeIds st))))
               (allNodesDataSet st)"
    and "allEdgesDataSet (handleNetworkClick cd net (cid # ps) st)
           = map (clickRenderEdge (setAdd cid (selectedForHighlighting_NodeIds st))
                    (edgesToFullyHighlight_Ids (allEdgesDataSet st)
                       (setAdd cid (selectedForHighlighting_NodeIds st))))
               (allEdgesDataSet st)"
    and "sidebarContent (handleNetworkClick cd net (cid # ps) st)
           = (case findCourse cd cid of Some c \<Rightarrow> Some c | None \<Rightarrow> sidebarContent st)"
    and "sidebarVisible (handleNetworkClick cd net (cid # ps) st)
           = (case findCourse cd cid of Some c \<Rightarrow> True | None \<Rightarrow> sidebarVisible st)"
  using assms
  by (simp_all add: handleNetworkClick_def Let_def truthyString_def updateSidebar_def
      split: option.split)

lemma click_background:
  "selectedForHighlighting_NodeIds (handleNetworkClick cd net [] st) = []"
  "allNodesDataSet (handleNetworkClick cd net [] st)
     = map (clickRenderNode net (categoryFilterSelect_value st) [] []) (allNodesDataSet st)"
  by (simp_all add: handleNetworkClick_def Let_def truthyString_def nodesToFullyHighlight_def)

lemma click_falsy:
  "selectedForHighlighting_NodeIds (handleNetworkClick cd net ([] # ps) st) = []"
  "allNodesDataSet (handleNetworkClick cd net ([] # ps) st)
     = map (clickRenderNode net (categoryFilterSelect_value st) [] []) (allNodesDataSet st)"
  by (simp_all add: handleNetworkClick_def Let_def truthyString_def nodesToFullyHighlight_def)

lemma click_nodes_any:
  "\<exists>sel hl. allNodesDataSet (handleNetworkClick cd net ps st)
     = map (clickRenderNode net (categoryFilterSelect_value st) sel hl) (allNodesDataSet st)"
proof (cases ps)
  case Nil
  then show ?thesis using click_background(2) by blast
next
  case (Cons cid rest)
  show ?thesis
  proof (cases "cid = []")
    case True
    then show ?thesis using click_falsy(2) Cons by blast
  next
    case False
    then show ?thesis using click_node(4) Cons by blast
  qed
qed

lemma category_nodes:
  "allNodesDataSet (fst (handleCategoryFilterChange net st))
     = map (categoryRenderNode net (categoryFilterSelect_value st)) (allNodesDataSet st)"
  by (simp add: handleCategoryFilterChange_def Let_def split: sum.split)

subsection \<open>Evaluation of the handlers\<close>

lemmas view_eval =
  handleNetworkClick_def handleProgramChange_def truthyString_def updateSidebar_def
  hideSidebar_def showLoadingIndicator_def hideLoadingIndicator_def emptyView_def
  nodesToFullyHighlight_def edgesToFullyHighlight_Ids_def getConnectedNodes_def
  getConnectedEdges_def clickRenderNode_opacity clickRenderNode_id clickRenderEdge_ends

lemma andCatalog_display:
  "map (\<lambda>n. (node_id n, node_group n))
     (allNodesDataSet (displayGraphForCourses andCatalog [''A'', ''B'', ''C''] emptyView))
     = [(''A'', ''A''), (''logic_A_prereq_AND_1'', ''AndNode''), (''B'', ''B''), (''C'', ''C'')]"
  "map (\<lambda>e. (edge_from e, edge_to e))
     (allEdgesDataSet (displayGraphForCourses andCatalog [''A'', ''B'', ''C''] emptyView))
     = [(''logic_A_prereq_AND_1'', ''A''), (''B'', ''logic_A_prereq_AND_1''),
        (''C'', ''logic_A_prereq_AND_1'')]"
  by (simp_all add: build_eval andCatalog_def emptyView_def cong: let_weak_cong)

lemma listCatalog_display:
  "map (\<lambda>n. (node_id n, node_group n))
     (allNodesDataSet (displayGraphForCourses listCatalog [''X'', ''W'', ''Y'', ''Z''] emptyView))
     = [(''X'', ''X''), (''logic_X_prereq_OR_N_OF_1_1'', ''OrNode''), (''Y'', ''Y''), (''Z'', ''Z''),
        (''W'', ''W''), (''n_of_list_W_prereq_2_1'', ''NOfListNode'')]"
  "map (\<lambda>e. (edge_from e, edge_to e))
     (allEdgesDataSet (displayGraphForCourses listCatalog [''X'', ''W'', ''Y'', ''Z''] emptyView))
     = [(''logic_X_prereq_OR_N_OF_1_1'', ''X''), (''Y'', ''logic_X_prereq_OR_N_OF_1_1''),
        (''Z'', ''logic_X_prereq_OR_N_OF_1_1''), (''n_of_list_W_prereq_2_1'', ''W''),
        (''Y'', ''n_of_list_W_prereq_2_1''), (''Z'', ''n_of_list_W_prereq_2_1'')]"
  by (simp_all add: build_eval listCatalog_def emptyView_def cong: let_weak_cong)

lemma map_nth_eq: "map f xs = ys \<Longrightarrow> i < length ys \<Longrightarrow> i < length xs \<and> f (xs ! i) = ys ! i"
  by (metis length_map nth_map)

lemma listCatalog_find_junction: "findCourse listCatalog ''logic_X_prereq_OR_N_OF_1_1'' = None"
  by (simp add: findCourse_def listCatalog_def exampleCourse_def)

lemma junction_click_eval:
  "map (\<lambda>n. (node_id n, node_opacity n))
     (allNodesDataSet
        (handleNetworkClick listCatalog shellNetwork [''logic_X_prereq_OR_N_OF_1_1'']
           (displayGraphForCourses listCatalog [''X'', ''W'', ''Y'', ''Z''] emptyView)))
     = [(''X'', Some 1), (''logic_X_prereq_OR_N_OF_1_1'', Some 1), (''Y'', Some 1),
        (''Z'', Some 1), (''W'', Some (5 / 100)), (''n_of_list_W_prereq_2_1'', Some (5 / 100))]"
  by (simp add: build_eval view_eval listCatalog_def cong: let_weak_cong)

lemma stale_selection_eval:
  "map (\<lambda>n. (node_id n, node_opacity n))
     (allNodesDataSet
        (handleNetworkClick chainCatalog shellNetwork [''D'']
           (handleProgramChange chainCatalog chainPrograms
              ((handleNetworkClick chainCatalog shellNetwork [''A'']
                  (handleProgramChange chainCatalog chainPrograms
                     (emptyView\<lparr>programSelect_value := ''P1''\<rparr>)))
               \<lparr>programSelect_value := ''P2''\<rparr>))))
     = [(''A'', Some 1), (''B'', Some 1), (''D'', Some 1)]"
  by (simp add: build_eval view_eval chainCatalog_def chainPrograms_def cong: let_weak_cong)

lemma fresh_selection_eval:
  "map (\<lambda>n. (node_id n, node_opacity n))
     (allNodesDataSet
        (handleNetworkClick chainCatalog shellNetwork [''D'']
           (handleProgramChange chainCatalog chainPrograms
              (emptyView\<lparr>programSelect_value := ''P2''\<rparr>))))
     = [(''A'', Some (5 / 100)), (''B'', Some (5 / 100)), (''D'', Some 1)]"
  by (simp add: build_eval view_eval chainCatalog_def chainPrograms_def cong: let_weak_cong)

section \<open>The claims\<close>

subsection \<open>Program change and the closure resolver\<close>

text \<open>
  Claim C1, as the script has it. For a program the user selects, the graph handed to the
  rendering layer is built from the program's own list of courses: the builder is given
  \<^verbatim>\<open>program.courses\<close>, and the closure resolver is not called.
\<close>

theorem program_graph_built_from_seed_list:
  "programSelect_value st = name \<Longrightarrow> name \<noteq> [] \<Longrightarrow> name \<noteq> ''all'' \<Longrightarrow>
   find (\<lambda>p. program p = name) programsData = Some p \<Longrightarrow>
     handleProgramChange cd programsData st
       = hideLoadingIndicator
           (displayGraphForCourses cd (courses p) (hideSidebar (showLoadingIndicator st)))
   \<and> allNodesDataSet (handleProgramChange cd programsData st)
       = uniqueNodesById (fst (generateGraphElements cd (courses p)))
   \<and> allEdgesDataSet (handleProgramChange cd programsData st)
       = snd (generateGraphElements cd (courses p))"
  by (simp add: handleProgramChange_def Let_def hideLoadingIndicator_def
      displayGraphForCourses_graph)

theorem program_graph_built_from_seed_list_witness:
  "map node_id (allNodesDataSet
      (handleProgramChange chainCatalog chainPrograms (emptyView\<lparr>programSelect_value := ''P1''\<rparr>)))
     = [''A'', ''B'']
   \<and> map edge_id (allEdgesDataSet
      (handleProgramChange chainCatalog chainPrograms (emptyView\<lparr>programSelect_value := ''P1''\<rparr>)))
     = [''B_A_prereq'']"
proof -
  have sel: "programSelect_value (emptyView\<lparr>programSelect_value := ''P1''\<rparr>) = ''P1''"
    and ne: "''P1'' \<noteq> []" "''P1'' \<noteq> ''all''"
    by simp_all
  show ?thesis
    using program_graph_built_from_seed_list[OF sel ne chainPrograms_find(1), of chainCatalog,
        THEN conjunct2]
    by (simp add: chainCatalog_graphs)
qed

text \<open>
  Claim C1, as the specification states it, fails: for the program \<open>P1\<close> with the single
  course \<open>A\<close>, the closure resolver returns \<open>A\<close>, \<open>B\<close>, \<open>C\<close>, and the graph shown is not
  the graph built from that list.
\<close>

theorem program_graph_not_from_closure_counterexample:
  "find (\<lambda>p. program p = ''P1'') chainPrograms = Some \<lparr>program = ''P1'', courses = [''A'']\<rparr>
   \<and> getRelevantCoursesForProgram chainCatalog [''A''] = [''A'', ''B'', ''C'']
   \<and> allNodesDataSet
        (handleProgramChange chainCatalog chainPrograms (emptyView\<lparr>programSelect_value := ''P1''\<rparr>))
     \<noteq> allNodesDataSet
        (displayGraphForCourses chainCatalog (getRelevantCoursesForProgram chainCatalog [''A''])
           (emptyView\<lparr>programSelect_value := ''P1''\<rparr>))
   \<and> allEdgesDataSet
        (handleProgramChange chainCatalog chainPrograms (emptyView\<lparr>programSelect_value := ''P1''\<rparr>))
     \<noteq> allEdgesDataSet
        (displayGraphForCourses chainCatalog (getRelevantCoursesForProgram chainCatalog [''A''])
           (emptyView\<lparr>programSelect_value := ''P1''\<rparr>))"
proof -
  let ?st = "emptyView\<lparr>programSelect_value := ''P1''\<rparr>"
  have h: "allNodesDataSet (handleProgramChange chainCatalog chainPrograms ?st)
             = uniqueNodesById (fst (generateGraphElements chainCatalog [''A'']))"
    "allEdgesDataSet (handleProgramChange chainCatalog chainPrograms ?st)
             = snd (generateGraphElements chainCatalog [''A''])"
    by (simp_all add: handleProgramChange_def Let_def hideLoadingIndicator_def
        displayGraphForCourses_graph chainPrograms_find)
  have "map node_id (uniqueNodesById (fst (generateGraphElements chainCatalog [''A''])))
          \<noteq> map node_id (uniqueNodesById
                (fst (generateGraphElements chainCatalog [''A'', ''B'', ''C''])))"
    unfolding chainCatalog_graphs by simp
  then have n: "uniqueNodesById (fst (generateGraphElements chainCatalog [''A'']))
          \<noteq> uniqueNodesById (fst (generateGraphElements chainCatalog [''A'', ''B'', ''C'']))"
    by metis
  have "map edge_id (snd (generateGraphElements chainCatalog [''A'']))
          \<noteq> map edge_id (snd (generateGraphElements chainCatalog [''A'', ''B'', ''C'']))"
    unfolding chainCatalog_graphs by simp
  then have e: "snd (generateGraphElements chainCatalog [''A''])
          \<noteq> snd (generateGraphElements chainCatalog [''A'', ''B'', ''C''])"
    by metis
  show ?thesis
    unfolding h chainCatalog_relevant displayGraphForCourses_graph
    using n e chainPrograms_find(1) by simp
qed

subsection \<open>Selection across a program change\<close>

text \<open>
  Claim C2 on the script. The program \<open>P1\<close> is shown and its node \<open>A\<close> is clicked; then
  the program \<open>P2\<close> is chosen. The category filter is unchanged, but the selection still
  holds \<open>A\<close>: \<^verbatim>\<open>handleProgramChange\<close> does not clear it, as the category handler and
  the click on the background do. A click on \<open>D\<close> in the new graph then highlights \<open>A\<close>
  and its neighbour \<open>B\<close> too, which it does not when \<open>P2\<close> is shown first.
\<close>

theorem program_change_keeps_stale_selection:
  "selectedForHighlighting_NodeIds
     (handleProgramChange chainCatalog chainPrograms
        ((handleNetworkClick chainCatalog shellNetwork [''A'']
            (handleProgramChange chainCatalog chainPrograms
               (emptyView\<lparr>programSelect_value := ''P1''\<rparr>)))
         \<lparr>programSelect_value := ''P2''\<rparr>)) = [''A'']
   \<and> categoryFilterSelect_value
     (handleProgramChange chainCatalog chainPrograms
        ((handleNetworkClick chainCatalog shellNetwork [''A'']
            (handleProgramChange chainCatalog chainPrograms
               (emptyView\<lparr>programSelect_value := ''P1''\<rparr>)))
         \<lparr>programSelect_value := ''P2''\<rparr>)) = ''all''
   \<and> map (\<lambda>n. (node_id n, node_opacity n))
     (allNodesDataSet
        (handleNetworkClick chainCatalog shellNetwork [''D'']
           (handleProgramChange chainCatalog chainPrograms
              ((handleNetworkClick chainCatalog shellNetwork [''A'']
                  (handleProgramChange chainCatalog chainPrograms
                     (emptyView\<lparr>programSelect_value := ''P1''\<rparr>)))
               \<lparr>programSelect_value := ''P2''\<rparr>))))
     = [(''A'', Some 1), (''B'', Some 1), (''D'', Some 1)]
   \<and> map (\<lambda>n. (node_id n, node_opacity n))
     (allNodesDataSet
        (handleNetworkClick chainCatalog shellNetwork [''D'']
           (handleProgramChange chainCatalog chainPrograms
              (emptyView\<lparr>programSelect_value := ''P2''\<rparr>))))
     = [(''A'', Some (5 / 100)), (''B'', Some (5 / 100)), (''D'', Some 1)]"
proof -
  have a: "''A'' \<noteq> []" by simp
  have "selectedForHighlighting_NodeIds
     (handleProgramChange chainCatalog chainPrograms
        ((handleNetworkClick chainCatalog shellNetwork [''A'']
            (handleProgramChange chainCatalog chainPrograms
               (emptyView\<lparr>programSelect_value := ''P1''\<rparr>)))
         \<lparr>programSelect_value := ''P2''\<rparr>)) = [''A'']"
    by (simp add: handleProgramChange_frame click_node(1)[OF a] setAdd_def emptyView_def)
  moreover have "categoryFilterSelect_value
     (handleProgramChange chainCatalog chainPrograms
        ((handleNetworkClick chainCatalog shellNetwork [''A'']
            (handleProgramChange chainCatalog chainPrograms
               (emptyView\<lparr>programSelect_value := ''P1''\<rparr>)))
         \<lparr>programSelect_value := ''P2''\<rparr>)) = ''all''"
    by (simp add: handleProgramChange_frame click_node(2)[OF a] emptyView_def)
  ultimately show ?thesis using stale_selection_eval fresh_selection_eval by simp
qed

subsection \<open>Unique identifiers\<close>

text \<open>
  Claim C3. For every display list, no two nodes and no two edges delivered to the rendering
  layer have the same identifier. Of several nodes built with one identifier the first is
  the one delivered; an edge whose identifier is already present is not added, so the
  first edge stays. In terms of the elements in the order in which the builder makes them
  (\<open>producedElements\<close>): under every identifier the delivered node is the first node made
  with it and the delivered edge is the first edge made with it, and where none is made
  none is delivered.
\<close>

theorem build_ids_unique_first_kept:
  "distinct (map node_id (allNodesDataSet (displayGraphForCourses cd codes st)))
   \<and> distinct (map edge_id (allEdgesDataSet (displayGraphForCourses cd codes st)))
   \<and> (\<forall>i. nodeById i (allNodesDataSet (displayGraphForCourses cd codes st))
            = nodeById i (fst (generateGraphElements cd codes)))
   \<and> (\<forall>e edges. edge_id e \<in> set (map edge_id edges) \<longrightarrow> pushEdgeIfAbsent e edges = edges)
   \<and> allEdgesDataSet (displayGraphForCourses cd codes st) = snd (generateGraphElements cd codes)
   \<and> (\<forall>i. nodeById i (allNodesDataSet (displayGraphForCourses cd codes st))
            = nodeById i (fst (producedElements cd codes)))
   \<and> (\<forall>i. edgeById i (allEdgesDataSet (displayGraphForCourses cd codes st))
            = edgeById i (snd (producedElements cd codes)))"
proof -
  have first: "distinct (map node_id (allNodesDataSet (displayGraphForCourses cd codes st)))
   \<and> distinct (map edge_id (allEdgesDataSet (displayGraphForCourses cd codes st)))
   \<and> (\<forall>i. nodeById i (allNodesDataSet (displayGraphForCourses cd codes st))
            = nodeById i (fst (generateGraphElements cd codes)))
   \<and> (\<forall>e edges. edge_id e \<in> set (map edge_id edges) \<longrightarrow> pushEdgeIfAbsent e edges = edges)
   \<and> allEdgesDataSet (displayGraphForCourses cd codes st) = snd (generateGraphElements cd codes)"
  proof (cases "codes = []")
    case True
    then show ?thesis
      by (simp add: displayGraphForCourses_def generateGraphElements_def newSet_def
          initialBuildState_def pushEdgeIfAbsent_eq)
  next
    case False
    obtain nodes edges where g: "generateGraphElements cd codes = (nodes, edges)"
      by (cases "generateGraphElements cd codes")
    have "distinct (map edge_id edges)"
      using generateGraphElements_edges_distinct[of cd codes] g by simp
    moreover have "distinct (map node_id (uniqueNodesById nodes))"
      unfolding uniqueNodesById_def by (rule fold_pushNode_distinct) simp
    moreover have "nodeById i (uniqueNodesById nodes) = nodeById i nodes" for i
      unfolding uniqueNodesById_def by (simp add: fold_pushNode_first nodeById_Nil)
    ultimately show ?thesis using False g
      by (simp add: displayGraphForCourses_def pushEdgeIfAbsent_eq)
  qed
  have n: "nodeById i (allNodesDataSet (displayGraphForCourses cd codes st))
            = nodeById i (fst (producedElements cd codes))" for i
    unfolding displayGraphForCourses_produced uniqueNodesById_def
    by (simp add: fold_pushNode_first nodeById_Nil)
  have e: "edgeById i (allEdgesDataSet (displayGraphForCourses cd codes st))
            = edgeById i (snd (producedElements cd codes))" for i
    unfolding displayGraphForCourses_produced uniqueEdgesById_def
    by (simp add: fold_pushEdge_first edgeById_Nil)
  from first n e show ?thesis by blast
qed

theorem build_ids_unique_first_kept_witness:
  "\<not> distinct (map node_id (fst (generateGraphElements andCatalog [''A'', ''B'', ''C''])))
   \<and> distinct (map node_id
         (allNodesDataSet (displayGraphForCourses andCatalog [''A'', ''B'', ''C''] emptyView)))
   \<and> distinct (map edge_id
         (allEdgesDataSet (displayGraphForCourses andCatalog [''A'', ''B'', ''C''] emptyView)))
   \<and> map (\<lambda>e. (edge_from e, edge_to e, edge_id e))
        (snd (producedElements clashCatalog [''Y_Z'', ''Z'']))
      = [(''X'', ''Y_Z'', ''X_Y_Z_prereq''), (''X_Y'', ''Z'', ''X_Y_Z_prereq'')]
   \<and> distinct (map edge_id
         (allEdgesDataSet (displayGraphForCourses clashCatalog [''Y_Z'', ''Z''] emptyView)))
   \<and> map_option (\<lambda>e. (edge_from e, edge_to e))
        (edgeById ''X_Y_Z_prereq''
           (allEdgesDataSet (displayGraphForCourses clashCatalog [''Y_Z'', ''Z''] emptyView)))
      = Some (''X'', ''Y_Z'')"
proof -
  have dup: "\<not> distinct (map node_id (fst (generateGraphElements andCatalog [''A'', ''B'', ''C''])))"
    by (simp add: andCatalog_nodes)
  note a = build_ids_unique_first_kept[of andCatalog "[''A'', ''B'', ''C'']" emptyView]
  note c = build_ids_unique_first_kept[of clashCatalog "[''Y_Z'', ''Z'']" emptyView]
  from c have "edgeById ''X_Y_Z_prereq''
           (allEdgesDataSet (displayGraphForCourses clashCatalog [''Y_Z'', ''Z''] emptyView))
      = edgeById ''X_Y_Z_prereq'' (snd (producedElements clashCatalog [''Y_Z'', ''Z'']))"
    by blast
  then have k: "map_option (\<lambda>e. (edge_from e, edge_to e))
        (edgeById ''X_Y_Z_prereq''
           (allEdgesDataSet (displayGraphForCourses clashCatalog [''Y_Z'', ''Z''] emptyView)))
      = Some (''X'', ''Y_Z'')"
    by (simp only: clashCatalog_produced(2))
  from a have a1: "distinct (map node_id
         (allNodesDataSet (displayGraphForCourses andCatalog [''A'', ''B'', ''C''] emptyView)))"
    and a2: "distinct (map edge_id
         (allEdgesDataSet (displayGraphForCourses andCatalog [''A'', ''B'', ''C''] emptyView)))"
    by blast+
  from c have c2: "distinct (map edge_id
         (allEdgesDataSet (displayGraphForCourses clashCatalog [''Y_Z'', ''Z''] emptyView)))"
    by blast
  from dup a1 a2 clashCatalog_produced(1) c2 k show ?thesis by (intro conjI)
qed

subsection \<open>Order of the display list\<close>

text \<open>
  Claim C4, as the script has it. The build is a function of the display list taken as a
  \<^verbatim>\<open>Set\<close>, that is, of the sequence of first occurrences of its codes: two lists
  with the same such sequence give the same nodes and edges. For two lists that hold the
  same codes in any order, the two builds have the same identifiers apart from those that
  carry a counter of the build pass: every node of one build has an identifier that begins
  with \<open>logic_\<close>, \<open>textual_\<close> or \<open>n_of_list_\<close>, as those of junctions and free-text nodes
  do, or its identifier is a node identifier of the other build; and every edge of one
  build has a node with such an identifier at one of its ends, or its identifier is an edge
  identifier of the other build. In particular the two builds have the same course nodes
  when no code of the catalogue begins like a made-up identifier.
\<close>

theorem build_order_independent_part:
  "(newSet xs = newSet ys \<longrightarrow>
      generateGraphElements cd xs = generateGraphElements cd ys
      \<and> displayGraphForCourses cd xs st = displayGraphForCourses cd ys st)
   \<and> (set xs = set ys \<and> (\<forall>k \<in> catalogCodes cd. \<not> synthetic k) \<longrightarrow>
      courseNodeIds cd (allNodesDataSet (displayGraphForCourses cd xs st))
        = courseNodeIds cd (allNodesDataSet (displayGraphForCourses cd ys st)))
   \<and> (set xs = set ys \<longrightarrow>
        (\<forall>n \<in> set (allNodesDataSet (displayGraphForCourses cd xs st)).
            synthetic (node_id n)
            \<or> node_id n \<in> set (map node_id (allNodesDataSet (displayGraphForCourses cd ys st))))
        \<and> (\<forall>e \<in> set (allEdgesDataSet (displayGraphForCourses cd xs st)).
            synthetic (edge_from e) \<or> synthetic (edge_to e)
            \<or> edge_id e \<in> set (map edge_id (allEdgesDataSet (displayGraphForCourses cd ys st)))))"
proof (intro conjI impI ballI)
  assume eq: "newSet xs = newSet ys"
  then have "xs = [] \<longleftrightarrow> ys = []" using newSet_empty by metis
  with eq show "generateGraphElements cd xs = generateGraphElements cd ys"
    and "displayGraphForCourses cd xs st = displayGraphForCourses cd ys st"
    by (simp_all add: generateGraphElements_def displayGraphForCourses_def)
next
  assume "set xs = set ys \<and> (\<forall>k \<in> catalogCodes cd. \<not> synthetic k)"
  then show "courseNodeIds cd (allNodesDataSet (displayGraphForCourses cd xs st))
        = courseNodeIds cd (allNodesDataSet (displayGraphForCourses cd ys st))"
    by (simp add: displayGraphForCourses_courseNodeIds)
next
  fix n
  assume s: "set xs = set ys"
    and n: "n \<in> set (allNodesDataSet (displayGraphForCourses cd xs st))"
  from n have "node_id n \<in> set (map node_id (allNodesDataSet (displayGraphForCourses cd xs st)))"
    by simp
  then have "node_id n \<in> (\<Union>k \<in> set xs. courseRefs cd k) \<union> Collect synthetic"
    using displayGraphForCourses_node_ids_subset[of cd xs st] by blast
  moreover have "(\<Union>k \<in> set xs. courseRefs cd k)
      \<subseteq> set (map node_id (allNodesDataSet (displayGraphForCourses cd ys st)))"
    unfolding s by (rule displayGraphForCourses_node_ids_superset)
  ultimately show "synthetic (node_id n)
      \<or> node_id n \<in> set (map node_id (allNodesDataSet (displayGraphForCourses cd ys st)))"
    by blast
next
  fix e
  assume s: "set xs = set ys"
    and e: "e \<in> set (allEdgesDataSet (displayGraphForCourses cd xs st))"
  from e have "e \<in> {e. edge_id e \<in> (\<Union>k \<in> set xs. courseEdgeIds cd k)} \<union> Collect atSynthetic"
    using displayGraphForCourses_edges_subset[of cd xs st] by blast
  then have "atSynthetic e \<or> edge_id e \<in> (\<Union>k \<in> set xs. courseEdgeIds cd k)" by blast
  moreover have "(\<Union>k \<in> set xs. courseEdgeIds cd k)
      \<subseteq> set (map edge_id (allEdgesDataSet (displayGraphForCourses cd ys st)))"
    unfolding s by (rule displayGraphForCourses_edge_ids_superset)
  ultimately show "synthetic (edge_from e) \<or> synthetic (edge_to e)
      \<or> edge_id e \<in> set (map edge_id (allEdgesDataSet (displayGraphForCourses cd ys st)))"
    unfolding atSynthetic_def by blast
qed

theorem build_order_independent_part_witness:
  "generateGraphElements textCatalog [''P'', ''Q'', ''P'']
     = generateGraphElements textCatalog [''P'', ''Q'', ''Q'']
   \<and> displayGraphForCourses textCatalog [''P'', ''Q'', ''P''] emptyView
     = displayGraphForCourses textCatalog [''P'', ''Q'', ''Q''] emptyView
   \<and> courseNodeIds textCatalog
        (allNodesDataSet (displayGraphForCourses textCatalog [''P'', ''Q''] emptyView))
     = courseNodeIds textCatalog
        (allNodesDataSet (displayGraphForCourses textCatalog [''Q'', ''P''] emptyView))
   \<and> set [''A'', ''B''] = set [''B'', ''A'']
   \<and> ''B'' \<in> set (map node_id
        (allNodesDataSet (displayGraphForCourses mixedCatalog [''A'', ''B''] emptyView)))
   \<and> ''B'' \<in> set (map node_id
        (allNodesDataSet (displayGraphForCourses mixedCatalog [''B'', ''A''] emptyView)))
   \<and> ''B_A_prereq'' \<in> set (map edge_id
        (allEdgesDataSet (displayGraphForCourses mixedCatalog [''A'', ''B''] emptyView)))
   \<and> ''B_A_prereq'' \<in> set (map edge_id
        (allEdgesDataSet (displayGraphForCourses mixedCatalog [''B'', ''A''] emptyView)))"
proof -
  have a: "newSet [''P'', ''Q'', ''P''] = newSet [''P'', ''Q'', ''Q'']"
    by (simp add: newSet_def setAdd_def)
  have b: "set [''P'', ''Q''] = set [''Q'', ''P'']" by (simp add: insert_commute)
  have c: "\<forall>k \<in> catalogCodes textCatalog. \<not> synthetic k"
    by (simp add: catalogCodes_def textCatalog_def exampleCourse_def synthetic_def
        startsWith_def)
  have old: "generateGraphElements textCatalog [''P'', ''Q'', ''P'']
     = generateGraphElements textCatalog [''P'', ''Q'', ''Q'']
   \<and> displayGraphForCourses textCatalog [''P'', ''Q'', ''P''] emptyView
     = displayGraphForCourses textCatalog [''P'', ''Q'', ''Q''] emptyView
   \<and> courseNodeIds textCatalog
        (allNodesDataSet (displayGraphForCourses textCatalog [''P'', ''Q''] emptyView))
     = courseNodeIds textCatalog
        (allNodesDataSet (displayGraphForCourses textCatalog [''Q'', ''P''] emptyView))"
    using build_order_independent_part[of "[''P'', ''Q'', ''P'']" "[''P'', ''Q'', ''Q'']"
        textCatalog emptyView, THEN conjunct1]
      build_order_independent_part[of "[''P'', ''Q'']" "[''Q'', ''P'']" textCatalog emptyView,
        THEN conjunct2, THEN conjunct1]
      a b c
    by blast
  have s: "set [''A'', ''B''] = set [''B'', ''A'']" by (simp add: insert_commute)
  note m = build_order_independent_part[of "[''A'', ''B'']" "[''B'', ''A'']" mixedCatalog
      emptyView, THEN conjunct2, THEN conjunct2, rule_format, OF s]
  have plain: "\<not> synthetic ''A''" "\<not> synthetic ''B''"
    by (simp_all add: synthetic_def startsWith_def)
  have n1: "''B'' \<in> set (map node_id
        (allNodesDataSet (displayGraphForCourses mixedCatalog [''A'', ''B''] emptyView)))"
    unfolding mixedCatalog_graphs by simp
  then obtain n where n: "n \<in> set (allNodesDataSet
        (displayGraphForCourses mixedCatalog [''A'', ''B''] emptyView))" "node_id n = ''B''"
    using in_map_obtain by fastforce
  have n2: "''B'' \<in> set (map node_id
        (allNodesDataSet (displayGraphForCourses mixedCatalog [''B'', ''A''] emptyView)))"
    using m[THEN conjunct1, rule_format, OF n(1)] plain(2) unfolding n(2) by blast
  have "(''B'', ''A'', ''B_A_prereq'') \<in> set (map (\<lambda>e. (edge_from e, edge_to e, edge_id e))
     (allEdgesDataSet (displayGraphForCourses mixedCatalog [''A'', ''B''] emptyView)))"
    unfolding mixedCatalog_graphs by simp
  then obtain e where e: "e \<in> set (allEdgesDataSet
        (displayGraphForCourses mixedCatalog [''A'', ''B''] emptyView))"
      "(edge_from e, edge_to e, edge_id e) = (''B'', ''A'', ''B_A_prereq'')"
    using in_map_obtain[of _ "\<lambda>e. (edge_from e, edge_to e, edge_id e)"] by blast
  from e(2) have e': "edge_from e = ''B''" "edge_to e = ''A''" "edge_id e = ''B_A_prereq''"
    by simp_all
  have e1: "''B_A_prereq'' \<in> set (map edge_id
        (allEdgesDataSet (displayGraphForCourses mixedCatalog [''A'', ''B''] emptyView)))"
    using e(1) e'(3) by force
  have e2: "''B_A_prereq'' \<in> set (map edge_id
        (allEdgesDataSet (displayGraphForCourses mixedCatalog [''B'', ''A''] emptyView)))"
    using m[THEN conjunct2, rule_format, OF e(1)] plain unfolding e' by blast
  from old s n1 n2 e1 e2 show ?thesis by (intro conjI) blast+
qed

text \<open>
  Claim C4, as the specification states it, fails: the lists \<open>P, Q\<close> and \<open>Q, P\<close> hold the
  same codes, and the two builds differ in the set of node identifiers and in the set of
  edge identifiers.
\<close>

theorem build_order_dependent_counterexample:
  "set [''P'', ''Q''] = set [''Q'', ''P'']
   \<and> set (map node_id (allNodesDataSet (displayGraphForCourses textCatalog [''P'', ''Q''] emptyView)))
     \<noteq> set (map node_id (allNodesDataSet (displayGraphForCourses textCatalog [''Q'', ''P''] emptyView)))
   \<and> set (map edge_id (allEdgesDataSet (displayGraphForCourses textCatalog [''P'', ''Q''] emptyView)))
     \<noteq> set (map edge_id (allEdgesDataSet (displayGraphForCourses textCatalog [''Q'', ''P''] emptyView)))"
proof -
  have n: "''textual_P_prereq_1'' \<in> set [''P'', ''textual_P_prereq_1'', ''Q'', ''textual_Q_prereq_2'']"
    "''textual_P_prereq_1'' \<notin> set [''Q'', ''textual_Q_prereq_1'', ''P'', ''textual_P_prereq_2'']"
    by simp_all
  have e: "''textual_P_prereq_1_P_prereq''
             \<in> set [''textual_P_prereq_1_P_prereq'', ''textual_Q_prereq_2_Q_prereq'']"
    "''textual_P_prereq_1_P_prereq''
             \<notin> set [''textual_Q_prereq_1_Q_prereq'', ''textual_P_prereq_2_P_prereq'']"
    by simp_all
  have "set [''P'', ''Q''] = set [''Q'', ''P'']" by (simp add: insert_commute)
  moreover from n have "set [''P'', ''textual_P_prereq_1'', ''Q'', ''textual_Q_prereq_2'']
      \<noteq> set [''Q'', ''textual_Q_prereq_1'', ''P'', ''textual_P_prereq_2'']" by metis
  moreover from e have "set [''textual_P_prereq_1_P_prereq'', ''textual_Q_prereq_2_Q_prereq'']
      \<noteq> set [''textual_Q_prereq_1_Q_prereq'', ''textual_P_prereq_2_P_prereq'']" by metis
  ultimately show ?thesis unfolding textCatalog_graphs by blast
qed

subsection \<open>Requirements the closure resolver does not enter\<close>

text \<open>
  Claim C5. The closure resolver does not descend into free-text or N-of-list requirements:
  its result is exactly the set of the seeds found in the catalogue closed under the
  references made through course references and logical operators. So every code of the
  result is such a seed or is referred to, through operators only, by a course of the
  result; a course referenced only inside an N-of-list or in free text is absent.
\<close>

theorem relevant_set_is_operator_closure:
  "set (getRelevantCoursesForProgram cd seeds) = closure cd seeds
   \<and> (\<forall>d \<in> set (getRelevantCoursesForProgram cd seeds).
         (d \<in> set seeds \<and> findCourse cd d \<noteq> None)
       \<or> (\<exists>k c r. k \<in> set (getRelevantCoursesForProgram cd seeds)
              \<and> findCourse cd k = Some c
              \<and> r \<in> set (prerequisites_parsed c) \<union> set (corequisites_parsed c)
              \<and> d \<in> viaOperators r))"
proof -
  have sub: "set (getRelevantCoursesForProgram cd seeds) \<subseteq> closure cd seeds"
    by (rule relevant_within_closure)
  then have eq: "set (getRelevantCoursesForProgram cd seeds) = closure cd seeds"
    using closure_within_relevant_set by blast
  have "(d \<in> set seeds \<and> findCourse cd d \<noteq> None)
       \<or> (\<exists>k c r. k \<in> closure cd seeds \<and> findCourse cd k = Some c
              \<and> r \<in> set (prerequisites_parsed c) \<union> set (corequisites_parsed c)
              \<and> d \<in> viaOperators r)"
    if "d \<in> closure cd seeds" for d
    using that by (cases rule: closure.cases) blast+
  then show ?thesis unfolding eq by blast
qed

theorem relevant_set_is_operator_closure_witness:
  "set (getRelevantCoursesForProgram listCatalog [''X'']) = closure listCatalog [''X'']
   \<and> findCourse listCatalog ''Y'' \<noteq> None
   \<and> ''Y'' \<notin> set (getRelevantCoursesForProgram listCatalog [''X''])
   \<and> ''Y'' \<notin> closure listCatalog [''X'']"
proof -
  have a: "findCourse listCatalog ''Y'' \<noteq> None"
    by (simp add: findCourse_def listCatalog_def exampleCourse_def)
  have b: "''Y'' \<notin> set (getRelevantCoursesForProgram listCatalog [''X''])"
    by (simp add: listCatalog_relevant)
  show ?thesis
    using relevant_set_is_operator_closure[of listCatalog "[''X'']", THEN conjunct1] a b
    by blast
qed

subsection \<open>N-of-list junctions\<close>



subsection \<open>Category before selection\<close>

text \<open>
  Claim C7. In the render derivation category membership comes before selection: a node
  whose category differs from a category filter other than \<open>all\<close> is rendered fully dimmed
  (opacity 0.05, text colour \<open>#d9d9d9\<close>, no text stroke, border width 0) by the click
  handler, whatever was clicked and whatever is selected, and by the category handler.
\<close>

theorem out_of_category_always_dimmed:
  "categoryFilterSelect_value st \<noteq> ''all'' \<Longrightarrow> i < length (allNodesDataSet st) \<Longrightarrow>
   node_group (allNodesDataSet st ! i) \<noteq> categoryFilterSelect_value st \<Longrightarrow>
     (let n' = allNodesDataSet (handleNetworkClick cd net ps st) ! i
      in node_id n' = node_id (allNodesDataSet st ! i)
         \<and> node_opacity n' = Some (5 / 100)
         \<and> (\<exists>f. node_font n' = Some f \<and> font_color f = ''#d9d9d9''
                \<and> font_strokeWidth f = 0)
         \<and> node_borderWidth n' = Some 0)
   \<and> (let n' = allNodesDataSet (fst (handleCategoryFilterChange net st)) ! i
      in node_id n' = node_id (allNodesDataSet st ! i)
         \<and> node_opacity n' = Some (5 / 100)
         \<and> (\<exists>f. node_font n' = Some f \<and> font_color f = ''#d9d9d9''
                \<and> font_strokeWidth f = 0)
         \<and> node_borderWidth n' = Some 0)"
proof -
  assume a: "categoryFilterSelect_value st \<noteq> ''all''" "i < length (allNodesDataSet st)"
    "node_group (allNodesDataSet st ! i) \<noteq> categoryFilterSelect_value st"
  obtain sel hl where c: "allNodesDataSet (handleNetworkClick cd net ps st)
     = map (clickRenderNode net (categoryFilterSelect_value st) sel hl) (allNodesDataSet st)"
    using click_nodes_any by blast
  have "clickRenderNode net (categoryFilterSelect_value st) sel hl (allNodesDataSet st ! i)
          = renderDimmed net (allNodesDataSet st ! i)"
    using a by (simp add: clickRenderNode_cases)
  moreover have "categoryRenderNode net (categoryFilterSelect_value st) (allNodesDataSet st ! i)
          = renderDimmed net (allNodesDataSet st ! i)"
    using a by (simp add: categoryRenderNode_def)
  ultimately show ?thesis
    using a(2) by (simp add: c category_nodes render_attributes Let_def)
qed

theorem out_of_category_always_dimmed_witness:
  "''A'' \<in> set (selectedForHighlighting_NodeIds
      (handleNetworkClick andCatalog shellNetwork [''A'']
         ((displayGraphForCourses andCatalog [''A'', ''B'', ''C''] emptyView)
            \<lparr>categoryFilterSelect_value := ''B''\<rparr>)))
   \<and> node_id (allNodesDataSet
        (handleNetworkClick andCatalog shellNetwork [''A'']
           ((displayGraphForCourses andCatalog [''A'', ''B'', ''C''] emptyView)
              \<lparr>categoryFilterSelect_value := ''B''\<rparr>)) ! 0) = ''A''
   \<and> node_opacity (allNodesDataSet
        (handleNetworkClick andCatalog shellNetwork [''A'']
           ((displayGraphForCourses andCatalog [''A'', ''B'', ''C''] emptyView)
              \<lparr>categoryFilterSelect_value := ''B''\<rparr>)) ! 0) = Some (5 / 100)
   \<and> node_borderWidth (allNodesDataSet
        (handleNetworkClick andCatalog shellNetwork [''A'']
           ((displayGraphForCourses andCatalog [''A'', ''B'', ''C''] emptyView)
              \<lparr>categoryFilterSelect_value := ''B''\<rparr>)) ! 0) = Some 0"
proof -
  let ?g = "displayGraphForCourses andCatalog [''A'', ''B'', ''C''] emptyView"
  let ?st = "?g\<lparr>categoryFilterSelect_value := ''B''\<rparr>"
  have n: "0 < length (allNodesDataSet ?g)
        \<and> (\<lambda>n. (node_id n, node_group n)) (allNodesDataSet ?g ! 0) = (''A'', ''A'')"
    using map_nth_eq[OF andCatalog_display(1), of 0] by simp
  have h: "categoryFilterSelect_value ?st \<noteq> ''all''" "0 < length (allNodesDataSet ?st)"
    "node_group (allNodesDataSet ?st ! 0) \<noteq> categoryFilterSelect_value ?st"
    using n by simp_all
  have s: "''A'' \<in> set (selectedForHighlighting_NodeIds
      (handleNetworkClick andCatalog shellNetwork [''A''] ?st))"
    by (simp add: click_node(1) set_setAdd)
  show ?thesis
    using out_of_category_always_dimmed[OF h, where cd = andCatalog and net = shellNetwork
          and ps = "[''A'']",
        THEN conjunct1] n s
    by (simp add: Let_def)
qed

subsection \<open>Seeds of the closure\<close>

text \<open>
  Claim C8. For every seed list the result of the closure resolver contains every seed code
  that is found in the catalogue. A code that is not in the catalogue is dropped without
  an error: it is neither in the result nor in the queue when the traversal ends, and the
  queue is only ever appended to, so it was at no time in the frontier.
\<close>

theorem relevant_set_keeps_resolved_seeds:
  "{k \<in> set seeds. findCourse cd k \<noteq> None} \<subseteq> set (getRelevantCoursesForProgram cd seeds)
   \<and> (\<forall>k. findCourse cd k = None \<longrightarrow>
          k \<notin> set (getRelevantCoursesForProgram cd seeds)
        \<and> k \<notin> set (snd (relevantTraversal cd seeds)))"
proof -
  let ?q = "filter (\<lambda>k. findCourse cd k \<noteq> None) seeds"
  from relevantTraversal_grows[of cd seeds] obtain new where
    new: "relevantTraversal cd seeds = (newSet ?q @ new, ?q @ new)" "set new \<subseteq> catalogCodes cd"
    by (auto simp: grows_def)
  have "set ?q \<subseteq> catalogCodes cd" by (auto simp: findCourse_None)
  with new show ?thesis
    by (auto simp: getRelevantCoursesForProgram_def set_newSet findCourse_None)
qed

theorem relevant_set_keeps_resolved_seeds_witness:
  "getRelevantCoursesForProgram andCatalog [''A'', ''FAKE-999''] = [''A'', ''B'', ''C'']
   \<and> ''A'' \<in> set (getRelevantCoursesForProgram andCatalog [''A'', ''FAKE-999''])
   \<and> ''FAKE-999'' \<notin> set (getRelevantCoursesForProgram andCatalog [''A'', ''FAKE-999''])
   \<and> ''FAKE-999'' \<notin> set (snd (relevantTraversal andCatalog [''A'', ''FAKE-999'']))"
proof -
  have a: "findCourse andCatalog ''A'' \<noteq> None" "findCourse andCatalog ''FAKE-999'' = None"
    by (simp_all add: findCourse_def andCatalog_def exampleCourse_def)
  show ?thesis
    using relevant_set_keeps_resolved_seeds[of "[''A'', ''FAKE-999'']" andCatalog] a
      andCatalog_relevant
    by auto
qed

subsection \<open>Clicks outside the graph\<close>

text \<open>
  Claim C9, as the script has it. A click that carries a non-empty identifier which is not
  a node of the graph raises no error, and leaves the identifiers of the nodes and edges,
  the category filter and the program selection as they are; but the identifier is added
  to the selection like any other, and the render attributes are derived again from that
  selection: with nothing selected before and no edge at that identifier, every node is
  dimmed.
\<close>

theorem absent_node_click_selects:
  "cid \<noteq> [] \<Longrightarrow> cid \<notin> set (map node_id (allNodesDataSet st)) \<Longrightarrow>
   (let st' = handleNetworkClick cd net (cid # ps) st
    in selectedForHighlighting_NodeIds st' = setAdd cid (selectedForHighlighting_NodeIds st)
       \<and> map node_id (allNodesDataSet st') = map node_id (allNodesDataSet st)
       \<and> map edge_id (allEdgesDataSet st') = map edge_id (allEdgesDataSet st)
       \<and> categoryFilterSelect_value st' = categoryFilterSelect_value st
       \<and> programSelect_value st' = programSelect_value st
       \<and> (selectedForHighlighting_NodeIds st = []
            \<and> cid \<notin> set (map edge_from (allEdgesDataSet st))
            \<and> cid \<notin> set (map edge_to (allEdgesDataSet st))
          \<longrightarrow> (\<forall>n \<in> set (allNodesDataSet st'). node_opacity n = Some (5 / 100))))"
proof -
  assume a: "cid \<noteq> []" "cid \<notin> set (map node_id (allNodesDataSet st))"
  have none: "getConnectedNodes es cid = []"
    if "cid \<notin> set (map edge_from es)" "cid \<notin> set (map edge_to es)" for es
    using that by (induction es) (auto simp: getConnectedNodes_def)
  have dim: "\<forall>n \<in> set (allNodesDataSet (handleNetworkClick cd net (cid # ps) st)).
               node_opacity n = Some (5 / 100)"
    if e: "selectedForHighlighting_NodeIds st = []"
      "cid \<notin> set (map edge_from (allEdgesDataSet st))"
      "cid \<notin> set (map edge_to (allEdgesDataSet st))"
  proof -
    have hl: "set (nodesToFullyHighlight (allEdgesDataSet st) [cid]) = {cid}"
      using none[OF e(2,3)] by (simp add: set_nodesToFullyHighlight)
    have "node_id n \<noteq> cid" if "n \<in> set (allNodesDataSet st)" for n
      using that a(2) by auto
    then show ?thesis
      using e(1) hl by (auto simp: click_node(4)[OF a(1)] setAdd_def clickRenderNode_opacity)
  qed
  show ?thesis
    unfolding Let_def
    using dim by (simp add: click_node[OF a(1)] clickRenderNode_id clickRenderEdge_ends o_def)
qed

theorem absent_node_click_selects_witness:
  "selectedForHighlighting_NodeIds
      (handleNetworkClick andCatalog shellNetwork [''ZZZ-999'']
         (displayGraphForCourses andCatalog [''A'', ''B'', ''C''] emptyView)) = [''ZZZ-999'']
   \<and> map node_id (allNodesDataSet
        (handleNetworkClick andCatalog shellNetwork [''ZZZ-999'']
           (displayGraphForCourses andCatalog [''A'', ''B'', ''C''] emptyView)))
      = [''A'', ''logic_A_prereq_AND_1'', ''B'', ''C'']"
proof -
  let ?g = "displayGraphForCourses andCatalog [''A'', ''B'', ''C''] emptyView"
  have ids: "map node_id (allNodesDataSet ?g) = [''A'', ''logic_A_prereq_AND_1'', ''B'', ''C'']"
    using arg_cong[OF andCatalog_display(1), of "map fst"] by (simp add: o_def)
  have sel: "selectedForHighlighting_NodeIds ?g = []"
    by (simp add: displayGraphForCourses_frame emptyView_def)
  have h: "''ZZZ-999'' \<noteq> []" "''ZZZ-999'' \<notin> set (map node_id (allNodesDataSet ?g))"
    unfolding ids by simp_all
  show ?thesis
    using absent_node_click_selects[OF h, of andCatalog shellNetwork "[]"] ids sel
    by (simp add: Let_def setAdd_def)
qed

text \<open>
  Claim C9, as the specification states it, fails: on the graph of \<open>A\<close>, \<open>B\<close>, \<open>C\<close> with
  nothing selected, a click carrying \<open>ZZZ-999\<close>, which is not a node, changes the
  selection and dims every node.
\<close>

theorem absent_node_click_counterexample:
  "''ZZZ-999'' \<notin> set (map node_id
      (allNodesDataSet (displayGraphForCourses andCatalog [''A'', ''B'', ''C''] emptyView)))
   \<and> selectedForHighlighting_NodeIds
        (displayGraphForCourses andCatalog [''A'', ''B'', ''C''] emptyView) = []
   \<and> selectedForHighlighting_NodeIds
        (handleNetworkClick andCatalog shellNetwork [''ZZZ-999'']
           (displayGraphForCourses andCatalog [''A'', ''B'', ''C''] emptyView)) = [''ZZZ-999'']
   \<and> map node_opacity (allNodesDataSet
        (displayGraphForCourses andCatalog [''A'', ''B'', ''C''] emptyView))
      = [None, None, None, None]
   \<and> map node_opacity (allNodesDataSet
        (handleNetworkClick andCatalog shellNetwork [''ZZZ-999'']
           (displayGraphForCourses andCatalog [''A'', ''B'', ''C''] emptyView)))
      = [Some (5 / 100), Some (5 / 100), Some (5 / 100), Some (5 / 100)]
   \<and> handleNetworkClick andCatalog shellNetwork [''ZZZ-999'']
        (displayGraphForCourses andCatalog [''A'', ''B'', ''C''] emptyView)
      \<noteq> displayGraphForCourses andCatalog [''A'', ''B'', ''C''] emptyView"
proof -
  let ?g = "displayGraphForCourses andCatalog [''A'', ''B'', ''C''] emptyView"
  let ?c = "handleNetworkClick andCatalog shellNetwork [''ZZZ-999''] ?g"
  have ids: "map node_id (allNodesDataSet ?g) = [''A'', ''logic_A_prereq_AND_1'', ''B'', ''C'']"
    using arg_cong[OF andCatalog_display(1), of "map fst"] by (simp add: o_def)
  have sel: "selectedForHighlighting_NodeIds ?g = []"
    by (simp add: displayGraphForCourses_frame emptyView_def)
  have sel': "selectedForHighlighting_NodeIds ?c = [''ZZZ-999'']"
    by (simp add: click_node(1) sel setAdd_def)
  have o1: "map node_opacity (allNodesDataSet ?g) = [None, None, None, None]"
    by (simp add: build_eval andCatalog_def emptyView_def cong: let_weak_cong)
  have o2: "map node_opacity (allNodesDataSet ?c)
      = [Some (5 / 100), Some (5 / 100), Some (5 / 100), Some (5 / 100)]"
    by (simp add: build_eval view_eval andCatalog_def cong: let_weak_cong)
  have "?c \<noteq> ?g" using sel sel' by (metis list.distinct(1))
  with ids sel sel' o1 o2 show ?thesis by simp
qed

subsection \<open>Clicks on junctions\<close>

text \<open>
  Claim C10. A click on a node whose identifier is not a course code (a junction or a
  free-text node) adds the identifier to the cumulative selection exactly as the click on
  a course node does; only the sidebar is left as it was. On that render and on the one
  after a further click, the node and its direct neighbours are in the highlight set, and
  those of them that pass the category filter are drawn at full opacity.
\<close>

theorem junction_click_joins_selection:
  "j \<noteq> [] \<Longrightarrow> findCourse cd j = None \<Longrightarrow> k \<noteq> [] \<Longrightarrow>
   (let st' = handleNetworkClick cd net (j # ps) st;
        st'' = handleNetworkClick cd net (k # qs) st';
        near = insert j (set (getConnectedNodes (allEdgesDataSet st) j))
    in selectedForHighlighting_NodeIds st' = setAdd j (selectedForHighlighting_NodeIds st)
       \<and> (\<forall>c. c \<noteq> [] \<longrightarrow>
              selectedForHighlighting_NodeIds (handleNetworkClick cd net (c # ps) st)
                = setAdd c (selectedForHighlighting_NodeIds st))
       \<and> sidebarContent st' = sidebarContent st \<and> sidebarVisible st' = sidebarVisible st
       \<and> near \<subseteq> set (nodesToFullyHighlight (allEdgesDataSet st)
                         (selectedForHighlighting_NodeIds st'))
       \<and> j \<in> set (selectedForHighlighting_NodeIds st'')
       \<and> near \<subseteq> set (nodesToFullyHighlight (allEdgesDataSet st')
                         (selectedForHighlighting_NodeIds st''))
       \<and> (\<forall>i < length (allNodesDataSet st).
             (categoryFilterSelect_value st = ''all''
                \<or> node_group (allNodesDataSet st ! i) = categoryFilterSelect_value st)
             \<and> node_id (allNodesDataSet st ! i) \<in> near
             \<longrightarrow> node_opacity (allNodesDataSet st' ! i) = Some 1
                 \<and> node_opacity (allNodesDataSet st'' ! i) = Some 1))"
proof -
  assume j: "j \<noteq> []" and nc: "findCourse cd j = None" and k: "k \<noteq> []"
  let ?st' = "handleNetworkClick cd net (j # ps) st"
  let ?st'' = "handleNetworkClick cd net (k # qs) ?st'"
  let ?near = "insert j (set (getConnectedNodes (allEdgesDataSet st) j))"
  let ?sel' = "setAdd j (selectedForHighlighting_NodeIds st)"
  let ?sel'' = "setAdd k ?sel'"
  let ?cat = "categoryFilterSelect_value st"
  have s1: "selectedForHighlighting_NodeIds ?st' = ?sel'" by (rule click_node(1)[OF j])
  have s2: "selectedForHighlighting_NodeIds ?st'' = ?sel''"
    by (simp add: click_node(1)[OF k] s1)
  have e1: "getConnectedNodes (allEdgesDataSet ?st') x = getConnectedNodes (allEdgesDataSet st) x"
    for x
    by (simp add: click_node(5)[OF j] getConnectedNodes_rendered)
  have h1: "?near \<subseteq> set (nodesToFullyHighlight (allEdgesDataSet st) ?sel')"
    by (auto simp: set_nodesToFullyHighlight set_setAdd)
  have h2: "?near \<subseteq> set (nodesToFullyHighlight (allEdgesDataSet ?st') ?sel'')"
    by (auto simp: set_nodesToFullyHighlight set_setAdd e1)
  have ne: "?sel' \<noteq> []" "?sel'' \<noteq> []" by (auto simp: setAdd_def)
  have n1: "allNodesDataSet ?st' = map (clickRenderNode net ?cat ?sel'
              (nodesToFullyHighlight (allEdgesDataSet st) ?sel')) (allNodesDataSet st)"
    by (rule click_node(4)[OF j])
  have n2: "allNodesDataSet ?st'' = map (clickRenderNode net ?cat ?sel''
              (nodesToFullyHighlight (allEdgesDataSet ?st') ?sel'')) (allNodesDataSet ?st')"
    by (simp add: click_node(4)[OF k] s1 click_node(2)[OF j])
  have op: "node_opacity (allNodesDataSet ?st' ! i) = Some 1
          \<and> node_opacity (allNodesDataSet ?st'' ! i) = Some 1"
    if "i < length (allNodesDataSet st)"
      "?cat = ''all'' \<or> node_group (allNodesDataSet st ! i) = ?cat"
      "node_id (allNodesDataSet st ! i) \<in> ?near" for i
  proof -
    have a: "node_id (allNodesDataSet st ! i)
               \<in> set (nodesToFullyHighlight (allEdgesDataSet st) ?sel')"
      using h1 that(3) by blast
    have b: "node_id (allNodesDataSet st ! i)
               \<in> set (nodesToFullyHighlight (allEdgesDataSet ?st') ?sel'')"
      using h2 that(3) by blast
    have "node_opacity (allNodesDataSet ?st' ! i) = Some 1"
      using that(1,2) a by (simp add: n1 clickRenderNode_opacity)
    moreover have "node_opacity (allNodesDataSet ?st'' ! i) = Some 1"
      unfolding n2 using that(1,2) b
      by (simp add: n1 clickRenderNode_opacity clickRenderNode_id clickRenderNode_group)
    ultimately show ?thesis by simp
  qed
  have sb: "sidebarContent ?st' = sidebarContent st" "sidebarVisible ?st' = sidebarVisible st"
    by (simp_all add: click_node(6,7)[OF j] nc)
  have any: "\<forall>c. c \<noteq> [] \<longrightarrow>
              selectedForHighlighting_NodeIds (handleNetworkClick cd net (c # ps) st)
                = setAdd c (selectedForHighlighting_NodeIds st)"
    by (simp add: click_node(1))
  have "j \<in> set (selectedForHighlighting_NodeIds ?st'')"
    by (simp add: s2 set_setAdd)
  with s1 any sb h1 h2 op show ?thesis
    unfolding Let_def s1 s2 by blast
qed

theorem junction_click_joins_selection_witness:
  "selectedForHighlighting_NodeIds
      (handleNetworkClick listCatalog shellNetwork [''logic_X_prereq_OR_N_OF_1_1'']
         (displayGraphForCourses listCatalog [''X'', ''W'', ''Y'', ''Z''] emptyView))
     = [''logic_X_prereq_OR_N_OF_1_1'']
   \<and> sidebarContent
        (handleNetworkClick listCatalog shellNetwork [''logic_X_prereq_OR_N_OF_1_1'']
           (displayGraphForCourses listCatalog [''X'', ''W'', ''Y'', ''Z''] emptyView)) = None
   \<and> ''logic_X_prereq_OR_N_OF_1_1'' \<in> set (selectedForHighlighting_NodeIds
        (handleNetworkClick listCatalog shellNetwork [''W'']
           (handleNetworkClick listCatalog shellNetwork [''logic_X_prereq_OR_N_OF_1_1'']
              (displayGraphForCourses listCatalog [''X'', ''W'', ''Y'', ''Z''] emptyView))))
   \<and> map (\<lambda>n. (node_id n, node_opacity n))
        (allNodesDataSet
           (handleNetworkClick listCatalog shellNetwork [''logic_X_prereq_OR_N_OF_1_1'']
              (displayGraphForCourses listCatalog [''X'', ''W'', ''Y'', ''Z''] emptyView)))
      = [(''X'', Some 1), (''logic_X_prereq_OR_N_OF_1_1'', Some 1), (''Y'', Some 1),
         (''Z'', Some 1), (''W'', Some (5 / 100)), (''n_of_list_W_prereq_2_1'', Some (5 / 100))]"
proof -
  let ?g = "displayGraphForCourses listCatalog [''X'', ''W'', ''Y'', ''Z''] emptyView"
  have h: "''logic_X_prereq_OR_N_OF_1_1'' \<noteq> []" "''W'' \<noteq> []" by simp_all
  have g: "selectedForHighlighting_NodeIds ?g = []" "sidebarContent ?g = None"
    by (simp_all add: displayGraphForCourses_def emptyView_def split: prod.split)
  note t = junction_click_joins_selection[OF h(1) listCatalog_find_junction h(2),
      where net = shellNetwork and ps = "[]" and qs = "[]" and st = ?g, unfolded Let_def]
  from t have "selectedForHighlighting_NodeIds
      (handleNetworkClick listCatalog shellNetwork [''logic_X_prereq_OR_N_OF_1_1''] ?g)
     = setAdd ''logic_X_prereq_OR_N_OF_1_1'' (selectedForHighlighting_NodeIds ?g)"
    by (rule conjunct1)
  moreover from t have "sidebarContent
      (handleNetworkClick listCatalog shellNetwork [''logic_X_prereq_OR_N_OF_1_1''] ?g)
     = sidebarContent ?g"
    by blast
  moreover from t have "''logic_X_prereq_OR_N_OF_1_1'' \<in> set (selectedForHighlighting_NodeIds
        (handleNetworkClick listCatalog shellNetwork [''W'']
           (handleNetworkClick listCatalog shellNetwork [''logic_X_prereq_OR_N_OF_1_1''] ?g)))"
    by blast
  ultimately show ?thesis using junction_click_eval g by (simp add: setAdd_def)
qed

end
